(* ===== verification/Prelude.thy ===== *)
theory Prelude
  imports Main "HOL-Library.Word"
begin

text \<open>
  The vocabulary every component of the development shares: the machine integers and byte
  strings of the Rust code, its errors as values, \<open>Result\<close> as a sum, computations that mutate a
  state through \<open>&mut\<close> and may fail (the state they have reached is kept when they fail, as in
  Rust), big-endian encodings, and the generic facts on lists and words the component proofs use.
\<close>

unbundle bit_operations_syntax

section \<open>Machine integers\<close>

type_synonym u8 = "8 word"
type_synonym u16 = "16 word"
type_synonym u32 = "32 word"
type_synonym u64 = "64 word"
type_synonym u128 = "128 word"
type_synonym bytes = "u8 list"

text \<open>
  A \<open>usize\<close> (64 bits on both supported architectures) is a natural number; where the code adds
  two of them with an overflow check, the bound is written out.
\<close>

type_synonym usize = nat

section \<open>Errors and results\<close>

text \<open>
  One constructor per error site of the source, with the values its message prints. \<open>Panicked\<close>
  is what \<open>copy_from_slice\<close> does on slices of different lengths; the code has no other panicking
  operation on the modelled paths.
\<close>

datatype io_error_kind = Interrupted | NotFound | OtherIo

datatype error =
    OverflowedUsize usize usize
  | OverflowedU16 u16 u16
  | OverflowedInstant nat
  | IndexOutOfRange usize usize
  | RangeOutOfRange usize usize usize
  | TryFromIntError
  | TooShortForIpv4 usize
  | Ipv6Packet
  | UnexpectedIpVersion u8
  | InvalidIpv4Checksum
  | ShorterThanIhl
  | UnsupportedProtocol u8
  | TooShortForIcmp usize
  | InvalidIcmpChecksum
  | NotAnEchoRequest u8 u8
  | TooShortForUdp usize
  | InvalidUdpChecksum
  | TooShortForTcp usize
  | InvalidTcpChecksum
  | InvalidTcpFlags u8
  | PayloadTooLong
  | NotSynAck
  | NotSynReceived
  | SndUnaPastSndNxt
  | IoError io_error_kind
  | SkippingPacket error
  | ErrorCreatingReply error
  | InvalidLogLevel
  | InvalidNumber
  | EnvNotUnicode string
  | EnvUnparsable string error
  | Panicked

type_synonym 'a result = "error + 'a"

definition result_bind :: "'a result \<Rightarrow> ('a \<Rightarrow> 'b result) \<Rightarrow> 'b result" where
  "result_bind r f = (case r of Inl e \<Rightarrow> Inl e | Inr x \<Rightarrow> f x)"

definition result_map :: "('a \<Rightarrow> 'b) \<Rightarrow> 'a result \<Rightarrow> 'b result" where
  "result_map f r = (case r of Inl e \<Rightarrow> Inl e | Inr x \<Rightarrow> Inr (f x))"

definition result_map_err :: "(error \<Rightarrow> error) \<Rightarrow> 'a result \<Rightarrow> 'a result" where
  "result_map_err f r = (case r of Inl e \<Rightarrow> Inl (f e) | Inr x \<Rightarrow> Inr x)"

definition ok_or :: "error \<Rightarrow> 'a option \<Rightarrow> 'a result" where
  "ok_or e x = (case x of None \<Rightarrow> Inl e | Some v \<Rightarrow> Inr v)"

lemma result_bind_simps [simp]:
  "result_bind (Inl e) f = Inl e" "result_bind (Inr x) f = f x"
  by (simp_all add: result_bind_def)

lemma result_map_simps [simp]:
  "result_map g (Inl e) = Inl e" "result_map g (Inr x) = Inr (g x)"
  by (simp_all add: result_map_def)

lemma result_map_err_simps [simp]:
  "result_map_err g (Inl e) = Inl (g e)" "result_map_err g (Inr x) = Inr x"
  by (simp_all add: result_map_err_def)

lemma ok_or_simps [simp]: "ok_or e None = Inl e" "ok_or e (Some v) = Inr v"
  by (simp_all add: ok_or_def)

lemma result_bind_eq_Inr:
  "result_bind r f = Inr y \<longleftrightarrow> (\<exists>x. r = Inr x \<and> f x = Inr y)"
  by (cases r) auto

lemma result_bind_eq_Inl:
  "result_bind r f = Inl e \<longleftrightarrow> r = Inl e \<or> (\<exists>x. r = Inr x \<and> f x = Inl e)"
  by (cases r) auto

lemma result_map_err_eq_Inl: "result_map_err g r = Inl e \<longleftrightarrow> (\<exists>e'. r = Inl e' \<and> e = g e')"
  by (cases r) auto

lemma result_map_eq_Inl: "result_map g r = Inl e \<longleftrightarrow> r = Inl e"
  by (cases r) auto

lemma result_map_eq_Inr: "result_map g r = Inr y \<longleftrightarrow> (\<exists>x. r = Inr x \<and> y = g x)"
  by (cases r) auto

lemma result_map_err_eq_Inr: "result_map_err g r = Inr y \<longleftrightarrow> r = Inr y"
  by (cases r) auto

section \<open>Fallible computations over a mutable state\<close>

text \<open>
  \<open>fn f(x: &mut S) -> Result<A>\<close> becomes \<open>('s, 'a) action\<close>: the result and the state at the
  point the function returned, also when it returned an error through \<open>?\<close>.
\<close>

type_synonym ('s, 'a) action = "'s \<Rightarrow> 'a result \<times> 's"

definition act_return :: "'a \<Rightarrow> ('s, 'a) action" where
  "act_return x s = (Inr x, s)"

definition act_lift :: "'a result \<Rightarrow> ('s, 'a) action" where
  "act_lift r s = (r, s)"

text \<open>Computing a result from the current state without changing it.\<close>

definition act_read :: "('s \<Rightarrow> 'a result) \<Rightarrow> ('s, 'a) action" where
  "act_read f s = (f s, s)"

definition act_bind :: "('s, 'a) action \<Rightarrow> ('a \<Rightarrow> ('s, 'b) action) \<Rightarrow> ('s, 'b) action" where
  "act_bind m f s = (case m s of (Inl e, s') \<Rightarrow> (Inl e, s') | (Inr x, s') \<Rightarrow> f x s')"

lemma act_simps [simp]:
  "act_return x s = (Inr x, s)"
  "act_lift r s = (r, s)"
  "act_read f s = (f s, s)"
  by (simp_all add: act_return_def act_lift_def act_read_def)

lemma act_bind_Inr [simp]: "m s = (Inr x, s') \<Longrightarrow> act_bind m f s = f x s'"
  by (simp add: act_bind_def)

lemma act_bind_Inl [simp]: "m s = (Inl e, s') \<Longrightarrow> act_bind m f s = (Inl e, s')"
  by (simp add: act_bind_def)

lemma act_bind_lift [simp]:
  "act_bind (act_lift (Inr x)) f s = f x s"
  "act_bind (act_lift (Inl e)) f s = (Inl e, s)"
  by (simp_all add: act_bind_def)

lemma act_bind_eq_Inr:
  "act_bind m f s = (Inr y, t) \<longleftrightarrow> (\<exists>x u. m s = (Inr x, u) \<and> f x u = (Inr y, t))"
  by (auto simp: act_bind_def split: prod.splits sum.splits)

text \<open>
  \<open>safely P m\<close>: from a state that satisfies the invariant \<open>P\<close>, \<open>m\<close> does not panic and leaves a state
  that satisfies it, whether it succeeds or fails.
\<close>

definition safely :: "('s \<Rightarrow> bool) \<Rightarrow> ('s, 'a) action \<Rightarrow> bool" where
  "safely P m \<longleftrightarrow> (\<forall>s. P s \<longrightarrow> P (snd (m s)) \<and> fst (m s) \<noteq> Inl Panicked)"

named_theorems safely_intros

lemma safelyI:
  "(\<And>s. P s \<Longrightarrow> P (snd (m s)) \<and> fst (m s) \<noteq> Inl Panicked) \<Longrightarrow> safely P m"
  by (simp add: safely_def)

lemma safelyD:
  assumes "safely P m" and "P s"
  shows "P (snd (m s))" and "fst (m s) \<noteq> Inl Panicked"
  using assms by (simp_all add: safely_def)

lemma safely_return [safely_intros]: "safely P (act_return x)"
  by (simp add: safely_def)

lemma safely_bind_result:
  assumes "safely P m" and "\<And>s x s'. P s \<Longrightarrow> m s = (Inr x, s') \<Longrightarrow> safely P (f x)"
  shows "safely P (act_bind m f)"
proof (rule safelyI)
  fix s assume s: "P s"
  then have m: "P (snd (m s))" "fst (m s) \<noteq> Inl Panicked" using safelyD [OF assms(1)] by simp_all
  obtain r s' where r: "m s = (r, s')" by fastforce
  show "P (snd (act_bind m f s)) \<and> fst (act_bind m f s) \<noteq> Inl Panicked"
  proof (cases r)
    case (Inr x)
    with assms(2) [OF s] r m(1) show ?thesis by (auto simp: safely_def)
  qed (use r m in simp)
qed

lemma safely_bind [safely_intros]:
  "safely P m \<Longrightarrow> (\<And>x. safely P (f x)) \<Longrightarrow> safely P (act_bind m f)"
  by (rule safely_bind_result)

text \<open>\<open>frames f m\<close>: \<open>m\<close> leaves the part \<open>f\<close> of the state as it was.\<close>

definition frames :: "('s \<Rightarrow> 'b) \<Rightarrow> ('s, 'a) action \<Rightarrow> bool" where
  "frames f m \<longleftrightarrow> (\<forall>s. f (snd (m s)) = f s)"

named_theorems frames_intros

lemma framesD: "frames f m \<Longrightarrow> m s = (r, s') \<Longrightarrow> f s' = f s"
  unfolding frames_def by (metis snd_conv)

lemma frames_pure [frames_intros]:
  "frames f (act_return x)" "frames f (act_lift r)" "frames f (act_read g)"
  by (simp_all add: frames_def)

lemma frames_bind [frames_intros]:
  "frames f m \<Longrightarrow> (\<And>x. frames f (k x)) \<Longrightarrow> frames f (act_bind m k)"
  by (auto simp: frames_def act_bind_def split: prod.split sum.split) (metis snd_conv)+

section \<open>Big-endian encodings\<close>

text \<open>
  \<open>uN::from_be_bytes\<close> reads the bytes most significant first; \<open>to_be_bytes\<close> is written out for
  the two widths the code encodes.
\<close>

definition from_be_bytes :: "bytes \<Rightarrow> 'a::len word" where
  "from_be_bytes bs = foldl (\<lambda>acc b. acc * 256 + ucast b) 0 bs"

definition u16_to_be_bytes :: "u16 \<Rightarrow> bytes" where
  "u16_to_be_bytes w = [ucast (drop_bit 8 w), ucast w]"

definition u32_to_be_bytes :: "u32 \<Rightarrow> bytes" where
  "u32_to_be_bytes w =
     [ucast (drop_bit 24 w), ucast (drop_bit 16 w), ucast (drop_bit 8 w), ucast w]"

text \<open>The value of a byte string read most significant byte first.\<close>

definition be_val :: "bytes \<Rightarrow> nat" where
  "be_val bs = foldl (\<lambda>acc b. acc * 256 + unat b) 0 bs"

lemma be_val_Nil [simp]: "be_val [] = 0"
  by (simp add: be_val_def)

lemma be_val_snoc [simp]: "be_val (bs @ [b]) = be_val bs * 256 + unat b"
  by (simp add: be_val_def)

lemma be_val_append: "be_val (xs @ ys) = be_val xs * 256 ^ length ys + be_val ys"
proof (induction ys rule: rev_induct)
  case (snoc y ys)
  have "be_val (xs @ ys @ [y]) = be_val (xs @ ys) * 256 + unat y"
    by (metis append_assoc be_val_snoc)
  with snoc show ?case by (simp add: algebra_simps)
qed simp

lemma be_val_single [simp]: "be_val [b] = unat b"
  by (simp add: be_val_def)

lemma be_val_Cons: "be_val (b # bs) = unat b * 256 ^ length bs + be_val bs"
  using be_val_append [of "[b]" bs] by simp

lemma be_val_less: "be_val bs < 256 ^ length bs"
proof (induction bs rule: rev_induct)
  case (snoc b bs)
  have "unat b < 256" using unsigned_less [of b, where 'a = nat] by simp
  with snoc show ?case by simp
qed simp

lemma be_val_zero_iff: "be_val bs = 0 \<longleftrightarrow> (\<forall>b \<in> set bs. b = 0)"
  by (induction bs rule: rev_induct) (auto simp: unat_eq_0)

lemma from_be_bytes_of_nat: "from_be_bytes bs = of_nat (be_val bs)"
proof (induction bs rule: rev_induct)
  case (snoc b bs)
  then show ?case
    by (simp add: from_be_bytes_def)
qed (simp add: from_be_bytes_def)

lemma unat_from_be_bytes:
  assumes "8 * length bs \<le> LENGTH('a::len)"
  shows "unat (from_be_bytes bs :: 'a word) = be_val bs"
proof -
  have "be_val bs < 2 ^ (8 * length bs)"
    using be_val_less [of bs] by (simp add: power_mult)
  also have "\<dots> \<le> 2 ^ LENGTH('a)"
    using assms by (rule power_increasing) simp
  finally show ?thesis
    by (simp add: from_be_bytes_of_nat unsigned_of_nat take_bit_nat_eq_self)
qed

lemma unat_u8_less: "unat (b :: u8) < 256"
  using unsigned_less [of b, where 'a = nat] by simp

lemma unat_u16_less: "unat (w :: u16) < 65536"
  using unsigned_less [of w, where 'a = nat] by simp

lemma unat_u32_less: "unat (w :: u32) < 4294967296"
  using unsigned_less [of w, where 'a = nat] by simp

lemma unat_ucast_u16_u32 [simp]: "unat (ucast (w :: u16) :: u32) = unat w"
  using unat_u16_less [of w] by (simp add: unsigned_ucast_eq take_bit_nat_eq_self)

lemma unat_of_nat_u16: "n < 65536 \<Longrightarrow> unat (of_nat n :: u16) = n"
  by (simp add: unsigned_of_nat take_bit_nat_eq_self)

lemma length_to_be_bytes [simp]:
  "length (u16_to_be_bytes w) = 2" "length (u32_to_be_bytes v) = 4"
  by (simp_all add: u16_to_be_bytes_def u32_to_be_bytes_def)

lemma unat_ucast_u8: "unat (ucast (w :: 'a::len word) :: u8) = unat w mod 256"
  by (simp add: unsigned_ucast_eq take_bit_eq_mod)

lemma unat_drop_bit_div: "unat (drop_bit k (w :: 'a::len word)) = unat w div 2 ^ k"
  by (simp only: unat_drop_bit_eq) (simp add: drop_bit_eq_div)

lemma be_val_u16_to_be_bytes [simp]: "be_val (u16_to_be_bytes w) = unat w"
proof -
  have "unat w div 256 < 256" using unat_u16_less [of w] by linarith
  then show ?thesis
    by (simp add: u16_to_be_bytes_def be_val_Cons unat_ucast_u8 unat_drop_bit_div)
qed

lemma nat_base256: "(n :: nat) = n div 256 * 256 + n mod 256"
  by simp

lemma be_val_u32_to_be_bytes [simp]: "be_val (u32_to_be_bytes w) = unat w"
proof -
  let ?n = "unat w"
  have a: "?n div 256 div 256 div 256 < 256" using unat_u32_less [of w] by linarith
  have "?n = ((?n div 256 div 256 div 256 * 256 + ?n div 256 div 256 mod 256) * 256
      + ?n div 256 mod 256) * 256 + ?n mod 256"
    by simp
  with a show ?thesis
    by (simp add: u32_to_be_bytes_def be_val_Cons unat_ucast_u8 unat_drop_bit_div div_mult2_eq [symmetric])
qed

lemma from_be_bytes_u16 [simp]: "from_be_bytes (u16_to_be_bytes w) = w"
  by (simp add: from_be_bytes_of_nat)

lemma from_be_bytes_u32 [simp]: "from_be_bytes (u32_to_be_bytes w) = w"
  by (simp add: from_be_bytes_of_nat)

lemma be_val_inj: "length xs = length ys \<Longrightarrow> be_val xs = be_val ys \<Longrightarrow> xs = ys"
proof (induction xs ys rule: list_induct2)
  case (Cons x xs y ys)
  let ?p = "256 ^ length ys :: nat"
  have eq: "unat x * ?p + be_val xs = unat y * ?p + be_val ys"
    using Cons.prems Cons.hyps by (simp add: be_val_Cons)
  have lt: "be_val xs < ?p" "be_val ys < ?p"
    using be_val_less [of xs] be_val_less [of ys] Cons.hyps by simp_all
  from eq lt have "unat x = (unat y * ?p + be_val ys) div ?p"
    by (metis add_cancel_right_right div_less div_mult_self3 mult.commute nat_less_le not_less0)
  with lt have x: "unat x = unat y" by simp
  with eq have "be_val xs = be_val ys" by simp
  with Cons.IH x show ?case by (simp add: word_unat_eq_iff)
qed simp

lemma u16_to_be_bytes_from [simp]: "u16_to_be_bytes (from_be_bytes [a, b]) = [a, b]"
  by (rule be_val_inj) (simp_all add: unat_from_be_bytes)

lemma u32_to_be_bytes_from [simp]: "u32_to_be_bytes (from_be_bytes [a, b, c, d]) = [a, b, c, d]"
  by (rule be_val_inj) (simp_all add: unat_from_be_bytes)

section \<open>Lists\<close>

text \<open>Cutting a spelled-out prefix and a symbolic number of further elements.\<close>

lemma take_drop_numeral_plus [simp]:
  "take (numeral k + n) (x # xs) = x # take (pred_numeral k + n) xs"
  "drop (numeral k + n) (x # xs) = drop (pred_numeral k + n) xs"
  "take (1 + n) (x # xs) = x # take n xs"
  "drop (1 + n) (x # xs) = drop n xs"
  by (simp_all add: numeral_eq_Suc)

text \<open>A list of known length is spelled out by its elements.\<close>

lemma list_eq_map_nth: "xs = map (\<lambda>i. xs ! i) [0..<length xs]"
  by (simp add: map_nth)

lemma list_of_length_8:
  "length xs = 8 \<Longrightarrow> xs = [xs ! 0, xs ! 1, xs ! 2, xs ! 3, xs ! 4, xs ! 5, xs ! 6, xs ! 7]"
  by (subst list_eq_map_nth) (simp add: upt_rec numeral_eq_Suc)

lemma list_of_length_20:
  "length xs = 20 \<Longrightarrow> xs = [xs ! 0, xs ! 1, xs ! 2, xs ! 3, xs ! 4, xs ! 5, xs ! 6, xs ! 7, xs ! 8,
     xs ! 9, xs ! 10, xs ! 11, xs ! 12, xs ! 13, xs ! 14, xs ! 15, xs ! 16, xs ! 17, xs ! 18, xs ! 19]"
  by (subst list_eq_map_nth) (simp add: upt_rec numeral_eq_Suc)

lemma length_ge_8E:
  assumes "8 \<le> length xs"
  obtains b0 b1 b2 b3 b4 b5 b6 b7 r where "xs = b0 # b1 # b2 # b3 # b4 # b5 # b6 # b7 # r"
proof -
  have "xs = take 8 xs @ drop 8 xs" by simp
  moreover have "length (take 8 xs) = 8" using assms by simp
  note list_of_length_8 [OF this]
  ultimately show ?thesis using that by (metis append_Cons append_Nil)
qed

lemma length_ge_20E:
  assumes "20 \<le> length xs"
  obtains b0 b1 b2 b3 b4 b5 b6 b7 b8 b9 b10 b11 b12 b13 b14 b15 b16 b17 b18 b19 r
  where "xs = b0 # b1 # b2 # b3 # b4 # b5 # b6 # b7 # b8 # b9 # b10 # b11 # b12 # b13 # b14 # b15
    # b16 # b17 # b18 # b19 # r"
proof -
  have "xs = take 20 xs @ drop 20 xs" by simp
  moreover have "length (take 20 xs) = 20" using assms by simp
  note list_of_length_20 [OF this]
  ultimately show ?thesis using that by (metis append_Cons append_Nil)
qed

end
