(* ===== verification/Addr.thy ===== *)
theory Addr
  imports Prelude
begin

text \<open>
  Endpoints and address pairs (\<open>src/endpoint.rs\<close>, \<open>src/addr_pairs.rs\<close>). The sealed trait
  \<open>Endpoint\<close> with its zero-sized implementers becomes two marker types used as phantom type
  arguments, so that, as in the Rust code, mixing up the two directions is a type error.
\<close>

datatype local_ep = Local
datatype remote_ep = Remote

text \<open>\<open>std::net::Ipv4Addr\<close>\<close>

datatype ipv4_addr = Ipv4Addr u8 u8 u8 u8

fun octets :: "ipv4_addr \<Rightarrow> bytes" where
  "octets (Ipv4Addr a b c d) = [a, b, c, d]"

lemma length_octets [simp]: "length (octets a) = 4"
  by (cases a) simp

text \<open>
  \<open>src\<close> is the address of endpoint \<open>'s\<close> and \<open>dst\<close> the address of its peer. The peer's marker,
  \<open>S::Peer\<close> in the source, is fixed by the type at which \<open>swapped\<close> is used.
\<close>

datatype 's ipv4_addr_pair = Ipv4AddrPair (ip_src: ipv4_addr) (ip_dst: ipv4_addr)

datatype 's port_pair = PortPair (port_src: u16) (port_dst: u16)

definition ip_swapped :: "'s ipv4_addr_pair \<Rightarrow> 'p ipv4_addr_pair" where
  "ip_swapped p = Ipv4AddrPair (ip_dst p) (ip_src p)"

definition ports_swapped :: "'s port_pair \<Rightarrow> 'p port_pair" where
  "ports_swapped p = PortPair (port_dst p) (port_src p)"

lemma ip_swapped_sel [simp]: "ip_src (ip_swapped p) = ip_dst p" "ip_dst (ip_swapped p) = ip_src p"
  by (simp_all add: ip_swapped_def)

lemma ports_swapped_sel [simp]:
  "port_src (ports_swapped p) = port_dst p" "port_dst (ports_swapped p) = port_src p"
  by (simp_all add: ports_swapped_def)

lemma ip_swapped_swapped [simp]: "ip_swapped (ip_swapped p) = p"
  by (cases p) (simp add: ip_swapped_def)

lemma ports_swapped_swapped [simp]: "ports_swapped (ports_swapped p) = p"
  by (cases p) (simp add: ports_swapped_def)

text \<open>
  The same addresses under the other direction's marker: a packet as its receiver names its
  endpoints. Only statements use this; the code never relabels a pair.
\<close>

definition ip_relabel :: "'s ipv4_addr_pair \<Rightarrow> 'p ipv4_addr_pair" where
  "ip_relabel p = Ipv4AddrPair (ip_src p) (ip_dst p)"

definition ports_relabel :: "'s port_pair \<Rightarrow> 'p port_pair" where
  "ports_relabel p = PortPair (port_src p) (port_dst p)"

lemma relabel_sel [simp]:
  "ip_src (ip_relabel p) = ip_src p" "ip_dst (ip_relabel p) = ip_dst p"
  "port_src (ports_relabel q) = port_src q" "port_dst (ports_relabel q) = port_dst q"
  by (simp_all add: ip_relabel_def ports_relabel_def)

end
