(* ===== verification/Try_Ops.thy ===== *)
theory Try_Ops
  imports Prelude
begin

text \<open>
  The fallible operations of \<open>src/try_ops.rs\<close> (\<open>TryAdd\<close>, \<open>TryGet\<close>, \<open>TryGetMut\<close>), together with
  \<open>copy_from_slice\<close>, through which every encoder writes its output buffer.
\<close>

section \<open>Checked addition\<close>

definition usize_MAX :: usize where
  "usize_MAX = 2 ^ 64 - 1"

definition try_add_usize :: "usize \<Rightarrow> usize \<Rightarrow> usize result" where
  "try_add_usize a b = (if a + b \<le> usize_MAX then Inr (a + b) else Inl (OverflowedUsize a b))"

definition try_add_u16 :: "u16 \<Rightarrow> u16 \<Rightarrow> u16 result" where
  "try_add_u16 a b = (if unat a + unat b < 2 ^ 16 then Inr (a + b) else Inl (OverflowedU16 a b))"

text \<open>\<open>u16::try_from(usize)\<close>\<close>

definition u16_try_from :: "usize \<Rightarrow> u16 result" where
  "u16_try_from n = (if n < 2 ^ 16 then Inr (of_nat n) else Inl TryFromIntError)"

lemma try_add_u16_Inr:
  "try_add_u16 a b = Inr c \<longleftrightarrow> unat a + unat b < 65536 \<and> unat c = unat a + unat b"
  by (auto simp: try_add_u16_def unat_plus_if' word_unat_eq_iff)

lemma u16_try_from_Inr: "u16_try_from n = Inr c \<longleftrightarrow> n < 65536 \<and> unat c = n"
  by (auto simp: u16_try_from_def unsigned_of_nat take_bit_nat_eq_self word_unat_eq_iff)

section \<open>Time\<close>

text \<open>
  \<open>Duration\<close> and \<open>Instant\<close> as nanoseconds. A \<open>Duration\<close> has 64-bit seconds; an \<open>Instant\<close> is a reading
  of the monotonic clock with 63 bits of seconds. What the clock shows is an argument of the
  operations that read it.
\<close>

type_synonym duration = nat
type_synonym instant = nat

definition NANOS_PER_SEC :: nat where
  "NANOS_PER_SEC = 10 ^ 9"

definition DURATION_MAX :: duration where
  "DURATION_MAX = 2 ^ 64 * NANOS_PER_SEC - 1"

definition INSTANT_MAX :: instant where
  "INSTANT_MAX = 2 ^ 63 * NANOS_PER_SEC - 1"

definition duration_from_millis :: "u64 \<Rightarrow> duration" where
  "duration_from_millis ms = unat ms * 10 ^ 6"

definition duration_from_secs :: "u64 \<Rightarrow> duration" where
  "duration_from_secs s = unat s * NANOS_PER_SEC"

definition duration_saturating_mul :: "duration \<Rightarrow> u32 \<Rightarrow> duration" where
  "duration_saturating_mul d k = min (d * unat k) DURATION_MAX"

text \<open>\<open>Ord::clamp\<close>, which asserts \<open>lo \<le> hi\<close>; the server's bounds are constants that satisfy it.\<close>

definition duration_clamp :: "duration \<Rightarrow> duration \<Rightarrow> duration \<Rightarrow> duration" where
  "duration_clamp d lo hi = (if d < lo then lo else if hi < d then hi else d)"

definition instant_checked_add :: "instant \<Rightarrow> duration \<Rightarrow> instant option" where
  "instant_checked_add t d = (if t + d \<le> INSTANT_MAX then Some (t + d) else None)"

definition saturating_duration_since :: "instant \<Rightarrow> instant \<Rightarrow> duration" where
  "saturating_duration_since t earlier = t - earlier"

definition try_add_instant :: "instant \<Rightarrow> duration \<Rightarrow> instant result" where
  "try_add_instant t d = ok_or (OverflowedInstant (d div NANOS_PER_SEC)) (instant_checked_add t d)"

text \<open>\<open>u32::saturating_pow\<close> and \<open>u8::saturating_add\<close>\<close>

definition u32_saturating_pow :: "u32 \<Rightarrow> nat \<Rightarrow> u32" where
  "u32_saturating_pow b n = of_nat (min (unat b ^ n) (2 ^ 32 - 1))"

definition u8_saturating_add :: "u8 \<Rightarrow> u8 \<Rightarrow> u8" where
  "u8_saturating_add a b = of_nat (min (unat a + unat b) 255)"

lemma unat_u8_saturating_add: "unat (u8_saturating_add a b) = min (unat a + unat b) 255"
  by (simp add: u8_saturating_add_def unsigned_of_nat take_bit_nat_eq_self min_def)

lemma unat_u32_saturating_pow: "unat (u32_saturating_pow b n) = min (unat b ^ n) 4294967295"
  by (simp add: u32_saturating_pow_def unsigned_of_nat take_bit_nat_eq_self min_def)

section \<open>Checked indexing\<close>

definition try_get :: "'a list \<Rightarrow> usize \<Rightarrow> 'a result" where
  "try_get xs i = (if i < length xs then Inr (xs ! i) else Inl (IndexOutOfRange i (length xs)))"

text \<open>\<open>xs.try_get(i..j)\<close>; \<open>xs.try_get(..j)\<close> is the case \<open>i = 0\<close>.\<close>

definition try_get_range :: "'a list \<Rightarrow> usize \<Rightarrow> usize \<Rightarrow> 'a list result" where
  "try_get_range xs i j =
     (if i \<le> j \<and> j \<le> length xs then Inr (take (j - i) (drop i xs))
      else Inl (RangeOutOfRange i j (length xs)))"

text \<open>\<open>*xs.try_get_mut(i)? = v\<close>\<close>

definition try_set :: "usize \<Rightarrow> 'a \<Rightarrow> ('a list, unit) action" where
  "try_set i v xs =
     (if i < length xs then (Inr (), xs[i := v]) else (Inl (IndexOutOfRange i (length xs)), xs))"

text \<open>\<open>xs.try_get_mut(i..j)?.copy_from_slice(src)\<close>\<close>

definition try_copy :: "usize \<Rightarrow> usize \<Rightarrow> 'a list \<Rightarrow> ('a list, unit) action" where
  "try_copy i j src xs =
     (if i \<le> j \<and> j \<le> length xs then
        if length src = j - i then (Inr (), take i xs @ src @ drop j xs) else (Inl Panicked, xs)
      else (Inl (RangeOutOfRange i j (length xs)), xs))"

text \<open>A buffer is a place of a fixed size: no write through these operations changes its length.\<close>

lemma length_try_set [simp]: "length (snd (try_set i v xs)) = length xs"
  by (simp add: try_set_def)

lemma length_try_copy [simp]: "length (snd (try_copy i j src xs)) = length xs"
  by (simp add: try_copy_def)

lemma try_set_ok [simp]: "i < length xs \<Longrightarrow> try_set i v xs = (Inr (), xs[i := v])"
  by (simp add: try_set_def)

lemma try_copy_ok:
  "i \<le> j \<Longrightarrow> j \<le> length xs \<Longrightarrow> length src = j - i \<Longrightarrow>
     try_copy i j src xs = (Inr (), take i xs @ src @ drop j xs)"
  by (simp add: try_copy_def)

lemma try_copy_fails:
  "length xs < j \<Longrightarrow> try_copy i j src xs = (Inl (RangeOutOfRange i j (length xs)), xs)"
  by (simp add: try_copy_def)

lemma try_get_range_ok:
  "i \<le> j \<Longrightarrow> j \<le> length xs \<Longrightarrow> try_get_range xs i j = Inr (take (j - i) (drop i xs))"
  by (simp add: try_get_range_def)

section \<open>Writers that neither panic nor resize\<close>

text \<open>
  A writer is tame if it keeps the buffer's length and never panics. Tameness follows from the
  structure of the writer.
\<close>

definition tame :: "('a list, 'b) action \<Rightarrow> bool" where
  "tame m \<longleftrightarrow> (\<forall>buf. length (snd (m buf)) = length buf \<and> fst (m buf) \<noteq> Inl Panicked)"

named_theorems tame_intros \<open>structural rules for tame writers\<close>

lemma tame_bind [tame_intros]:
  assumes "tame m" and "\<And>x. tame (f x)"
  shows "tame (act_bind m f)"
  unfolding tame_def
proof (rule allI)
  fix buf
  obtain r buf' where m: "m buf = (r, buf')" by (cases "m buf")
  have "length buf' = length buf" "r \<noteq> Inl Panicked"
    using assms(1) m unfolding tame_def by (metis fst_conv snd_conv)+
  then show "length (snd (act_bind m f buf)) = length buf \<and> fst (act_bind m f buf) \<noteq> Inl Panicked"
    using assms(2) m unfolding tame_def by (cases r) (simp_all add: act_bind_def)
qed

lemma tame_return [tame_intros]: "tame (act_return x)"
  by (simp add: tame_def)

lemma tame_lift [tame_intros]: "r \<noteq> Inl Panicked \<Longrightarrow> tame (act_lift r)"
  by (simp add: tame_def)

lemma tame_read [tame_intros]: "(\<And>buf. f buf \<noteq> Inl Panicked) \<Longrightarrow> tame (act_read f)"
  by (simp add: tame_def)

lemma tame_try_set [tame_intros]: "tame (try_set i v)"
  by (simp add: tame_def try_set_def)

lemma tame_try_copy [tame_intros]: "length src = j - i \<Longrightarrow> tame (try_copy i j src)"
  by (auto simp: tame_def try_copy_def)

section \<open>Writes at constant ranges\<close>

text \<open>
  \<open>buf[i..i + n].copy_from_slice(src)\<close> on an array whose length the compiler knows to cover the
  constant range.
\<close>

definition copy_at :: "usize \<Rightarrow> 'a list \<Rightarrow> 'a list \<Rightarrow> 'a list" where
  "copy_at i src xs = take i xs @ src @ drop (i + length src) xs"

lemma length_copy_at [simp]: "i + length src \<le> length xs \<Longrightarrow> length (copy_at i src xs) = length xs"
  by (simp add: copy_at_def)

text \<open>Evaluation on a buffer whose first bytes are spelled out.\<close>

lemma copy_at_simps [simp]:
  "copy_at 0 src xs = src @ drop (length src) xs"
  "copy_at (Suc i) src (x # xs) = x # copy_at i src xs"
  "copy_at (numeral k) src (x # xs) = x # copy_at (pred_numeral k) src xs"
  by (simp_all add: copy_at_def numeral_eq_Suc)

end
