(* ===== verification/Checksum.thy ===== *)
theory Checksum
  imports Prelude
begin

text \<open>
  The Internet checksum of \<open>src/checksum.rs\<close>: the production implementation \<open>calculate\<close> (64-bit
  addends in a 128-bit accumulator, folded recursively) and the three implementations kept for
  benchmarks. Each is proved equal to the checksum of RFC 1071 stated over natural numbers: the
  complement of the one's-complement sum of the data's 16-bit big-endian words.
\<close>

section \<open>Specification\<close>

text \<open>The sum of the 16-bit big-endian words, an odd last byte being the high byte of its word.\<close>

fun word_sum :: "bytes \<Rightarrow> nat" where
  "word_sum [] = 0"
| "word_sum [b] = unat b * 256"
| "word_sum (a # b # r) = unat a * 256 + unat b + word_sum r"

text \<open>
  The one's-complement representative of a sum: congruent modulo 65535, zero only for the sum
  zero, and at most 65535.
\<close>

definition ones_norm :: "nat \<Rightarrow> nat" where
  "ones_norm n = (if n = 0 then 0 else (n - 1) mod 65535 + 1)"

definition internet_checksum :: "bytes \<Rightarrow> u16" where
  "internet_checksum data = of_nat (65535 - ones_norm (word_sum data))"

section \<open>The production implementation\<close>

text \<open>\<open>slice::as_chunks::<N>\<close>: the full chunks and the remainder.\<close>

function as_chunks :: "nat \<Rightarrow> 'a list \<Rightarrow> 'a list list \<times> 'a list" where
  "as_chunks n xs =
     (if n = 0 \<or> length xs < n then ([], xs)
      else (let (cs, r) = as_chunks n (drop n xs) in (take n xs # cs, r)))"
  by pat_completeness auto
termination
  by (relation "measure (\<lambda>(n, xs). length xs)") auto

declare as_chunks.simps [simp del]

definition fold_lanes :: "u128 \<Rightarrow> u128" where
  "fold_lanes y = (y AND 0xFFFF) + drop_bit 16 y"

lemma unat_and_0xFFFF: "unat (y AND 0xFFFF :: 'a::len word) = unat y mod 65536"
proof -
  have m: "(0xFFFF :: 'a word) = mask 16" by (simp add: mask_eq_exp_minus_1)
  have "unat (y AND 0xFFFF) = take_bit 16 (unat y)"
    unfolding m take_bit_eq_mask [symmetric] by (rule unsigned_take_bit_eq)
  then show ?thesis by (simp add: take_bit_eq_mod)
qed

lemma unat_fold_lanes: "unat (fold_lanes y) = unat y mod 65536 + unat y div 65536"
proof -
  have "unat y < 2 ^ 128" using unsigned_less [of y, where 'a = nat] by simp
  then have "unat y mod 65536 + unat y div 65536 < 2 ^ 128"
    by linarith
  then show ?thesis
    by (simp add: fold_lanes_def unat_plus_if' unat_and_0xFFFF unat_drop_bit_div)
qed

lemma fold_step_less: "65535 < (n :: nat) \<Longrightarrow> n mod 65536 + n div 65536 < n"
proof -
  assume "65535 < n"
  then have "1 \<le> n div 65536" by linarith
  moreover have "n = n div 65536 * 65536 + n mod 65536" by simp
  ultimately show ?thesis by linarith
qed

function fold_and_flip :: "u128 \<Rightarrow> u16" where
  "fold_and_flip x = (if x > 0xFFFF then fold_and_flip (fold_lanes x) else ucast (NOT x))"
  by pat_completeness auto
termination
proof (relation "measure unat")
  fix x :: u128
  assume "0xFFFF < x"
  then have "65535 < unat x" by (simp add: word_less_nat_alt)
  then show "(fold_lanes x, x) \<in> measure unat"
    by (simp add: unat_fold_lanes fold_step_less)
qed simp

declare fold_and_flip.simps [simp del]

definition calculate :: "bytes \<Rightarrow> u16" where
  "calculate data =
     (let (byte_groups, remainder_bytes) = as_chunks 8 data;
          padded = map (\<lambda>i. if i < length remainder_bytes then remainder_bytes ! i else 0) [0..<8];
          sum = foldl (\<lambda>acc chunk. acc + ucast (from_be_bytes chunk :: u64))
                  (ucast (from_be_bytes padded :: u64) :: u128) byte_groups
      in fold_and_flip sum)"

section \<open>The benchmark implementations\<close>

definition one_carry_fold :: "u32 \<Rightarrow> u32" where
  "one_carry_fold x = (x AND 0xFFFF) + drop_bit 16 x"

definition DEFERRED_CARRIES_MAX_BYTES :: usize where
  "DEFERRED_CARRIES_MAX_BYTES = unat (-1 :: u32) div unat (-1 :: u16) * 2"

text \<open>The closures the source passes to \<open>fold\<close> have names here.\<close>

definition always_folded_step :: "u16 \<Rightarrow> bytes \<Rightarrow> u16" where
  "always_folded_step acc byte_pair =
     (let w = from_be_bytes byte_pair;
          new_sum = acc + w;
          overflowed = (2 ^ 16 \<le> unat acc + unat w)
      in new_sum + of_bool overflowed)"

definition always_folded_cksum :: "bytes \<Rightarrow> u16" where
  "always_folded_cksum data =
     (let (byte_pairs, maybe_odd_byte) = as_chunks 2 data;
          init = (case maybe_odd_byte of [] \<Rightarrow> 0 | b # _ \<Rightarrow> from_be_bytes [b, 0])
      in NOT (foldl always_folded_step init byte_pairs))"

definition naive_wrapping_cksum :: "bytes \<Rightarrow> u16" where
  "naive_wrapping_cksum data =
     (let (byte_pairs, maybe_odd_byte) = as_chunks 2 data;
          init = (case maybe_odd_byte of [] \<Rightarrow> 0 | b # _ \<Rightarrow> from_be_bytes [0, 0, b, 0]);
          sum = foldl (\<lambda>sum byte_pair. sum + from_be_bytes (0 # 0 # byte_pair)) init byte_pairs
      in NOT (ucast (one_carry_fold (one_carry_fold sum))))"

definition WOULD_OVERFLOW :: u32 where
  "WOULD_OVERFLOW = 0xFFFFFFFF - 0xFFFF + 1"

definition range_checked_step :: "u32 \<Rightarrow> bytes \<Rightarrow> u32" where
  "range_checked_step acc byte_pair =
     (let s = acc + from_be_bytes (0 # 0 # byte_pair)
      in if s < WOULD_OVERFLOW then s else one_carry_fold s)"

definition range_checked_cksum :: "bytes \<Rightarrow> u16" where
  "range_checked_cksum data =
     (let (byte_pairs, maybe_odd_byte) = as_chunks 2 data;
          init = (case maybe_odd_byte of [] \<Rightarrow> 0 | b # _ \<Rightarrow> from_be_bytes [0, 0, b, 0]);
          sum = foldl range_checked_step init byte_pairs
      in NOT (ucast (one_carry_fold (one_carry_fold sum))))"

section \<open>One's-complement equivalence of sums\<close>

definition ones_eq :: "nat \<Rightarrow> nat \<Rightarrow> bool" where
  "ones_eq a b \<longleftrightarrow> a mod 65535 = b mod 65535 \<and> (a = 0 \<longleftrightarrow> b = 0)"

named_theorems ones \<open>rules on one's-complement equivalence\<close>

lemma ones_eq_refl [simp]: "ones_eq a a"
  by (simp add: ones_eq_def)

lemma ones_eq_sym: "ones_eq a b \<Longrightarrow> ones_eq b a"
  by (simp add: ones_eq_def)

lemma ones_eq_trans [trans]: "ones_eq a b \<Longrightarrow> ones_eq b c \<Longrightarrow> ones_eq a c"
  by (simp add: ones_eq_def)

lemma ones_eq_add [ones]: "ones_eq a b \<Longrightarrow> ones_eq c d \<Longrightarrow> ones_eq (a + c) (b + d)"
  by (auto simp: ones_eq_def intro: mod_add_cong)

lemma ones_norm_le: "ones_norm n \<le> 65535"
proof (cases n)
  case (Suc m)
  have "ones_norm n = m mod 65535 + 1" by (simp add: Suc ones_norm_def)
  moreover have "m mod 65535 < 65535" by simp
  ultimately show ?thesis by linarith
qed (simp add: ones_norm_def)

lemma ones_norm_0_iff: "ones_norm n = 0 \<longleftrightarrow> n = 0"
  by (simp add: ones_norm_def)

lemma ones_norm_id: "n \<le> 65535 \<Longrightarrow> ones_norm n = n"
  by (cases n) (simp_all add: ones_norm_def)

lemma ones_eq_norm: "ones_eq (ones_norm n) n"
proof (cases n)
  case (Suc m)
  have "(m mod 65535 + 1) mod 65535 = (m + 1) mod 65535"
    by (rule mod_add_left_eq)
  with Suc show ?thesis by (simp add: ones_eq_def ones_norm_def)
qed (simp add: ones_eq_def ones_norm_def)

lemma ones_eq_small: "ones_eq a b \<Longrightarrow> a \<le> 65535 \<Longrightarrow> b \<le> 65535 \<Longrightarrow> a = b"
proof -
  assume "ones_eq a b" "a \<le> 65535" "b \<le> 65535"
  then show "a = b"
    by (cases "a = 65535"; cases "b = 65535") (auto simp: ones_eq_def)
qed

lemma ones_norm_unique: "ones_eq r n \<Longrightarrow> r \<le> 65535 \<Longrightarrow> ones_norm n = r"
  using ones_eq_small [of "ones_norm n" r] ones_eq_norm [of n] ones_norm_le [of n]
  by (meson ones_eq_sym ones_eq_trans)

lemma ones_norm_cong: "ones_eq a b \<Longrightarrow> ones_norm a = ones_norm b"
  using ones_eq_norm [of b] ones_norm_le [of b]
  by (metis ones_eq_sym ones_eq_trans ones_norm_unique)

lemma pow_65536_mod: "65536 ^ k mod 65535 = (1 :: nat)"
proof -
  have "(65536 :: nat) ^ k mod 65535 = (65536 mod 65535) ^ k mod 65535"
    by (rule power_mod [symmetric])
  then show ?thesis by simp
qed

lemma ones_eq_shift [ones]: "ones_eq (a * 65536 ^ k) a"
proof -
  have "a * 65536 ^ k mod 65535 = a * (65536 ^ k mod 65535) mod 65535"
    by (simp only: mod_mult_right_eq)
  then show ?thesis by (simp add: ones_eq_def pow_65536_mod)
qed

text \<open>One folding step, on any width.\<close>

lemma ones_eq_fold [ones]: "ones_eq (n mod 65536 + n div 65536) n"
proof -
  have "ones_eq (n mod 65536 + n div 65536) (n mod 65536 + n div 65536 * 65536)"
    by (rule ones_eq_add) (use ones_eq_shift [of "n div 65536" 1] in \<open>auto intro: ones_eq_sym\<close>)
  then show ?thesis by simp
qed

section \<open>Sums of byte groups\<close>

lemma word_sum_append: "even (length xs) \<Longrightarrow> word_sum (xs @ ys) = word_sum xs + word_sum ys"
  by (induction xs rule: word_sum.induct) auto

lemma word_sum_0_iff: "word_sum xs = 0 \<longleftrightarrow> (\<forall>b \<in> set xs. b = 0)"
  by (induction xs rule: word_sum.induct) (auto simp: unat_eq_0)

lemma word_sum_pad: "word_sum (xs @ replicate n 0) = word_sum xs"
proof (induction xs rule: word_sum.induct)
  case 1
  show ?case by (simp add: word_sum_0_iff)
next
  case (2 b)
  show ?case by (cases n) (simp_all add: word_sum_0_iff)
qed simp

lemma ones_eq_be_val: "even (length xs) \<Longrightarrow> ones_eq (be_val xs) (word_sum xs)"
proof (induction xs rule: word_sum.induct)
  case (3 a b r)
  then obtain k where k: "length r = 2 * k" by auto
  have "(256 :: nat) ^ (2 * k) = 65536 ^ k" by (simp add: power_mult)
  then have "be_val (a # b # r) = (unat a * 256 + unat b) * 65536 ^ k + be_val r"
    by (simp add: be_val_Cons k algebra_simps)
  with 3 show ?case by (simp add: ones)
qed simp_all

lemma map_get_or_zero:
  "length xs \<le> n \<Longrightarrow>
     map (\<lambda>i. if i < length xs then xs ! i else 0) [0..<n] = xs @ replicate (n - length xs) 0"
  by (rule nth_equalityI) (auto simp: nth_append)

text \<open>The chunks and the remainder together carry the data.\<close>

lemma as_chunks_short: "length xs < n \<Longrightarrow> as_chunks n xs = ([], xs)"
  by (simp add: as_chunks.simps)

lemma as_chunks_step:
  "0 < n \<Longrightarrow> n \<le> length xs \<Longrightarrow> as_chunks n xs = (cs, r) \<Longrightarrow>
     \<exists>cs'. as_chunks n (drop n xs) = (cs', r) \<and> cs = take n xs # cs'"
  by (cases "as_chunks n (drop n xs)") (auto simp: as_chunks.simps [of n xs])

lemma as_chunks_length:
  assumes "0 < n" and "as_chunks n xs = (cs, r)"
  shows "length r < n \<and> (\<forall>c \<in> set cs. length c = n) \<and> n * length cs + length r = length xs"
  using assms
proof (induction "length xs" arbitrary: xs cs rule: less_induct)
  case less
  show ?case
  proof (cases "length xs < n")
    case True
    with less.prems show ?thesis by (simp add: as_chunks_short)
  next
    case False
    with less.prems obtain cs' where cs': "as_chunks n (drop n xs) = (cs', r)" "cs = take n xs # cs'"
      using as_chunks_step [of n xs cs r] by auto
    have "length (drop n xs) < length xs" using less.prems(1) False by simp
    from less.hyps [OF this less.prems(1) cs'(1)]
    have "length r < n" "\<forall>c \<in> set cs'. length c = n" "n * length cs' + length r = length xs - n"
      by simp_all
    with False show ?thesis by (simp add: cs'(2))
  qed
qed

lemma as_chunks_word_sum:
  assumes "0 < n" and "even n" and "as_chunks n xs = (cs, r)"
  shows "word_sum xs = (\<Sum>c \<leftarrow> cs. word_sum c) + word_sum r"
  using assms
proof (induction "length xs" arbitrary: xs cs rule: less_induct)
  case less
  show ?case
  proof (cases "length xs < n")
    case True
    with less.prems show ?thesis by (simp add: as_chunks_short)
  next
    case False
    with less.prems obtain cs' where cs': "as_chunks n (drop n xs) = (cs', r)" "cs = take n xs # cs'"
      using as_chunks_step [of n xs cs r] by auto
    have "length (drop n xs) < length xs" using less.prems(1) False by simp
    then have "word_sum (drop n xs) = (\<Sum>c \<leftarrow> cs'. word_sum c) + word_sum r"
      using less.prems(1,2) cs'(1) by (rule less.hyps)
    moreover have "word_sum xs = word_sum (take n xs) + word_sum (drop n xs)"
      using word_sum_append [of "take n xs" "drop n xs"] less.prems(2) False by simp
    ultimately show ?thesis by (simp add: cs'(2))
  qed
qed

section \<open>Folding\<close>

lemma unat_not_u16: "unat (NOT (w :: u16)) = 65535 - unat w"
proof -
  have "NOT w = - 1 - w" by (simp add: not_eq_complement)
  moreover have "unat (- 1 :: u16) = 65535"
    by (simp add: unsigned_minus_1_eq_mask mask_eq_exp_minus_1)
  ultimately show ?thesis using unat_u16_less [of w] by (simp add: unat_sub_if')
qed

lemma unat_fold_and_flip: "unat (fold_and_flip x) = 65535 - ones_norm (unat x)"
proof (induction x rule: fold_and_flip.induct)
  case (1 x)
  show ?case
  proof (cases "0xFFFF < x")
    case True
    with 1 have "unat (fold_and_flip x) = 65535 - ones_norm (unat (fold_lanes x))"
      by (simp add: fold_and_flip.simps [of x])
    also have "ones_norm (unat (fold_lanes x)) = ones_norm (unat x)"
      by (rule ones_norm_cong) (simp add: unat_fold_lanes ones)
    finally show ?thesis .
  next
    case False
    then have le: "unat x \<le> 65535" by (simp add: word_less_nat_alt)
    have "ucast (NOT x) = NOT (ucast x :: u16)"
      by (rule bit_word_eqI) (simp add: bit_simps)
    moreover have "unat (ucast x :: u16) = unat x"
      using le by (simp add: unsigned_ucast_eq take_bit_nat_eq_self)
    ultimately show ?thesis
      using False le by (simp add: fold_and_flip.simps [of x] unat_not_u16 ones_norm_id)
  qed
qed

section \<open>Correctness of the production implementation\<close>

lemma be_val_chunk: "length c = 8 \<Longrightarrow> be_val c < 2 ^ 64"
  using be_val_less [of c] by simp

lemma unat_u128_chunk:
  "length c = 8 \<Longrightarrow> unat (ucast (from_be_bytes c :: u64) :: u128) = be_val c"
  using be_val_chunk [of c]
  by (simp add: unsigned_ucast_eq unat_from_be_bytes take_bit_nat_eq_self)

lemma foldl_chunks:
  assumes "\<forall>c \<in> set cs. length c = 8"
    and "unat acc + length cs * 2 ^ 64 < 2 ^ 128"
  shows "unat (foldl (\<lambda>acc c. acc + ucast (from_be_bytes c :: u64)) (acc :: u128) cs)
    = unat acc + (\<Sum>c \<leftarrow> cs. be_val c)"
  using assms
proof (induction cs arbitrary: acc)
  case (Cons c cs)
  let ?acc = "acc + ucast (from_be_bytes c :: u64)"
  have lt: "be_val c < 2 ^ 64" using be_val_chunk [of c] Cons.prems(1) by simp
  with Cons.prems have acc: "unat ?acc = unat acc + be_val c"
    by (simp add: unat_plus_if' unat_u128_chunk)
  with Cons.prems lt have "unat ?acc + length cs * 2 ^ 64 < 2 ^ 128" by simp
  with Cons acc show ?case by simp
qed simp

lemma ones_eq_sum_chunks:
  "\<forall>c \<in> set cs. even (length c) \<Longrightarrow>
     ones_eq (\<Sum>c \<leftarrow> cs. be_val c) (\<Sum>c \<leftarrow> cs. word_sum c)"
  by (induction cs) (auto intro!: ones_eq_add ones_eq_be_val)

lemma unat_calculate:
  assumes "length data < 2 ^ 63"
  shows "unat (calculate data) = 65535 - ones_norm (word_sum data)"
proof -
  obtain cs r where c: "as_chunks 8 data = (cs, r)" by force
  note len = as_chunks_length [OF _ c, simplified]
  let ?pad = "r @ replicate (8 - length r) 0"
  let ?sum = "foldl (\<lambda>acc chunk. acc + ucast (from_be_bytes chunk :: u64))
    (ucast (from_be_bytes ?pad :: u64) :: u128) cs"
  have init: "unat (ucast (from_be_bytes ?pad :: u64) :: u128) = be_val ?pad"
    by (rule unat_u128_chunk) (use len in simp)
  have "be_val ?pad + length cs * 2 ^ 64 < 2 ^ 128"
    using be_val_chunk [of ?pad] len assms by simp
  then have sum: "unat ?sum = be_val ?pad + (\<Sum>c \<leftarrow> cs. be_val c)"
    using foldl_chunks [of cs "ucast (from_be_bytes ?pad :: u64)"] len init by simp
  have "ones_eq (be_val ?pad + (\<Sum>c \<leftarrow> cs. be_val c)) (word_sum ?pad + (\<Sum>c \<leftarrow> cs. word_sum c))"
    using len by (intro ones_eq_add ones_eq_be_val ones_eq_sum_chunks) auto
  then have "ones_eq (unat ?sum) (word_sum data)"
    using as_chunks_word_sum [OF _ _ c] by (simp add: sum word_sum_pad add.commute)
  then have "ones_norm (unat ?sum) = ones_norm (word_sum data)" by (rule ones_norm_cong)
  moreover have "calculate data = fold_and_flip ?sum"
    using len by (simp add: calculate_def c map_get_or_zero less_imp_le)
  ultimately show ?thesis by (simp add: unat_fold_and_flip)
qed

lemma internet_checksum_unique:
  "unat c = 65535 - ones_norm (word_sum data) \<Longrightarrow> c = internet_checksum data"
  unfolding internet_checksum_def by (metis of_nat_unat ucast_id)

section \<open>Accumulators that fold 16-bit words\<close>

text \<open>
  What a step of a 16-bit-word accumulator promises: it keeps its range and adds the word up to
  one's-complement equivalence. From this alone the accumulated value is equivalent to the sum of
  the whole data. The overflow-folding step and the range-checked step both provide it.
\<close>

locale ones_accumulator =
  fixes step :: "'w::len word \<Rightarrow> bytes \<Rightarrow> 'w word"
    and inv :: "'w word \<Rightarrow> bool"
  assumes step_inv: "inv acc \<Longrightarrow> length pair = 2 \<Longrightarrow> inv (step acc pair)"
    and step_sum: "inv acc \<Longrightarrow> length pair = 2 \<Longrightarrow>
      ones_eq (unat (step acc pair)) (unat acc + word_sum pair)"
begin

lemma foldl_inv: "inv acc \<Longrightarrow> \<forall>c \<in> set cs. length c = 2 \<Longrightarrow> inv (foldl step acc cs)"
  by (induction cs arbitrary: acc) (auto simp: step_inv)

lemma foldl_sum:
  "inv acc \<Longrightarrow> \<forall>c \<in> set cs. length c = 2 \<Longrightarrow>
     ones_eq (unat (foldl step acc cs)) (unat acc + (\<Sum>c \<leftarrow> cs. word_sum c))"
proof (induction cs arbitrary: acc)
  case (Cons c cs)
  then have "ones_eq (unat (foldl step acc (c # cs)))
      (unat (step acc c) + (\<Sum>c \<leftarrow> cs. word_sum c))"
    by (simp add: step_inv)
  also have "ones_eq \<dots> (unat acc + word_sum c + (\<Sum>c \<leftarrow> cs. word_sum c))"
    using Cons.prems by (intro ones_eq_add step_sum) auto
  finally show ?case by (simp add: add.assoc)
qed simp

lemma accumulates_data:
  assumes "as_chunks 2 data = (cs, r)" and "inv init" and "unat init = word_sum r"
  shows "inv (foldl step init cs) \<and> ones_eq (unat (foldl step init cs)) (word_sum data)"
proof -
  have "\<forall>c \<in> set cs. length c = 2" using as_chunks_length [OF _ assms(1)] by simp
  then show ?thesis
    using foldl_inv [of init cs] foldl_sum [of init cs] as_chunks_word_sum [OF _ _ assms(1)] assms
    by (simp add: add.commute)
qed

end

lemma pair_val: "length c = 2 \<Longrightarrow> be_val c = word_sum c \<and> be_val c \<le> 65535"
  using be_val_less [of c] by (cases c rule: word_sum.cases) (auto simp: be_val_Cons)

lemma unat_pair_u16: "length c = 2 \<Longrightarrow> unat (from_be_bytes c :: u16) = word_sum c"
  by (simp add: unat_from_be_bytes pair_val)

lemma unat_pair_u32: "length c = 2 \<Longrightarrow> unat (from_be_bytes (0 # 0 # c) :: u32) = word_sum c"
  by (simp add: unat_from_be_bytes pair_val be_val_Cons)

lemma one_byte_val:
  "length r < 2 \<Longrightarrow>
     unat ((case r of [] \<Rightarrow> 0 | b # _ \<Rightarrow> from_be_bytes [b, 0]) :: u16) = word_sum r \<and>
     unat ((case r of [] \<Rightarrow> 0 | b # _ \<Rightarrow> from_be_bytes [0, 0, b, 0]) :: u32) = word_sum r"
  by (cases r rule: word_sum.cases) (auto simp: unat_from_be_bytes be_val_Cons)

lemma word_sum_odd_le: "length r < 2 \<Longrightarrow> word_sum r \<le> 65280"
proof (cases r rule: word_sum.cases)
  case (2 b)
  then show ?thesis using unat_u8_less [of b] by simp
qed auto

interpretation always_folded: ones_accumulator always_folded_step "\<lambda>_. True"
proof unfold_locales
  fix acc :: u16 and pair :: bytes
  assume p: "length pair = 2"
  let ?w = "from_be_bytes pair :: u16"
  have b: "unat acc \<le> 65535" "unat ?w \<le> 65535"
    using unat_u16_less [of acc] unat_u16_less [of ?w] by linarith+
  show "ones_eq (unat (always_folded_step acc pair)) (unat acc + word_sum pair)"
  proof (cases "2 ^ 16 \<le> unat acc + unat ?w")
    case True
    then have "unat (acc + ?w) = unat acc + unat ?w - 65536" by (simp add: unat_plus_if')
    with True b have "unat (always_folded_step acc pair) = unat acc + unat ?w - 65535"
      by (simp add: always_folded_step_def Let_def unat_plus_if') linarith
    moreover have "ones_eq (unat acc + unat ?w - 65535) (unat acc + unat ?w)"
      using True by (simp add: ones_eq_def le_mod_geq) arith
    ultimately show ?thesis by (simp add: unat_pair_u16 p)
  next
    case False
    then show ?thesis
      by (simp add: always_folded_step_def Let_def unat_plus_if' unat_pair_u16 p)
  qed
qed simp

lemma unat_one_carry_fold: "unat (one_carry_fold x) = unat x mod 65536 + unat x div 65536"
proof -
  have "unat x mod 65536 + unat x div 65536 < 2 ^ 32"
    using unat_u32_less [of x] by simp
  then show ?thesis
    by (simp add: one_carry_fold_def unat_plus_if' unat_and_0xFFFF unat_drop_bit_div)
qed

interpretation range_checked: ones_accumulator range_checked_step "\<lambda>acc. acc < WOULD_OVERFLOW"
proof unfold_locales
  fix acc :: u32 and pair :: bytes
  assume p: "length pair = 2" and acc: "acc < WOULD_OVERFLOW"
  let ?s = "acc + from_be_bytes (0 # 0 # pair)"
  have acc': "unat acc < 4294901761" using acc by (simp add: WOULD_OVERFLOW_def word_less_nat_alt)
  then have s: "unat ?s = unat acc + word_sum pair"
    using p pair_val [OF p] by (simp add: unat_plus_if' unat_pair_u32)
  show "ones_eq (unat (range_checked_step acc pair)) (unat acc + word_sum pair)"
    by (simp add: range_checked_step_def Let_def s unat_one_carry_fold ones)
  have "unat ?s mod 65536 + unat ?s div 65536 < 4294901761"
    using unat_u32_less [of ?s] by linarith
  then show "range_checked_step acc pair < WOULD_OVERFLOW"
    by (simp add: range_checked_step_def Let_def)
       (simp add: WOULD_OVERFLOW_def word_less_nat_alt unat_one_carry_fold)
qed

lemma fold_step_bound:
  "(n :: nat) \<le> 2 ^ (16 * Suc k) + 65534 \<Longrightarrow> n mod 65536 + n div 65536 \<le> 2 ^ (16 * k) + 65534"
proof -
  let ?p = "2 ^ (16 * k) :: nat"
  assume n: "n \<le> 2 ^ (16 * Suc k) + 65534"
  have p: "2 ^ (16 * Suc k) = ?p * (65536 :: nat)" by (simp add: power_add)
  have "n div 65536 \<le> (?p * 65536 + 65534) div 65536" using n p by (simp add: div_le_mono)
  then have q: "n div 65536 \<le> ?p" by simp
  have "n = n div 65536 * 65536 + n mod 65536" by simp
  moreover have "n mod 65536 < 65536" by simp
  ultimately show ?thesis using q n p by (cases "n div 65536 = ?p") auto
qed

text \<open>Two folds bring a 32-bit accumulator into 16 bits.\<close>

lemma two_carry_folds:
  "unat (NOT (ucast (one_carry_fold (one_carry_fold x))) :: u16) = 65535 - ones_norm (unat x)"
proof -
  define y where "y = one_carry_fold x"
  define z where "z = one_carry_fold y"
  have uy: "unat y = unat x mod 65536 + unat x div 65536"
    unfolding y_def by (rule unat_one_carry_fold)
  have uz: "unat z = unat y mod 65536 + unat y div 65536"
    unfolding z_def by (rule unat_one_carry_fold)
  have "unat y \<le> 2 ^ (16 * Suc 0) + 65534"
    using unat_u32_less [of x] uy by simp
  from fold_step_bound [OF this] have z: "unat z \<le> 65535" by (simp add: uz)
  have "ones_eq (unat z) (unat x)"
    using ones_eq_fold [of "unat y"] ones_eq_fold [of "unat x"] uy uz
    by (metis ones_eq_trans)
  from ones_norm_unique [OF this z] have "ones_norm (unat x) = unat z" .
  moreover have "unat (ucast z :: u16) = unat z"
    using z by (simp add: unsigned_ucast_eq take_bit_nat_eq_self)
  ultimately show ?thesis by (simp add: unat_not_u16 flip: y_def z_def)
qed

lemma unat_always_folded_cksum:
  "unat (always_folded_cksum data) = 65535 - ones_norm (word_sum data)"
proof -
  obtain cs r where c: "as_chunks 2 data = (cs, r)" by force
  let ?init = "(case r of [] \<Rightarrow> 0 | b # _ \<Rightarrow> from_be_bytes [b, 0]) :: u16"
  let ?acc = "foldl always_folded_step ?init cs"
  have "unat ?init = word_sum r" using as_chunks_length [OF _ c] one_byte_val [of r] by simp
  with always_folded.accumulates_data [OF c] have "ones_eq (unat ?acc) (word_sum data)" by simp
  moreover have "unat ?acc \<le> 65535" using unat_u16_less [of ?acc] by simp
  ultimately have "ones_norm (word_sum data) = unat ?acc" by (rule ones_norm_unique)
  then show ?thesis by (simp add: always_folded_cksum_def c unat_not_u16)
qed

lemma unat_range_checked_cksum:
  "unat (range_checked_cksum data) = 65535 - ones_norm (word_sum data)"
proof -
  obtain cs r where c: "as_chunks 2 data = (cs, r)" by force
  let ?init = "(case r of [] \<Rightarrow> 0 | b # _ \<Rightarrow> from_be_bytes [0, 0, b, 0]) :: u32"
  have r: "length r < 2" using as_chunks_length [OF _ c] by simp
  then have i: "unat ?init = word_sum r" using one_byte_val [of r] by simp
  then have "?init < WOULD_OVERFLOW"
    using word_sum_odd_le [OF r] by (simp add: WOULD_OVERFLOW_def word_less_nat_alt)
  with i range_checked.accumulates_data [OF c]
  have "ones_eq (unat (foldl range_checked_step ?init cs)) (word_sum data)" by simp
  then show ?thesis
    by (simp add: range_checked_cksum_def c two_carry_folds ones_norm_cong)
qed

lemma word_sum_le: "word_sum xs \<le> (length xs + 1) div 2 * 65535"
proof (induction xs rule: word_sum.induct)
  case (2 b)
  show ?case using unat_u8_less [of b] by simp
next
  case (3 a b r)
  then show ?case using unat_u8_less [of a] unat_u8_less [of b] by simp
qed simp

lemma foldl_wrapping_pairs:
  assumes "\<forall>c \<in> set cs. length c = 2"
    and "unat acc + (\<Sum>c \<leftarrow> cs. word_sum c) < 2 ^ 32"
  shows "unat (foldl (\<lambda>s p. s + from_be_bytes (0 # 0 # p)) (acc :: u32) cs)
    = unat acc + (\<Sum>c \<leftarrow> cs. word_sum c)"
  using assms
proof (induction cs arbitrary: acc)
  case (Cons c cs)
  then have "unat (acc + from_be_bytes (0 # 0 # c)) = unat acc + word_sum c"
    by (simp add: unat_plus_if' unat_pair_u32)
  with Cons show ?case by simp
qed simp

lemma unat_naive_wrapping_cksum:
  assumes "length data \<le> DEFERRED_CARRIES_MAX_BYTES"
  shows "unat (naive_wrapping_cksum data) = 65535 - ones_norm (word_sum data)"
proof -
  obtain cs r where c: "as_chunks 2 data = (cs, r)" by force
  let ?init = "(case r of [] \<Rightarrow> 0 | b # _ \<Rightarrow> from_be_bytes [0, 0, b, 0]) :: u32"
  note len = as_chunks_length [OF _ c, simplified]
  have i: "unat ?init = word_sum r" using len one_byte_val [of r] by simp
  have sum: "word_sum data = word_sum r + (\<Sum>c \<leftarrow> cs. word_sum c)"
    using as_chunks_word_sum [OF _ _ c] by simp
  have "DEFERRED_CARRIES_MAX_BYTES = 131074"
    by (simp add: DEFERRED_CARRIES_MAX_BYTES_def unsigned_minus_1_eq_mask mask_eq_exp_minus_1)
  with assms have "(length data + 1) div 2 \<le> 65537" by simp
  then have "(length data + 1) div 2 * 65535 \<le> 65537 * 65535" by (rule mult_le_mono1)
  with word_sum_le [of data] have "word_sum data < 2 ^ 32" by simp
  then show ?thesis
    using len foldl_wrapping_pairs [of cs ?init] i sum
    by (simp add: naive_wrapping_cksum_def c two_carry_folds)
qed

section \<open>Recursion depth\<close>

lemma unat_fold_lanes_iterate:
  "k \<le> 8 \<Longrightarrow> unat ((fold_lanes ^^ k) x) \<le> 2 ^ (16 * (8 - k)) + 65534"
proof (induction k)
  case 0
  show ?case using unsigned_less [of x, where 'a = nat] by simp
next
  case (Suc k)
  then have "8 - k = Suc (8 - Suc k)" by simp
  with Suc have "unat ((fold_lanes ^^ k) x) \<le> 2 ^ (16 * Suc (8 - Suc k)) + 65534"
    by (metis Suc_leD)
  from fold_step_bound [OF this] show ?case by (simp add: unat_fold_lanes)
qed

text \<open>The recursion of \<open>fold_and_flip\<close>, unfolded, and the chains of its calls.\<close>

lemma fold_and_flip_unfold:
  "(\<forall>j<k. 0xFFFF < (fold_lanes ^^ j) x) \<Longrightarrow> fold_and_flip x = fold_and_flip ((fold_lanes ^^ k) x)"
  by (induction k) (simp_all add: fold_and_flip.simps [of "(fold_lanes ^^ _) x"])

lemma fold_and_flip_calls:
  "(fold_and_flip_rel ^^ k) y x \<Longrightarrow> \<forall>j<k. 0xFFFF < (fold_lanes ^^ j) x"
proof (induction k arbitrary: x)
  case (Suc k)
  then obtain z where z: "(fold_and_flip_rel ^^ k) y z" "fold_and_flip_rel z x" by auto
  from z(2) have "0xFFFF < x" "z = fold_lanes x" by (auto simp: fold_and_flip_rel.simps)
  with Suc.IH [OF z(1)] show ?case by (auto simp: less_Suc_eq_0_disj funpow_swap1)
qed simp

section \<open>Zero checksums and corrupted bytes\<close>

lemma ones_norm_max_iff: "ones_norm n = 65535 \<longleftrightarrow> 0 < n \<and> n mod 65535 = 0"
proof
  assume "ones_norm n = 65535"
  then show "0 < n \<and> n mod 65535 = 0" using ones_eq_norm [of n] by (auto simp: ones_eq_def)
next
  assume "0 < n \<and> n mod 65535 = 0"
  then have "ones_eq 65535 n" by (auto simp: ones_eq_def)
  then show "ones_norm n = 65535" by (rule ones_norm_unique) simp
qed

lemma calculate_0_iff:
  "length data < 2 ^ 63 \<Longrightarrow>
     calculate data = 0 \<longleftrightarrow> 0 < word_sum data \<and> word_sum data mod 65535 = 0"
proof -
  assume "length data < 2 ^ 63"
  then have "calculate data = 0 \<longleftrightarrow> ones_norm (word_sum data) = 65535"
    using ones_norm_le [of "word_sum data"]
    by (simp only: word_unat_eq_iff unat_calculate) auto
  then show ?thesis by (simp add: ones_norm_max_iff)
qed

lemma word_sum_field:
  assumes "even (length pre)"
  shows "word_sum (pre @ u16_to_be_bytes w @ post) = word_sum (pre @ [0, 0] @ post) + unat w"
proof -
  obtain a b where ab: "u16_to_be_bytes w = [a, b]" by (simp add: u16_to_be_bytes_def)
  then have "unat a * 256 + unat b = unat w"
    using be_val_u16_to_be_bytes [of w] by (simp add: be_val_Cons)
  with ab assms show ?thesis by (simp add: word_sum_append)
qed

text \<open>Writing the checksum into the zeroed field makes the whole sum verify.\<close>

lemma calculate_with_checksum:
  assumes "even (length pre)" and "length pre + 2 + length post < 2 ^ 63"
  shows "calculate (pre @ u16_to_be_bytes (calculate (pre @ [0, 0] @ post)) @ post) = 0"
proof -
  let ?S = "word_sum (pre @ [0, 0] @ post)"
  let ?c = "calculate (pre @ [0, 0] @ post)"
  have c: "unat ?c = 65535 - ones_norm ?S" using assms(2) by (simp add: unat_calculate)
  have "(?S + (65535 - ones_norm ?S)) mod 65535 = 0"
  proof -
    obtain m where m: "65535 = ones_norm ?S + m"
      using ones_norm_le [of ?S] le_Suc_ex by blast
    have "(?S + m) mod 65535 = (ones_norm ?S + m) mod 65535"
      using ones_eq_norm [of ?S] by (intro mod_add_cong) (simp_all add: ones_eq_def)
    also have "\<dots> = 0" unfolding m [symmetric] by simp
    finally have "(?S + m) mod 65535 = 0" .
    moreover have "65535 - ones_norm ?S = m" using m by linarith
    ultimately show ?thesis by simp
  qed
  moreover have "0 < ?S + (65535 - ones_norm ?S)"
    by (cases "?S = 0") (simp_all add: ones_norm_def)
  ultimately show ?thesis
    using assms by (subst calculate_0_iff) (simp_all only: word_sum_field c, simp_all)
qed

text \<open>All ones in the field are as good as the zero they replace.\<close>

lemma calculate_with_all_ones:
  assumes "even (length pre)" and "length pre + 2 + length post < 2 ^ 63"
    and "calculate (pre @ [0, 0] @ post) = 0"
  shows "calculate (pre @ u16_to_be_bytes 0xFFFF @ post) = 0"
proof -
  have "0 < word_sum (pre @ [0, 0] @ post) \<and> word_sum (pre @ [0, 0] @ post) mod 65535 = 0"
    using assms(2,3) by (subst (asm) calculate_0_iff) simp_all
  then have "0 < word_sum (pre @ u16_to_be_bytes 0xFFFF @ post) \<and>
      word_sum (pre @ u16_to_be_bytes 0xFFFF @ post) mod 65535 = 0"
    by (simp only: word_sum_field [OF assms(1)]) simp
  then show ?thesis
    using assms(2) by (subst calculate_0_iff) simp_all
qed

lemma word_sum_update:
  "i < length xs \<Longrightarrow>
     word_sum (xs[i := b]) + unat (xs ! i) * (if even i then 256 else 1)
       = word_sum xs + unat b * (if even i then 256 else 1)"
proof (induction xs arbitrary: i rule: word_sum.induct)
  case (3 a c r)
  show ?case
  proof (cases i)
    case (Suc j)
    then show ?thesis using 3 by (cases j) auto
  qed simp
qed auto

section \<open>Properties\<close>

text \<open>
  C10. The production checksum computes the Internet checksum of RFC 1071 for every byte string a
  Rust slice can hold (at most \<open>isize::MAX\<close> bytes): its 128-bit accumulator never overflows, and
  deferring the carries across the 16-bit lanes changes nothing.
\<close>

theorem calculate_correct:
  assumes "length data < 2 ^ 63"
  shows "calculate data = internet_checksum data"
  using assms by (intro internet_checksum_unique unat_calculate)

theorem calculate_correct_witness:
  "length [0x12, 0x34, 0x56, 0x78, 0xAB :: u8] < 2 ^ 63 \<and>
   calculate [0x12, 0x34, 0x56, 0x78, 0xAB] = internet_checksum [0x12, 0x34, 0x56, 0x78, 0xAB] \<and>
   internet_checksum [0x12, 0x34, 0x56, 0x78, 0xAB] = 0xEC52"
  using calculate_correct [of "[0x12, 0x34, 0x56, 0x78, 0xAB]"]
  by (simp add: internet_checksum_def ones_norm_def)

text \<open>
  C35. The three benchmark implementations agree with the Internet checksum too: the always-folded
  and the range-checked one on every input, the naive wrapping one up to
  \<open>DEFERRED_CARRIES_MAX_BYTES\<close> bytes.
\<close>

theorem benchmark_checksums_correct:
  "always_folded_cksum data = internet_checksum data \<and>
   range_checked_cksum data = internet_checksum data \<and>
   (length data \<le> DEFERRED_CARRIES_MAX_BYTES \<longrightarrow>
      naive_wrapping_cksum data = internet_checksum data)"
  by (simp add: internet_checksum_unique unat_always_folded_cksum unat_range_checked_cksum
      unat_naive_wrapping_cksum)

theorem benchmark_checksums_correct_witness:
  "length [0xFF, 0xFF, 0xFF :: u8] \<le> DEFERRED_CARRIES_MAX_BYTES \<and>
   naive_wrapping_cksum [0xFF, 0xFF, 0xFF] = internet_checksum [0xFF, 0xFF, 0xFF] \<and>
   internet_checksum [0xFF, 0xFF, 0xFF] = 0xFF"
  using benchmark_checksums_correct [of "[0xFF, 0xFF, 0xFF]"]
  by (simp add: internet_checksum_def ones_norm_def DEFERRED_CARRIES_MAX_BYTES_def
      unsigned_minus_1_eq_mask mask_eq_exp_minus_1)

text \<open>
  C36. The recursion of \<open>fold_and_flip\<close> ends after at most eight recursive calls, whatever the 128-bit
  accumulator: no chain of calls is longer (\<open>fold_and_flip_rel\<close> relates the argument of a recursive call to
  the argument it was made for). It folds exactly until the value fits 16 bits, and returns the complement.
\<close>

theorem fold_and_flip_depth:
  "(\<forall>k y. (fold_and_flip_rel ^^ k) y x \<longrightarrow> k \<le> 8) \<and>
   (\<exists>k\<le>8. (\<forall>j<k. 0xFFFF < (fold_lanes ^^ j) x) \<and> (fold_lanes ^^ k) x \<le> 0xFFFF \<and>
      fold_and_flip x = ucast (NOT ((fold_lanes ^^ k) x)))"
proof
  let ?done = "\<lambda>k. (fold_lanes ^^ k) x \<le> 0xFFFF"
  have "?done 8" using unat_fold_lanes_iterate [of 8 x] by (simp add: word_le_nat_alt)
  then show "\<forall>k y. (fold_and_flip_rel ^^ k) y x \<longrightarrow> k \<le> 8"
    using fold_and_flip_calls by (metis not_le)
  from \<open>?done 8\<close> obtain k where k: "k \<le> 8" "?done k" "\<forall>j<k. \<not> ?done j"
    using ex_least_nat_le [of ?done 8] by blast
  then have "fold_and_flip x = fold_and_flip ((fold_lanes ^^ k) x)"
    by (intro fold_and_flip_unfold) (simp add: not_le)
  also have "\<dots> = ucast (NOT ((fold_lanes ^^ k) x))" using k(2) fold_and_flip.simps [of "(fold_lanes ^^ k) x"] by (simp add: not_less [symmetric])
  finally show "\<exists>k\<le>8. (\<forall>j<k. 0xFFFF < (fold_lanes ^^ j) x) \<and> (fold_lanes ^^ k) x \<le> 0xFFFF \<and>
      fold_and_flip x = ucast (NOT ((fold_lanes ^^ k) x))" using k by (auto simp: not_le)
qed

text \<open>An accumulator that takes two folds: the first leaves a carry.\<close>

theorem fold_and_flip_depth_witness:
  "(fold_and_flip_rel ^^ 2) 1 0x1FFFF \<and> 2 \<le> (8 :: nat) \<and> fold_and_flip 0x1FFFF = 0xFFFE"
proof -
  have f: "fold_lanes 0x1FFFF = 0x10000" "fold_lanes 0x10000 = 1" by (simp_all add: fold_lanes_def)
  then have "fold_and_flip_rel 0x10000 0x1FFFF" "fold_and_flip_rel 1 0x10000"
    by (simp_all add: fold_and_flip_rel.simps)
  then have "(fold_and_flip_rel ^^ Suc (Suc 0)) 1 0x1FFFF" by auto
  then have rel: "(fold_and_flip_rel ^^ 2) 1 0x1FFFF" unfolding numeral_2_eq_2 .
  have pow: "(fold_lanes ^^ 0) 0x1FFFF = 0x1FFFF" "(fold_lanes ^^ 1) 0x1FFFF = 0x10000" "(fold_lanes ^^ 2) 0x1FFFF = 1"
    using f by (simp_all add: numeral_2_eq_2)
  from fold_and_flip_depth [of "0x1FFFF"] obtain k where k: "\<forall>j<k. 0xFFFF < (fold_lanes ^^ j) 0x1FFFF"
      "(fold_lanes ^^ k) 0x1FFFF \<le> 0xFFFF" "fold_and_flip 0x1FFFF = ucast (NOT ((fold_lanes ^^ k) 0x1FFFF))"
    and le: "2 \<le> (8 :: nat)" using rel by blast
  have "\<not> 2 < k" using k(1) pow(3) by force
  moreover have "\<not> (fold_lanes ^^ 0) 0x1FFFF \<le> 0xFFFF" "\<not> (fold_lanes ^^ 1) 0x1FFFF \<le> 0xFFFF"
    unfolding pow by simp_all
  then have "k \<noteq> 0" "k \<noteq> 1" using k(2) by metis+
  ultimately have "k = 2" by linarith
  with k(3) pow(3) rel le show ?thesis by simp
qed

text \<open>
  A receiver detects the corruption of any single byte: if the checksum over the data verifies
  (is zero) and one byte is replaced by a different one, it no longer verifies.
\<close>

lemma single_byte_corruption_detected:
  assumes "length data < 2 ^ 63" and "calculate data = 0"
    and "i < length data" and "b \<noteq> data ! i"
  shows "calculate (data[i := b]) \<noteq> 0"
proof
  assume "calculate (data[i := b]) = 0"
  then have "word_sum (data[i := b]) mod 65535 = 0" "word_sum data mod 65535 = 0"
    using assms calculate_0_iff [of data] calculate_0_iff [of "data[i := b]"] by simp_all
  then obtain m n where mn: "word_sum (data[i := b]) = 65535 * m" "word_sum data = 65535 * n"
    by (auto simp: mod_eq_0_iff_dvd elim!: dvdE)
  let ?w = "if even i then 256 else 1 :: nat"
  have eq: "65535 * m + unat (data ! i) * ?w = 65535 * n + unat b * ?w"
    using word_sum_update [OF assms(3), of b] mn by simp
  have ne: "unat b \<noteq> unat (data ! i)" using assms(4) by (simp add: word_unat_eq_iff)
  have "unat b * ?w < 65535" "unat (data ! i) * ?w < 65535"
    using unat_u8_less [of b] unat_u8_less [of "data ! i"] by (auto split: if_splits)
  then have "(65535 * m + unat (data ! i) * ?w) mod 65535 = unat (data ! i) * ?w"
      and "(65535 * n + unat b * ?w) mod 65535 = unat b * ?w"
    by (simp_all only: mod_mult_self4 mod_less)
  with eq have "unat (data ! i) * ?w = unat b * ?w" by (simp only:)
  with ne show False by (simp split: if_splits)
qed

lemma single_byte_corruption_detected_example:
  "calculate [0xFF, 0xFF] = 0 \<and> calculate ([0xFF, 0xFF][1 := 0xFE]) \<noteq> 0"
proof -
  have c: "calculate [0xFF, 0xFF] = 0" by (subst calculate_0_iff) simp_all
  then show ?thesis
    using single_byte_corruption_detected [of "[0xFF, 0xFF]" 1 "0xFE"] by simp
qed

end
