(* ===== verification/Protocol.thy ===== *)
theory Protocol
  imports Addr Try_Ops Checksum
begin

text \<open>
  The protocol numbers and the TCP/UDP pseudo-header checksum of \<open>src/protocol.rs\<close>, with the
  crate's \<open>ETHERNET_MTU\<close> (\<open>src/lib.rs\<close>).
\<close>

definition ETHERNET_MTU :: usize where
  "ETHERNET_MTU = 1500"

datatype protocol = Icmp | Tcp | Udp

definition protocol_try_from :: "u8 \<Rightarrow> protocol result" where
  "protocol_try_from value =
     (if value = 1 then Inr Icmp
      else if value = 6 then Inr Tcp
      else if value = 17 then Inr Udp
      else Inl (UnsupportedProtocol value))"

fun protocol_to_u8 :: "protocol \<Rightarrow> u8" where
  "protocol_to_u8 Icmp = 1"
| "protocol_to_u8 Tcp = 6"
| "protocol_to_u8 Udp = 17"

lemma protocol_try_from_to_u8 [simp]: "protocol_try_from (protocol_to_u8 p) = Inr p"
  by (cases p) (simp_all add: protocol_try_from_def)

lemma protocol_try_from_Inr: "protocol_try_from b = Inr p \<longleftrightarrow> b = protocol_to_u8 p"
  by (cases p) (auto simp: protocol_try_from_def split: if_splits)

definition PSEUDO_HDR_LEN :: usize where
  "PSEUDO_HDR_LEN = 12"

definition pseudo_hdr_cksum :: "bytes \<Rightarrow> 's ipv4_addr_pair \<Rightarrow> protocol \<Rightarrow> u16 result" where
  "pseudo_hdr_cksum data ip_pair protocol =
     result_bind (u16_try_from (length data)) (\<lambda>proto_len.
       let cksum_len = PSEUDO_HDR_LEN + unat proto_len;
           cksum_data = replicate (PSEUDO_HDR_LEN + ETHERNET_MTU) 0;
           cksum_data = copy_at 0 (octets (ip_src ip_pair)) cksum_data;
           cksum_data = copy_at 4 (octets (ip_dst ip_pair)) cksum_data;
           cksum_data = cksum_data[9 := protocol_to_u8 protocol];
           cksum_data = copy_at 10 (u16_to_be_bytes proto_len) cksum_data
       in case try_copy PSEUDO_HDR_LEN cksum_len data cksum_data of
            (Inl e, _) \<Rightarrow> Inl e
          | (Inr _, cksum_data) \<Rightarrow>
              result_map calculate (try_get_range cksum_data 0 cksum_len))"

section \<open>What the pseudo-header checksum covers\<close>

definition pseudo_header :: "'s ipv4_addr_pair \<Rightarrow> protocol \<Rightarrow> nat \<Rightarrow> bytes" where
  "pseudo_header ip_pair p n =
     octets (ip_src ip_pair) @ octets (ip_dst ip_pair) @ [0, protocol_to_u8 p]
       @ u16_to_be_bytes (of_nat n)"

lemma length_pseudo_header [simp]: "length (pseudo_header ip_pair p n) = 12"
  by (simp add: pseudo_header_def)

lemma pseudo_header_relabel [simp]: "pseudo_header (ip_relabel ip_pair) p n = pseudo_header ip_pair p n"
  by (simp add: pseudo_header_def)

lemma pseudo_header_writes:
  "copy_at 10 (u16_to_be_bytes (of_nat n))
     ((copy_at 4 (octets (ip_dst ip_pair)) (copy_at 0 (octets (ip_src ip_pair))
        (replicate (PSEUDO_HDR_LEN + ETHERNET_MTU) 0)))[9 := protocol_to_u8 p])
   = pseudo_header ip_pair p n @ replicate ETHERNET_MTU 0"
proof -
  have z: "replicate (PSEUDO_HDR_LEN + ETHERNET_MTU) (0 :: u8)
      = [0, 0, 0, 0, 0, 0, 0, 0, 0, 0, 0, 0] @ replicate ETHERNET_MTU 0"
    by (simp add: PSEUDO_HDR_LEN_def replicate_add eval_nat_numeral)
  show ?thesis
    unfolding z pseudo_header_def
    by (cases "ip_src ip_pair"; cases "ip_dst ip_pair") (simp add: u16_to_be_bytes_def)
qed

lemma pseudo_hdr_cksum_ok:
  assumes "length data \<le> ETHERNET_MTU"
  shows "pseudo_hdr_cksum data ip_pair p
    = Inr (calculate (pseudo_header ip_pair p (length data) @ data))"
proof -
  let ?n = "of_nat (length data) :: u16"
  let ?h = "pseudo_header ip_pair p (length data)"
  have n: "u16_try_from (length data) = Inr ?n" "unat ?n = length data"
    using assms u16_try_from_Inr [of "length data" ?n]
    by (simp_all add: u16_try_from_def ETHERNET_MTU_def)
  have "try_copy PSEUDO_HDR_LEN (PSEUDO_HDR_LEN + length data) data (?h @ replicate ETHERNET_MTU 0)
      = (Inr (), ?h @ data @ replicate (ETHERNET_MTU - length data) 0)"
    using assms by (simp add: try_copy_def PSEUDO_HDR_LEN_def)
  then show ?thesis
    by (simp add: pseudo_hdr_cksum_def n Let_def pseudo_header_writes del: copy_at_simps)
       (use n assms in \<open>simp add: try_get_range_def PSEUDO_HDR_LEN_def\<close>)
qed

lemma pseudo_hdr_cksum_too_long:
  "ETHERNET_MTU < length data \<Longrightarrow> \<exists>e. pseudo_hdr_cksum data ip_pair p = Inl e"
  by (auto simp: pseudo_hdr_cksum_def u16_try_from_def try_copy_def PSEUDO_HDR_LEN_def
      ETHERNET_MTU_def Let_def copy_at_def unsigned_of_nat take_bit_nat_eq_self)

lemma pseudo_hdr_cksum_no_panic: "pseudo_hdr_cksum data ip_pair p \<noteq> Inl Panicked"
proof (cases "length data \<le> ETHERNET_MTU")
  case False
  then show ?thesis
    by (auto simp: pseudo_hdr_cksum_def u16_try_from_def try_copy_def PSEUDO_HDR_LEN_def
        ETHERNET_MTU_def Let_def copy_at_def unsigned_of_nat take_bit_nat_eq_self)
qed (simp add: pseudo_hdr_cksum_ok)

text \<open>Writing the checksum into its zeroed field makes the pseudo-header checksum verify.\<close>

lemma pseudo_hdr_cksum_verifies:
  assumes "even (length pre)" and "length (pre @ [0, 0] @ post) \<le> ETHERNET_MTU"
    and "pseudo_hdr_cksum (pre @ [0, 0] @ post) ip_pair p = Inr c"
  shows "pseudo_hdr_cksum (pre @ u16_to_be_bytes c @ post) ip_pair p = Inr 0"
proof -
  let ?h = "pseudo_header ip_pair p (length pre + 2 + length post)"
  have c: "c = calculate ((?h @ pre) @ [0, 0] @ post)"
    using assms pseudo_hdr_cksum_ok [OF assms(2), of ip_pair p] by simp
  have "calculate ((?h @ pre) @ u16_to_be_bytes c @ post) = 0"
    unfolding c by (rule calculate_with_checksum) (use assms in \<open>simp_all add: ETHERNET_MTU_def\<close>)
  then show ?thesis
    using assms(2) by (subst pseudo_hdr_cksum_ok) simp_all
qed

text \<open>The pseudo-header sum does not depend on the direction of the packet.\<close>

lemma pseudo_hdr_cksum_swapped:
  fixes ip_pair :: "'s ipv4_addr_pair"
  assumes "length data \<le> ETHERNET_MTU"
  shows "pseudo_hdr_cksum data (ip_swapped ip_pair :: 'p ipv4_addr_pair) p
    = pseudo_hdr_cksum data ip_pair p"
proof -
  let ?h = "pseudo_header (ip_swapped ip_pair :: 'p ipv4_addr_pair) p (length data)"
  let ?h' = "pseudo_header ip_pair p (length data)"
  have "word_sum ?h = word_sum ?h'"
    by (cases "ip_src ip_pair"; cases "ip_dst ip_pair") (simp add: pseudo_header_def)
  then have "word_sum (?h @ data) = word_sum (?h' @ data)"
    by (simp add: word_sum_append)
  then show ?thesis
    using assms by (simp add: pseudo_hdr_cksum_ok word_unat_eq_iff unat_calculate ETHERNET_MTU_def)
qed

end
