(* ===== verification/Ipv4_Header.thy ===== *)
theory Ipv4_Header
  imports Protocol
begin

text \<open>
  IPv4 headers (\<open>src/ipv4_header.rs\<close>): parsing an incoming packet into its header fields and its
  payload, building the header of an outgoing packet, and encoding it into the first 20 bytes of
  the write buffer.
\<close>

definition IPV4_HDR_MIN_LEN :: usize where
  "IPV4_HDR_MIN_LEN = 20"

record 's ipv4_header =
  total_len :: u16
  hdr_protocol :: protocol
  hdr_ip_pair :: "'s ipv4_addr_pair"

definition inner_parse :: "bytes \<Rightarrow> ('s ipv4_header \<times> bytes) result" where
  "inner_parse data =
     (if length data < IPV4_HDR_MIN_LEN then Inl (TooShortForIpv4 (length data))
      else
        let ip_hdr = take IPV4_HDR_MIN_LEN data;
            version = drop_bit 4 (ip_hdr ! 0)
        in if version = 6 then Inl Ipv6Packet
           else if version \<noteq> 4 then Inl (UnexpectedIpVersion version)
           else if calculate ip_hdr \<noteq> 0 then Inl InvalidIpv4Checksum
           else
             let ihl_bytes = unat (ip_hdr ! 0 AND 0xF) * 4
             in result_bind (protocol_try_from (ip_hdr ! 9)) (\<lambda>protocol.
                  if ihl_bytes \<le> length data then
                    Inr (\<lparr>total_len = from_be_bytes [ip_hdr ! 2, ip_hdr ! 3],
                          hdr_protocol = protocol,
                          hdr_ip_pair = Ipv4AddrPair
                            (Ipv4Addr (ip_hdr ! 12) (ip_hdr ! 13) (ip_hdr ! 14) (ip_hdr ! 15))
                            (Ipv4Addr (ip_hdr ! 16) (ip_hdr ! 17) (ip_hdr ! 18) (ip_hdr ! 19))\<rparr>,
                         drop ihl_bytes data)
                  else Inl ShorterThanIhl))"

text \<open>The two entry points of the crate: parsing remote packets, creating local headers.\<close>

definition ipv4_parse :: "bytes \<Rightarrow> (remote_ep ipv4_header \<times> bytes) result" where
  "ipv4_parse data = inner_parse data"

definition inner_try_new ::
    "protocol \<Rightarrow> 's ipv4_addr_pair \<Rightarrow> u16 \<Rightarrow> 's ipv4_header result" where
  "inner_try_new protocol ip_pair proto_len =
     result_map (\<lambda>total. \<lparr>total_len = total, hdr_protocol = protocol, hdr_ip_pair = ip_pair\<rparr>)
       (try_add_u16 (of_nat IPV4_HDR_MIN_LEN) proto_len)"

definition ipv4_try_new ::
    "protocol \<Rightarrow> local_ep ipv4_addr_pair \<Rightarrow> u16 \<Rightarrow> local_ep ipv4_header result" where
  "ipv4_try_new protocol ip_pair proto_len = inner_try_new protocol ip_pair proto_len"

definition inner_write_into :: "'s ipv4_header \<Rightarrow> bytes \<Rightarrow> bytes" where
  "inner_write_into h buf =
     (let buf = buf[0 := 0x40 OR (of_nat IPV4_HDR_MIN_LEN div 4)];
          buf = buf[1 := 0x00];
          buf = copy_at 2 (u16_to_be_bytes (total_len h)) buf;
          buf = copy_at 4 [0x00, 0x00] buf;
          buf = copy_at 6 [0x40, 0x00] buf;
          buf = buf[8 := 64];
          buf = buf[9 := protocol_to_u8 (hdr_protocol h)];
          buf = copy_at 10 [0x00, 0x00] buf;
          buf = copy_at 12 (octets (ip_src (hdr_ip_pair h))) buf;
          buf = copy_at 16 (octets (ip_dst (hdr_ip_pair h))) buf;
          ip_cksum = calculate (take IPV4_HDR_MIN_LEN buf)
      in copy_at 10 (u16_to_be_bytes ip_cksum) buf)"

definition ipv4_write_into :: "local_ep ipv4_header \<Rightarrow> bytes \<Rightarrow> bytes" where
  "ipv4_write_into h buf = inner_write_into h buf"

section \<open>The bytes of an encoded header\<close>

definition ipv4_fields :: "'s ipv4_header \<Rightarrow> bytes" where
  "ipv4_fields h = [0x45, 0] @ u16_to_be_bytes (total_len h)
     @ [0, 0, 0x40, 0, 64, protocol_to_u8 (hdr_protocol h)]"

definition ipv4_addrs :: "'s ipv4_header \<Rightarrow> bytes" where
  "ipv4_addrs h = octets (ip_src (hdr_ip_pair h)) @ octets (ip_dst (hdr_ip_pair h))"

definition ipv4_hdr_bytes :: "'s ipv4_header \<Rightarrow> bytes" where
  "ipv4_hdr_bytes h = ipv4_fields h
     @ u16_to_be_bytes (calculate (ipv4_fields h @ [0, 0] @ ipv4_addrs h)) @ ipv4_addrs h"

lemma length_ipv4_parts [simp]:
  "length (ipv4_fields h) = 10" "length (ipv4_addrs h) = 8" "length (ipv4_hdr_bytes h) = 20"
  by (simp_all add: ipv4_fields_def ipv4_addrs_def ipv4_hdr_bytes_def)

lemma inner_write_into_eq:
  assumes "20 \<le> length buf"
  shows "inner_write_into h buf = ipv4_hdr_bytes h @ drop 20 buf"
  using assms
proof (elim length_ge_20E, goal_cases)
  case (1 b0 b1 b2 b3 b4 b5 b6 b7 b8 b9 b10 b11 b12 b13 b14 b15 b16 b17 b18 b19 r)
  obtain a b c d where src: "ip_src (hdr_ip_pair h) = Ipv4Addr a b c d"
    by (cases "ip_src (hdr_ip_pair h)")
  obtain e f g k where dst: "ip_dst (hdr_ip_pair h) = Ipv4Addr e f g k"
    by (cases "ip_dst (hdr_ip_pair h)")
  obtain t0 t1 where t: "u16_to_be_bytes (total_len h) = [t0, t1]" by (simp add: u16_to_be_bytes_def)
  have c: "\<exists>x y. u16_to_be_bytes w = [x, y]" for w by (simp add: u16_to_be_bytes_def)
  obtain x y where xy: "u16_to_be_bytes (calculate (ipv4_fields h @ [0, 0] @ ipv4_addrs h)) = [x, y]"
    using c by blast
  then have xy': "u16_to_be_bytes (calculate [0x45, 0, t0, t1, 0, 0, 0x40, 0, 64,
      protocol_to_u8 (hdr_protocol h), 0, 0, a, b, c, d, e, f, g, k]) = [x, y]"
    by (simp add: ipv4_fields_def ipv4_addrs_def src dst t)
  show ?case
    unfolding 1 ipv4_hdr_bytes_def xy
    by (simp add: inner_write_into_def src dst t IPV4_HDR_MIN_LEN_def xy'
        ipv4_fields_def ipv4_addrs_def)
qed

lemma calculate_ipv4_hdr_bytes: "calculate (ipv4_hdr_bytes h) = 0"
  unfolding ipv4_hdr_bytes_def by (rule calculate_with_checksum) simp_all

lemma ipv4_hdr_bytes_explicit:
  assumes "ip_src (hdr_ip_pair h) = Ipv4Addr a b c d" and "ip_dst (hdr_ip_pair h) = Ipv4Addr e f g k"
  shows "\<exists>x y t0 t1. u16_to_be_bytes (total_len h) = [t0, t1] \<and>
    ipv4_hdr_bytes h = [0x45, 0, t0, t1, 0, 0, 0x40, 0, 64, protocol_to_u8 (hdr_protocol h), x, y,
      a, b, c, d, e, f, g, k]"
  using assms unfolding ipv4_hdr_bytes_def ipv4_fields_def ipv4_addrs_def u16_to_be_bytes_def
  by simp

lemma inner_parse_hdr_bytes: "inner_parse (ipv4_hdr_bytes h @ payload) = Inr (h, payload)"
proof -
  obtain a b c d where src: "ip_src (hdr_ip_pair h) = Ipv4Addr a b c d"
    by (cases "ip_src (hdr_ip_pair h)")
  obtain e f g k where dst: "ip_dst (hdr_ip_pair h) = Ipv4Addr e f g k"
    by (cases "ip_dst (hdr_ip_pair h)")
  obtain x y t0 t1 where t: "u16_to_be_bytes (total_len h) = [t0, t1]"
    and bs: "ipv4_hdr_bytes h = [0x45, 0, t0, t1, 0, 0, 0x40, 0, 64,
      protocol_to_u8 (hdr_protocol h), x, y, a, b, c, d, e, f, g, k]"
    using ipv4_hdr_bytes_explicit [OF src dst] by blast
  have len: "from_be_bytes [t0, t1] = total_len h"
    unfolding t [symmetric] by simp
  have pair: "Ipv4AddrPair (Ipv4Addr a b c d) (Ipv4Addr e f g k) = hdr_ip_pair h"
    by (rule ipv4_addr_pair.expand) (simp_all add: src dst)
  have "calculate (take 20 (ipv4_hdr_bytes h @ payload)) = 0"
    by (simp add: calculate_ipv4_hdr_bytes)
  then show ?thesis
    unfolding bs by (simp add: inner_parse_def IPV4_HDR_MIN_LEN_def len pair)
qed

lemma inner_parse_Inr_iff:
  "inner_parse data = Inr (h, payload) \<longleftrightarrow>
     20 \<le> length data \<and> drop_bit 4 (data ! 0) = 4 \<and> calculate (take 20 data) = 0 \<and>
     unat (data ! 0 AND 0xF) * 4 \<le> length data \<and>
     payload = drop (unat (data ! 0 AND 0xF) * 4) data \<and>
     total_len h = from_be_bytes [data ! 2, data ! 3] \<and>
     data ! 9 = protocol_to_u8 (hdr_protocol h) \<and>
     octets (ip_src (hdr_ip_pair h)) = [data ! 12, data ! 13, data ! 14, data ! 15] \<and>
     octets (ip_dst (hdr_ip_pair h)) = [data ! 16, data ! 17, data ! 18, data ! 19]"
proof -
  obtain t p ip where h: "h = \<lparr>total_len = t, hdr_protocol = p, hdr_ip_pair = ip\<rparr>" by (cases h)
  obtain s d where ip: "ip = Ipv4AddrPair s d" by (cases ip)
  show ?thesis
    unfolding h ip inner_parse_def IPV4_HDR_MIN_LEN_def Let_def
    by (cases s; cases d; cases "protocol_try_from (data ! 9)")
       (auto simp: protocol_try_from_Inr [symmetric])
qed

section \<open>Properties\<close>

text \<open>
  C12. Encoding and parsing an IPv4 header are inverse: \<open>write_into\<close> overwrites exactly the first 20
  bytes of the write buffer, whatever they held, and those bytes followed by any payload parse back
  to the same header and payload (so the checksum it wrote verifies).
\<close>

theorem ipv4_roundtrip:
  assumes "length buf = ETHERNET_MTU"
  shows "drop 20 (ipv4_write_into h buf) = drop 20 buf \<and>
    inner_parse (take 20 (ipv4_write_into h buf) @ payload) = Inr (h, payload)"
  using assms
  by (simp add: ipv4_write_into_def inner_write_into_eq ETHERNET_MTU_def inner_parse_hdr_bytes)

theorem ipv4_roundtrip_witness:
  "length (replicate 1500 (7 :: u8)) = ETHERNET_MTU \<and>
   inner_parse (take 20 (ipv4_write_into \<lparr>total_len = 48, hdr_protocol = Udp,
       hdr_ip_pair = Ipv4AddrPair (Ipv4Addr 172 16 10 12) (Ipv4Addr 192 168 1 100)\<rparr>
       (replicate 1500 7)) @ [1, 2])
   = Inr (\<lparr>total_len = 48, hdr_protocol = Udp,
       hdr_ip_pair = Ipv4AddrPair (Ipv4Addr 172 16 10 12) (Ipv4Addr 192 168 1 100)\<rparr>
       :: local_ep ipv4_header, [1, 2])"
proof -
  have len: "length (replicate 1500 (7 :: u8)) = ETHERNET_MTU" by (simp add: ETHERNET_MTU_def)
  from ipv4_roundtrip [OF len] len show ?thesis by blast
qed

text \<open>
  C26. Exactly which packets parse: those of at least 20 bytes, of version 4, with a verifying checksum
  over the first 20 bytes, a header length within the packet and a supported protocol.
\<close>

theorem ipv4_parse_accepts:
  "(\<exists>h payload. ipv4_parse data = Inr (h, payload)) \<longleftrightarrow>
     20 \<le> length data \<and> drop_bit 4 (data ! 0) = 4 \<and> calculate (take 20 data) = 0 \<and>
     unat (data ! 0 AND 0xF) * 4 \<le> length data \<and> (data ! 9 = 1 \<or> data ! 9 = 6 \<or> data ! 9 = 17)"
proof
  assume "\<exists>h payload. ipv4_parse data = Inr (h, payload)"
  then obtain h payload where "inner_parse data = Inr (h :: remote_ep ipv4_header, payload)"
    by (auto simp: ipv4_parse_def)
  then show "20 \<le> length data \<and> drop_bit 4 (data ! 0) = 4 \<and> calculate (take 20 data) = 0 \<and>
     unat (data ! 0 AND 0xF) * 4 \<le> length data \<and> (data ! 9 = 1 \<or> data ! 9 = 6 \<or> data ! 9 = 17)"
    by (cases "hdr_protocol h") (auto simp: inner_parse_Inr_iff)
next
  assume "20 \<le> length data \<and> drop_bit 4 (data ! 0) = 4 \<and> calculate (take 20 data) = 0 \<and>
     unat (data ! 0 AND 0xF) * 4 \<le> length data \<and> (data ! 9 = 1 \<or> data ! 9 = 6 \<or> data ! 9 = 17)"
  then show "\<exists>h payload. ipv4_parse data = Inr (h, payload)"
    by (auto simp: ipv4_parse_def inner_parse_def IPV4_HDR_MIN_LEN_def protocol_try_from_def)
qed

text \<open>
  C34. The checksum is verified over the first 20 bytes only. A packet whose header carries options
  (header length above 20 bytes) and whose checksum is right over its whole header is therefore
  rejected, unless its options happen to sum to zero.
\<close>

theorem ipv4_options_rejected:
  assumes "length data < 2 ^ 63" and "drop_bit 4 (data ! 0) = 4"
    and "ihl = unat (data ! 0 AND 0xF) * 4" and "20 < ihl" and "ihl \<le> length data"
    and "calculate (take ihl data) = 0"
    and "word_sum (take (ihl - 20) (drop 20 data)) mod 65535 \<noteq> 0"
  shows "ipv4_parse data = Inl InvalidIpv4Checksum"
proof -
  let ?opts = "take (ihl - 20) (drop 20 data)"
  have "take ihl data = take 20 data @ ?opts"
    using assms(4) by (metis le_add_diff_inverse less_imp_le take_add)
  then have sum: "word_sum (take ihl data) = word_sum (take 20 data) + word_sum ?opts"
    using assms(4,5) by (simp add: word_sum_append)
  have "calculate (take 20 data) \<noteq> 0"
  proof
    assume "calculate (take 20 data) = 0"
    then have "word_sum (take 20 data) mod 65535 = 0"
      using assms(1) by (subst (asm) calculate_0_iff) simp_all
    moreover have "word_sum (take ihl data) mod 65535 = 0"
      using assms(1,6) by (subst (asm) calculate_0_iff) simp_all
    ultimately show False using assms(7) sum by (simp add: mod_add_left_eq [symmetric])
  qed
  then show ?thesis
    using assms by (simp add: ipv4_parse_def inner_parse_def IPV4_HDR_MIN_LEN_def)
qed

text \<open>A 24-byte header with four option bytes whose checksum, 0xA34B, covers all of it.\<close>

theorem ipv4_options_rejected_witness:
  "ipv4_parse [0x46, 0, 0, 60, 0x1C, 0x46, 0x40, 0, 0x40, 6, 0xA3, 0x4B,
     192, 168, 1, 100, 172, 16, 10, 12, 1, 1, 1, 1] = Inl InvalidIpv4Checksum"
proof -
  let ?d = "[0x46, 0, 0, 60, 0x1C, 0x46, 0x40, 0, 0x40, 6, 0xA3, 0x4B,
     192, 168, 1, 100, 172, 16, 10, 12, 1, 1, 1, 1] :: bytes"
  have "calculate ?d = 0" by (subst calculate_0_iff) simp_all
  then show ?thesis by (intro ipv4_options_rejected [of _ 24]) simp_all
qed

end
