(* ===== verification/Encode.thy ===== *)
theory Encode
  imports Ipv4_Header
begin

text \<open>
  The \<open>Encode\<close> trait of \<open>src/protocol/router.rs\<close>: what the server calls on anything it sends. The
  contract of \<open>write_into\<close> is stated once as a locale: a message has a fixed wire format; if it fits
  the buffer exactly those bytes are written at its front, whatever the buffer held; if it does not
  fit, an ordinary error is returned and nothing panics. \<open>valid\<close> is what the message's type
  guarantees in Rust through private fields. ICMP messages, UDP datagrams, TCP segments and the
  router over them each provide it.
\<close>

locale encoder =
  fixes write_into :: "'m \<Rightarrow> (bytes, u16) action"
    and wire :: "'m \<Rightarrow> bytes"
    and valid :: "'m \<Rightarrow> bool"
  assumes write_into_fits:
      "valid m \<Longrightarrow> length (wire m) \<le> length buf \<Longrightarrow> length buf \<le> ETHERNET_MTU \<Longrightarrow>
        write_into m buf = (Inr (of_nat (length (wire m))), wire m @ drop (length (wire m)) buf)"
    and write_into_too_long:
      "valid m \<Longrightarrow> length buf < length (wire m) \<Longrightarrow>
        \<exists>e buf'. write_into m buf = (Inl e, buf') \<and> e \<noteq> Panicked \<and> length buf' = length buf"
begin

lemma write_into_length:
  "valid m \<Longrightarrow> length buf \<le> ETHERNET_MTU \<Longrightarrow> write_into m buf = (r, buf') \<Longrightarrow> length buf' = length buf"
  using write_into_fits [of m buf] write_into_too_long [of m buf]
  by (cases "length buf < length (wire m)") auto

lemma write_into_no_panic:
  "valid m \<Longrightarrow> length buf \<le> ETHERNET_MTU \<Longrightarrow> fst (write_into m buf) \<noteq> Inl Panicked"
  using write_into_fits [of m buf] write_into_too_long [of m buf]
  by (cases "length buf < length (wire m)") auto

lemma write_into_ok_iff:
  "valid m \<Longrightarrow> length buf \<le> ETHERNET_MTU \<Longrightarrow>
     (\<exists>n. fst (write_into m buf) = Inr n) \<longleftrightarrow> length (wire m) \<le> length buf"
  using write_into_fits [of m buf] write_into_too_long [of m buf]
  by (cases "length buf < length (wire m)") auto

text \<open>The written bytes do not depend on what the buffer held.\<close>

lemma write_into_stale_free:
  "valid m \<Longrightarrow> length (wire m) \<le> length buf \<Longrightarrow> length buf \<le> ETHERNET_MTU \<Longrightarrow>
   length buf' = length buf \<Longrightarrow>
     take (length (wire m)) (snd (write_into m buf)) = take (length (wire m)) (snd (write_into m buf'))"
  using write_into_fits [of m buf] write_into_fits [of m buf'] by simp

end

end
