(* ===== verification/Udp.thy ===== *)
theory Udp
  imports Encode
begin

text \<open>
  UDP datagrams (\<open>src/protocol/udp.rs\<close>): parsing with the optional checksum, the echo reply, and
  the encoder with its rule that a computed checksum of zero is sent as all ones.
\<close>

definition UDP_HDR_LEN :: u16 where
  "UDP_HDR_LEN = 8"

record 's udp_datagram =
  udp_ip_pair :: "'s ipv4_addr_pair"
  udp_ports :: "'s port_pair"
  udp_payload :: bytes

definition udp_parse ::
    "bytes \<Rightarrow> remote_ep ipv4_addr_pair \<Rightarrow> remote_ep udp_datagram result" where
  "udp_parse data ip_pair =
     (if length data < unat UDP_HDR_LEN then Inl (TooShortForUdp (length data))
      else
        let udp_hdr = take (unat UDP_HDR_LEN) data;
            payload = drop (unat UDP_HDR_LEN) data
        in result_bind
             (if (from_be_bytes [udp_hdr ! 6, udp_hdr ! 7] :: u16) \<noteq> 0
              then result_map (\<lambda>cksum. cksum \<noteq> 0) (pseudo_hdr_cksum data ip_pair Udp)
              else Inr False)
             (\<lambda>invalid.
                if invalid then Inl InvalidUdpChecksum
                else Inr \<lparr>udp_ip_pair = ip_pair,
                          udp_ports = PortPair (from_be_bytes [udp_hdr ! 0, udp_hdr ! 1])
                                               (from_be_bytes [udp_hdr ! 2, udp_hdr ! 3]),
                          udp_payload = payload\<rparr>))"

definition udp_create_reply :: "remote_ep udp_datagram \<Rightarrow> local_ep udp_datagram" where
  "udp_create_reply d =
     \<lparr>udp_ip_pair = ip_swapped (udp_ip_pair d),
      udp_ports = ports_swapped (udp_ports d),
      udp_payload = udp_payload d\<rparr>"

lemma udp_create_reply_sel [simp]:
  "udp_ip_pair (udp_create_reply d) = ip_swapped (udp_ip_pair d)"
  "udp_ports (udp_create_reply d) = ports_swapped (udp_ports d)"
  "udp_payload (udp_create_reply d) = udp_payload d"
  by (simp_all add: udp_create_reply_def)

definition udp_write_into :: "local_ep udp_datagram \<Rightarrow> (bytes, u16) action" where
  "udp_write_into d =
     act_bind (try_copy 0 2 (u16_to_be_bytes (port_src (udp_ports d)))) (\<lambda>_.
     act_bind (try_copy 2 4 (u16_to_be_bytes (port_dst (udp_ports d)))) (\<lambda>_.
     act_bind (act_lift (result_bind (u16_try_from (length (udp_payload d)))
                 (try_add_u16 UDP_HDR_LEN))) (\<lambda>udp_len.
     act_bind (try_copy 4 6 (u16_to_be_bytes udp_len)) (\<lambda>_.
     act_bind (act_lift (try_add_usize (unat UDP_HDR_LEN) (length (udp_payload d)))) (\<lambda>end.
     act_bind (try_copy (unat UDP_HDR_LEN) end (udp_payload d)) (\<lambda>_.
     act_bind (try_copy 6 8 [0x00, 0x00]) (\<lambda>_.
     act_bind (act_read (\<lambda>buf. result_bind (try_get_range buf 0 (unat udp_len))
                 (\<lambda>seg. pseudo_hdr_cksum seg (udp_ip_pair d) Udp))) (\<lambda>udp_cksum.
     act_bind (try_copy 6 8
                 (u16_to_be_bytes (if udp_cksum = 0 then 0xFFFF else udp_cksum))) (\<lambda>_.
     act_return udp_len)))))))))"

section \<open>The bytes of an encoded datagram\<close>

definition udp_fields :: "'s udp_datagram \<Rightarrow> bytes" where
  "udp_fields d = u16_to_be_bytes (port_src (udp_ports d)) @ u16_to_be_bytes (port_dst (udp_ports d))
     @ u16_to_be_bytes (8 + of_nat (length (udp_payload d)))"

definition udp_cksum :: "'s udp_datagram \<Rightarrow> u16" where
  "udp_cksum d = (let c = calculate (pseudo_header (udp_ip_pair d) Udp (8 + length (udp_payload d))
       @ udp_fields d @ [0, 0] @ udp_payload d)
     in if c = 0 then 0xFFFF else c)"

definition udp_wire :: "'s udp_datagram \<Rightarrow> bytes" where
  "udp_wire d = udp_fields d @ u16_to_be_bytes (udp_cksum d) @ udp_payload d"

lemma length_udp_wire [simp]:
  "length (udp_fields d) = 6" "length (udp_wire d) = 8 + length (udp_payload d)"
  by (simp_all add: udp_fields_def udp_wire_def)

lemma udp_lengths:
  assumes "8 + length (udp_payload d) \<le> ETHERNET_MTU"
  shows "result_bind (u16_try_from (length (udp_payload d))) (try_add_u16 UDP_HDR_LEN)
      = Inr (8 + of_nat (length (udp_payload d)))"
    and "unat (8 + of_nat (length (udp_payload d)) :: u16) = 8 + length (udp_payload d)"
    and "try_add_usize 8 (length (udp_payload d)) = Inr (8 + length (udp_payload d))"
    and "unat UDP_HDR_LEN = 8"
  using assms
  by (simp_all add: u16_try_from_def try_add_u16_def UDP_HDR_LEN_def ETHERNET_MTU_def
      unat_plus_if' unsigned_of_nat take_bit_nat_eq_self try_add_usize_def usize_MAX_def)

lemma udp_write_into_fits:
  assumes "length (udp_wire d) \<le> length buf" and "length buf \<le> ETHERNET_MTU"
  shows "udp_write_into d buf
    = (Inr (of_nat (length (udp_wire d))), udp_wire d @ drop (length (udp_wire d)) buf)"
proof -
  let ?p = "udp_payload d" and ?n = "8 + length (udp_payload d)"
  have mtu: "?n \<le> ETHERNET_MTU" using assms by simp
  note lens = udp_lengths [OF mtu]
  have "8 \<le> length buf" using assms by simp
  then obtain b0 b1 b2 b3 b4 b5 b6 b7 r
    where buf: "buf = b0 # b1 # b2 # b3 # b4 # b5 # b6 # b7 # r" by (rule length_ge_8E)
  have r: "length ?p \<le> length r" using assms(1) buf by simp
  obtain s0 s1 where s: "u16_to_be_bytes (port_src (udp_ports d)) = [s0, s1]"
    by (simp add: u16_to_be_bytes_def)
  obtain d0 d1 where d: "u16_to_be_bytes (port_dst (udp_ports d)) = [d0, d1]"
    by (simp add: u16_to_be_bytes_def)
  obtain l0 l1 where l: "u16_to_be_bytes (8 + of_nat (length ?p)) = [l0, l1]"
    by (simp add: u16_to_be_bytes_def)
  have fields: "udp_fields d = [s0, s1, d0, d1, l0, l1]"
    by (simp add: udp_fields_def s d l)
  let ?hdr0 = "[s0, s1, d0, d1, l0, l1, 0, 0]"
  have ck: "pseudo_hdr_cksum (?hdr0 @ ?p) (udp_ip_pair d) Udp = Inr (calculate
      (pseudo_header (udp_ip_pair d) Udp ?n @ udp_fields d @ [0, 0] @ ?p))"
    using mtu by (subst pseudo_hdr_cksum_ok) (simp_all add: fields eval_nat_numeral)
  show ?thesis
    unfolding udp_write_into_def buf
    using r ck
    by (simp add: act_bind_def try_copy_def lens s d l try_get_range_def udp_wire_def fields
        udp_cksum_def Let_def)
qed

lemma udp_write_into_too_long:
  assumes "length buf < length (udp_wire d)"
  shows "\<exists>e buf'. udp_write_into d buf = (Inl e, buf') \<and> e \<noteq> Panicked \<and> length buf' = length buf"
  using assms
  by (auto simp: udp_write_into_def act_bind_def try_copy_def u16_try_from_def try_add_u16_def
      try_add_usize_def UDP_HDR_LEN_def split: sum.splits prod.splits if_splits)

interpretation udp_enc: encoder udp_write_into udp_wire "\<lambda>_. True"
  by unfold_locales (rule udp_write_into_fits udp_write_into_too_long, assumption+)+

text \<open>The encoded datagram carries a checksum that is never zero and that verifies.\<close>

lemma udp_cksum_nonzero: "udp_cksum d \<noteq> 0"
  by (simp add: udp_cksum_def Let_def)

lemma udp_wire_verifies:
  assumes "length (udp_wire d) \<le> ETHERNET_MTU"
  shows "pseudo_hdr_cksum (udp_wire d) (udp_ip_pair d) Udp = Inr 0"
proof -
  let ?h = "pseudo_header (udp_ip_pair d) Udp (8 + length (udp_payload d)) @ udp_fields d"
  have len: "length ?h + 2 + length (udp_payload d) < 2 ^ 63" "even (length ?h)"
    using assms by (simp_all add: ETHERNET_MTU_def)
  have "calculate (?h @ u16_to_be_bytes (udp_cksum d) @ udp_payload d) = 0"
    using calculate_with_checksum [OF len(2,1)] calculate_with_all_ones [OF len(2,1)]
    by (simp add: udp_cksum_def Let_def)
  then show ?thesis
    using assms by (subst pseudo_hdr_cksum_ok) (simp_all add: udp_wire_def)
qed

lemma udp_wire_nth:
  "from_be_bytes [udp_wire d ! 0, udp_wire d ! 1] = port_src (udp_ports d)"
  "from_be_bytes [udp_wire d ! 2, udp_wire d ! 3] = port_dst (udp_ports d)"
  "from_be_bytes [udp_wire d ! 6, udp_wire d ! 7] = udp_cksum d"
  using from_be_bytes_u16 [of "port_src (udp_ports d)"] from_be_bytes_u16 [of "port_dst (udp_ports d)"]
    from_be_bytes_u16 [of "udp_cksum d"]
  by (simp_all add: udp_wire_def udp_fields_def u16_to_be_bytes_def)

lemma udp_parse_wire:
  assumes "length (udp_wire d) \<le> ETHERNET_MTU"
  shows "udp_parse (udp_wire d) (ip_relabel (udp_ip_pair d))
    = Inr \<lparr>udp_ip_pair = ip_relabel (udp_ip_pair d), udp_ports = ports_relabel (udp_ports d),
           udp_payload = udp_payload d\<rparr>"
proof -
  have "pseudo_hdr_cksum (udp_wire d) (ip_relabel (udp_ip_pair d) :: remote_ep ipv4_addr_pair) Udp
      = Inr 0"
    using udp_wire_verifies [OF assms] pseudo_hdr_cksum_ok [OF assms, of "udp_ip_pair d" Udp]
      pseudo_hdr_cksum_ok [OF assms, of "ip_relabel (udp_ip_pair d) :: remote_ep ipv4_addr_pair" Udp]
    by simp
  moreover have "drop 8 (udp_wire d) = udp_payload d" by (simp add: udp_wire_def)
  ultimately show ?thesis
    by (simp add: udp_parse_def UDP_HDR_LEN_def Let_def udp_wire_nth [simplified] udp_cksum_nonzero
        ports_relabel_def)
qed

section \<open>Properties\<close>

text \<open>
  UDP echo: a datagram that parses and fits one outgoing packet is answered by a datagram of
  the same length that the client, parsing it in turn, accepts, with the addresses and ports
  swapped and the same payload; its checksum field is never the all-zero "no checksum" value.
\<close>

lemma udp_echo:
  assumes "udp_parse data ip_pair = Inr d" and "length data \<le> length buf"
    and "length buf = ETHERNET_MTU - IPV4_HDR_MIN_LEN"
  shows "\<exists>n buf'. udp_write_into (udp_create_reply d) buf = (Inr n, buf') \<and>
    unat n = length data \<and>
    (from_be_bytes [buf' ! 6, buf' ! 7] :: u16) \<noteq> 0 \<and>
    udp_parse (take (unat n) buf') (ip_relabel (ip_swapped ip_pair :: local_ep ipv4_addr_pair))
      = Inr \<lparr>udp_ip_pair = ip_relabel (ip_swapped ip_pair :: local_ep ipv4_addr_pair),
             udp_ports = ports_relabel (ports_swapped (udp_ports d) :: local_ep port_pair),
             udp_payload = drop 8 data\<rparr>"
proof -
  let ?r = "udp_create_reply d"
  from assms(1) have d: "8 \<le> length data" "udp_ip_pair d = ip_pair" "udp_payload d = drop 8 data"
    by (auto simp: udp_parse_def UDP_HDR_LEN_def Let_def result_bind_eq_Inr split: if_splits)
  have wire: "length (udp_wire ?r) = length data" using d by simp
  then have mtu: "length (udp_wire ?r) \<le> ETHERNET_MTU" using assms(2,3) by simp
  have w: "udp_write_into ?r buf = (Inr (of_nat (length data)), udp_wire ?r @ drop (length data) buf)"
    using udp_write_into_fits [of ?r buf, unfolded wire] assms(2,3) by simp
  have n: "unat (of_nat (length data) :: u16) = length data"
    using assms(2,3) by (simp add: unsigned_of_nat take_bit_nat_eq_self ETHERNET_MTU_def)
  have nth: "(udp_wire ?r @ drop (length data) buf) ! i = udp_wire ?r ! i" if "i < 8" for i
    using that d(1) wire by (simp add: nth_append)
  show ?thesis
    using udp_parse_wire [OF mtu] n wire d(2,3)
    by (simp add: w nth udp_wire_nth udp_cksum_nonzero)
qed

lemma udp_echo_example:
  "\<exists>d n buf'. udp_parse [0x04, 0xD2, 0, 0x35, 0, 10, 0, 0, 0x48, 0x69]
       (Ipv4AddrPair (Ipv4Addr 10 0 0 2) (Ipv4Addr 10 0 0 1)) = Inr d \<and>
     udp_write_into (udp_create_reply d) (replicate 1480 0) = (Inr n, buf') \<and> unat n = 10"
proof -
  let ?data = "[0x04, 0xD2, 0, 0x35, 0, 10, 0, 0, 0x48, 0x69] :: bytes"
  let ?ip = "Ipv4AddrPair (Ipv4Addr 10 0 0 2) (Ipv4Addr 10 0 0 1) :: remote_ep ipv4_addr_pair"
  let ?d = "\<lparr>udp_ip_pair = ?ip, udp_ports = PortPair 1234 53, udp_payload = [0x48, 0x69]\<rparr>"
  have p: "udp_parse ?data ?ip = Inr ?d"
    by (simp add: udp_parse_def UDP_HDR_LEN_def Let_def from_be_bytes_def)
  have "\<exists>n buf'. udp_write_into (udp_create_reply ?d) (replicate 1480 0) = (Inr n, buf') \<and>
      unat n = length ?data"
    using udp_echo [OF p, of "replicate 1480 0"]
    by (auto simp: ETHERNET_MTU_def IPV4_HDR_MIN_LEN_def)
  with p show ?thesis by fastforce
qed

end
