(* ===== verification/Icmp_Echo.thy ===== *)
theory Icmp_Echo
  imports Encode
begin

text \<open>
  ICMP Echo messages (\<open>src/protocol/icmp_echo.rs\<close>): parsing an Echo Request, the Echo Reply to it,
  and the encoder.
\<close>

definition ICMP_HDR_LEN :: u16 where
  "ICMP_HDR_LEN = 8"

record 's icmp_echo_msg =
  icmp_ip_pair :: "'s ipv4_addr_pair"
  icmp_type :: u8
  icmp_identifier :: u16
  icmp_sequence :: u16
  icmp_payload :: bytes

definition ICMP_TYPE_ECHO_REQUEST :: u8 where
  "ICMP_TYPE_ECHO_REQUEST = 8"

definition ICMP_TYPE_ECHO_REPLY :: u8 where
  "ICMP_TYPE_ECHO_REPLY = 0"

definition ICMP_CODE_ECHO :: u8 where
  "ICMP_CODE_ECHO = 0"

definition icmp_parse ::
    "bytes \<Rightarrow> remote_ep ipv4_addr_pair \<Rightarrow> remote_ep icmp_echo_msg result" where
  "icmp_parse data ip_pair =
     (if length data < unat ICMP_HDR_LEN then Inl (TooShortForIcmp (length data))
      else
        let icmp_hdr = take (unat ICMP_HDR_LEN) data;
            payload = drop (unat ICMP_HDR_LEN) data
        in if calculate data \<noteq> 0 then Inl InvalidIcmpChecksum
           else
             let type = icmp_hdr ! 0; icmp_code = icmp_hdr ! 1
             in if type \<noteq> ICMP_TYPE_ECHO_REQUEST \<or> icmp_code \<noteq> ICMP_CODE_ECHO
                then Inl (NotAnEchoRequest type icmp_code)
                else Inr \<lparr>icmp_ip_pair = ip_pair, icmp_type = type,
                          icmp_identifier = from_be_bytes [icmp_hdr ! 4, icmp_hdr ! 5],
                          icmp_sequence = from_be_bytes [icmp_hdr ! 6, icmp_hdr ! 7],
                          icmp_payload = payload\<rparr>)"

definition icmp_create_reply :: "remote_ep icmp_echo_msg \<Rightarrow> local_ep icmp_echo_msg" where
  "icmp_create_reply m =
     \<lparr>icmp_ip_pair = ip_swapped (icmp_ip_pair m), icmp_type = ICMP_TYPE_ECHO_REPLY,
      icmp_identifier = icmp_identifier m, icmp_sequence = icmp_sequence m, icmp_payload = icmp_payload m\<rparr>"

definition icmp_write_into :: "local_ep icmp_echo_msg \<Rightarrow> (bytes, u16) action" where
  "icmp_write_into m =
     act_bind (act_lift (try_add_usize (unat ICMP_HDR_LEN) (length (icmp_payload m)))) (\<lambda>end.
     act_bind (try_copy (unat ICMP_HDR_LEN) end (icmp_payload m)) (\<lambda>_.
     act_bind (try_set 0 (icmp_type m)) (\<lambda>_.
     act_bind (try_set 1 ICMP_CODE_ECHO) (\<lambda>_.
     act_bind (try_copy 2 4 [0x00, 0x00]) (\<lambda>_.
     act_bind (try_copy 4 6 (u16_to_be_bytes (icmp_identifier m))) (\<lambda>_.
     act_bind (try_copy 6 8 (u16_to_be_bytes (icmp_sequence m))) (\<lambda>_.
     act_bind (act_lift (result_bind (u16_try_from (length (icmp_payload m)))
                 (try_add_u16 ICMP_HDR_LEN))) (\<lambda>icmp_len.
     act_bind (act_read (\<lambda>buf. result_map calculate (try_get_range buf 0 (unat icmp_len))))
       (\<lambda>icmp_cksum.
     act_bind (try_copy 2 4 (u16_to_be_bytes icmp_cksum)) (\<lambda>_.
     act_return icmp_len))))))))))"

section \<open>The bytes of an encoded message\<close>

definition icmp_tail :: "'s icmp_echo_msg \<Rightarrow> bytes" where
  "icmp_tail m = u16_to_be_bytes (icmp_identifier m) @ u16_to_be_bytes (icmp_sequence m) @ icmp_payload m"

definition icmp_wire :: "'s icmp_echo_msg \<Rightarrow> bytes" where
  "icmp_wire m = [icmp_type m, 0]
     @ u16_to_be_bytes (calculate ([icmp_type m, 0] @ [0, 0] @ icmp_tail m)) @ icmp_tail m"

lemma length_icmp_wire [simp]:
  "length (icmp_tail m) = 4 + length (icmp_payload m)"
  "length (icmp_wire m) = 8 + length (icmp_payload m)"
  by (simp_all add: icmp_tail_def icmp_wire_def)

lemma icmp_wire_verifies:
  assumes "length (icmp_wire m) \<le> ETHERNET_MTU"
  shows "calculate (icmp_wire m) = 0"
  unfolding icmp_wire_def
  by (rule calculate_with_checksum) (use assms in \<open>simp_all add: ETHERNET_MTU_def\<close>)

lemma icmp_lengths:
  assumes "8 + length (icmp_payload m) \<le> ETHERNET_MTU"
  shows "result_bind (u16_try_from (length (icmp_payload m))) (try_add_u16 ICMP_HDR_LEN)
      = Inr (8 + of_nat (length (icmp_payload m)))"
    and "unat (8 + of_nat (length (icmp_payload m)) :: u16) = 8 + length (icmp_payload m)"
    and "try_add_usize 8 (length (icmp_payload m)) = Inr (8 + length (icmp_payload m))"
    and "unat ICMP_HDR_LEN = 8"
  using assms
  by (simp_all add: u16_try_from_def try_add_u16_def ICMP_HDR_LEN_def ETHERNET_MTU_def
      unat_plus_if' unsigned_of_nat take_bit_nat_eq_self try_add_usize_def usize_MAX_def)

lemma icmp_write_into_fits:
  assumes "length (icmp_wire m) \<le> length buf" and "length buf \<le> ETHERNET_MTU"
  shows "icmp_write_into m buf
    = (Inr (of_nat (length (icmp_wire m))), icmp_wire m @ drop (length (icmp_wire m)) buf)"
proof -
  let ?p = "icmp_payload m"
  have mtu: "8 + length ?p \<le> ETHERNET_MTU" using assms by simp
  note lens = icmp_lengths [OF mtu]
  have "8 \<le> length buf" using assms by simp
  then obtain b0 b1 b2 b3 b4 b5 b6 b7 r
    where buf: "buf = b0 # b1 # b2 # b3 # b4 # b5 # b6 # b7 # r" by (rule length_ge_8E)
  have r: "length ?p \<le> length r" using assms(1) buf by simp
  obtain i0 i1 where i: "u16_to_be_bytes (icmp_identifier m) = [i0, i1]" by (simp add: u16_to_be_bytes_def)
  obtain s0 s1 where s: "u16_to_be_bytes (icmp_sequence m) = [s0, s1]" by (simp add: u16_to_be_bytes_def)
  show ?thesis
    unfolding icmp_write_into_def buf
    using r
    by (simp add: act_bind_def try_copy_def lens i s try_get_range_def icmp_wire_def icmp_tail_def
        ICMP_CODE_ECHO_def)
qed

lemma icmp_write_into_too_long:
  assumes "length buf < length (icmp_wire m)"
  shows "\<exists>e buf'. icmp_write_into m buf = (Inl e, buf') \<and> e \<noteq> Panicked \<and> length buf' = length buf"
  using assms
  by (auto simp: icmp_write_into_def act_bind_def try_copy_def try_add_usize_def ICMP_HDR_LEN_def)

interpretation icmp_enc: encoder icmp_write_into icmp_wire "\<lambda>_. True"
  by unfold_locales (rule icmp_write_into_fits icmp_write_into_too_long, assumption+)+

lemma icmp_parse_Inr:
  assumes "icmp_parse data ip_pair = Inr m"
  shows "8 \<le> length data \<and> icmp_ip_pair m = ip_pair \<and> calculate data = 0 \<and>
    take 2 data = [8, 0] \<and> icmp_tail m = drop 4 data"
proof -
  from assms have "8 \<le> length data"
    by (auto simp: icmp_parse_def ICMP_HDR_LEN_def split: if_splits)
  then obtain b0 b1 b2 b3 b4 b5 b6 b7 r
    where "data = b0 # b1 # b2 # b3 # b4 # b5 # b6 # b7 # r" by (rule length_ge_8E)
  with assms show ?thesis
    by (auto simp: icmp_parse_def ICMP_HDR_LEN_def Let_def ICMP_TYPE_ECHO_REQUEST_def
        ICMP_CODE_ECHO_def icmp_tail_def split: if_splits)
qed

section \<open>Properties\<close>

text \<open>
  ICMP echo: an Echo Request that parses and fits one outgoing packet is answered by a message
  that differs from it in the type, now Echo Reply, and in the checksum, which verifies; the
  identifier, the sequence number and the payload are the request's bytes.
\<close>

lemma icmp_echo:
  assumes "icmp_parse data ip_pair = Inr m" and "length data \<le> length buf"
    and "length buf = ETHERNET_MTU - IPV4_HDR_MIN_LEN"
  shows "\<exists>n buf'. icmp_write_into (icmp_create_reply m) buf = (Inr n, buf') \<and>
    unat n = length data \<and>
    take 2 buf' = [0, 0] \<and> drop 4 (take (unat n) buf') = drop 4 data \<and>
    calculate (take (unat n) buf') = 0 \<and>
    icmp_ip_pair (icmp_create_reply m) = ip_swapped ip_pair"
proof -
  let ?r = "icmp_create_reply m"
  have m: "8 \<le> length data" "icmp_ip_pair m = ip_pair" "icmp_tail m = drop 4 data"
    using icmp_parse_Inr [OF assms(1)] by simp_all
  have tail: "icmp_tail ?r = drop 4 data" "icmp_type ?r = 0"
    using m(3) by (simp_all add: icmp_create_reply_def icmp_tail_def ICMP_TYPE_ECHO_REPLY_def)
  have wire: "length (icmp_wire ?r) = length data"
    using m(1) length_icmp_wire(1) [of ?r] tail by simp
  have w: "icmp_write_into ?r buf = (Inr (of_nat (length data)), icmp_wire ?r @ drop (length data) buf)"
    using icmp_write_into_fits [of ?r buf, unfolded wire] assms(2,3) by simp
  have n: "unat (of_nat (length data) :: u16) = length data"
    using assms(2,3) by (simp add: unsigned_of_nat take_bit_nat_eq_self ETHERNET_MTU_def)
  have "calculate (icmp_wire ?r) = 0"
    using icmp_wire_verifies [of ?r] assms(2,3) unfolding wire by simp
  moreover have "take 2 (icmp_wire ?r) = [0, 0]" "drop 4 (icmp_wire ?r) = drop 4 data"
    by (simp_all add: icmp_wire_def tail)
  moreover have "icmp_ip_pair ?r = ip_swapped ip_pair" using m(2) by (simp add: icmp_create_reply_def)
  moreover have "take 2 (icmp_wire ?r @ drop (length data) buf) = take 2 (icmp_wire ?r)"
    using wire m(1) by (simp del: length_icmp_wire)
  moreover have "take (length data) (icmp_wire ?r @ drop (length data) buf) = icmp_wire ?r"
    using wire by (simp del: length_icmp_wire)
  ultimately show ?thesis
    using n by (simp add: w del: take_append)
qed

text \<open>A ping with identifier 0x1234, sequence number 1 and the payload \<open>AB\<close>.\<close>

lemma icmp_echo_example:
  "\<exists>m n buf'. icmp_parse [8, 0, 0xA4, 0x88, 0x12, 0x34, 0, 1, 0x41, 0x42]
       (Ipv4AddrPair (Ipv4Addr 10 0 0 2) (Ipv4Addr 10 0 0 1)) = Inr m \<and>
     icmp_write_into (icmp_create_reply m) (replicate 1480 0) = (Inr n, buf') \<and> unat n = 10 \<and>
     calculate (take (unat n) buf') = 0"
proof -
  let ?data = "[8, 0, 0xA4, 0x88, 0x12, 0x34, 0, 1, 0x41, 0x42] :: bytes"
  let ?ip = "Ipv4AddrPair (Ipv4Addr 10 0 0 2) (Ipv4Addr 10 0 0 1) :: remote_ep ipv4_addr_pair"
  have c: "calculate ?data = 0" by (subst calculate_0_iff) simp_all
  obtain m where p: "icmp_parse ?data ?ip = Inr m"
    using c by (simp add: icmp_parse_def ICMP_HDR_LEN_def Let_def ICMP_TYPE_ECHO_REQUEST_def
        ICMP_CODE_ECHO_def)
  have "\<exists>n buf'. icmp_write_into (icmp_create_reply m) (replicate 1480 0) = (Inr n, buf') \<and>
      unat n = length ?data \<and> calculate (take (unat n) buf') = 0"
    using icmp_echo [OF p, of "replicate 1480 0"]
    by (auto simp: ETHERNET_MTU_def IPV4_HDR_MIN_LEN_def)
  with p show ?thesis by fastforce
qed

end
