(* ===== verification/Tcp_Flags.thy ===== *)
theory Tcp_Flags
  imports Prelude
begin

text \<open>
  The combinations of TCP control bits the server handles (\<open>src/protocol/tcp/flags.rs\<close>).
\<close>

datatype tcp_flags = Syn | SynAck | Ack | FinAck | Rst | RstAck

definition ACK_BIT :: u8 where
  "ACK_BIT = 0b00010000"

definition RST_BIT :: u8 where
  "RST_BIT = 0b00000100"

definition SYN_BIT :: u8 where
  "SYN_BIT = 0b00000010"

definition FIN_BIT :: u8 where
  "FIN_BIT = 0b00000001"

lemmas flag_bits = ACK_BIT_def RST_BIT_def SYN_BIT_def FIN_BIT_def

fun tcp_flags_to_u8 :: "tcp_flags \<Rightarrow> u8" where
  "tcp_flags_to_u8 Syn = SYN_BIT"
| "tcp_flags_to_u8 SynAck = SYN_BIT OR ACK_BIT"
| "tcp_flags_to_u8 Ack = ACK_BIT"
| "tcp_flags_to_u8 FinAck = FIN_BIT OR ACK_BIT"
| "tcp_flags_to_u8 Rst = RST_BIT"
| "tcp_flags_to_u8 RstAck = RST_BIT OR ACK_BIT"

definition FLAGS_MASK :: u8 where
  "FLAGS_MASK = ACK_BIT OR RST_BIT OR SYN_BIT OR FIN_BIT"

definition tcp_flags_try_from :: "u8 \<Rightarrow> tcp_flags result" where
  "tcp_flags_try_from value =
     (let masked = value AND FLAGS_MASK
      in if masked = SYN_BIT then Inr Syn
         else if masked = ACK_BIT then Inr Ack
         else if masked = RST_BIT then Inr Rst
         else if masked = tcp_flags_to_u8 SynAck then Inr SynAck
         else if masked = tcp_flags_to_u8 FinAck then Inr FinAck
         else if masked = tcp_flags_to_u8 RstAck then Inr RstAck
         else Inl (InvalidTcpFlags masked))"

lemma tcp_flags_to_u8_masked [simp]: "tcp_flags_to_u8 f AND FLAGS_MASK = tcp_flags_to_u8 f"
  by (cases f) (simp_all add: FLAGS_MASK_def flag_bits)

lemma tcp_flags_try_from_Inr:
  "tcp_flags_try_from b = Inr f \<longleftrightarrow> b AND FLAGS_MASK = tcp_flags_to_u8 f"
  by (cases f) (auto simp: tcp_flags_try_from_def Let_def flag_bits)

lemma tcp_flags_roundtrip [simp]: "tcp_flags_try_from (tcp_flags_to_u8 f) = Inr f"
  by (simp add: tcp_flags_try_from_Inr)

section \<open>Properties\<close>

text \<open>
  C37. The control byte decodes to a combination exactly when its ACK, RST, SYN and FIN bits are
  that combination's; the other four bits (PSH, URG, ECE, CWR) are ignored, every combination
  decodes to itself, and any of the ten remaining combinations of the four bits is an error that
  reports those bits only.
\<close>

theorem tcp_flags_decoding:
  "(tcp_flags_try_from b = Inr f \<longleftrightarrow> b AND FLAGS_MASK = tcp_flags_to_u8 f) \<and>
   tcp_flags_try_from (tcp_flags_to_u8 f OR (c AND NOT FLAGS_MASK)) = Inr f \<and>
   ((\<nexists>g. b AND FLAGS_MASK = tcp_flags_to_u8 g) \<longleftrightarrow>
      tcp_flags_try_from b = Inl (InvalidTcpFlags (b AND FLAGS_MASK)))"
proof -
  have "(tcp_flags_to_u8 f OR (c AND NOT FLAGS_MASK)) AND FLAGS_MASK
      = (tcp_flags_to_u8 f AND FLAGS_MASK) OR (c AND (NOT FLAGS_MASK AND FLAGS_MASK))"
    by (simp only: bit.conj_disj_distrib2 and.assoc)
  also have "\<dots> = tcp_flags_to_u8 f" by simp
  finally have "tcp_flags_try_from (tcp_flags_to_u8 f OR (c AND NOT FLAGS_MASK)) = Inr f"
    by (simp only: tcp_flags_try_from_Inr)
  moreover have "(\<nexists>g. b AND FLAGS_MASK = tcp_flags_to_u8 g) \<longleftrightarrow> (\<nexists>g. tcp_flags_try_from b = Inr g)"
    by (simp only: tcp_flags_try_from_Inr)
  moreover have "(\<nexists>g. tcp_flags_try_from b = Inr g) \<longleftrightarrow>
      tcp_flags_try_from b = Inl (InvalidTcpFlags (b AND FLAGS_MASK))"
    by (auto simp: tcp_flags_try_from_def Let_def)
  ultimately show ?thesis by (simp only: tcp_flags_try_from_Inr)
qed

end
