(* ===== verification/Seq_Space.thy ===== *)
theory Seq_Space
  imports Addr
begin

text \<open>
  TCP sequence-number space (\<open>src/protocol/tcp/seq_space.rs\<close>): points and offsets modulo \<open>2\<^sup>3\<^sup>2\<close>, each
  tagged with the endpoint whose stream it belongs to, the wrap-around order of RFC 9293 and the
  checked offset between two points. The order is related to unbounded stream positions, which the
  rest of the TCP development reasons with through \<open>seq_dist\<close>.
\<close>

datatype ('t, 's) seq_offset = SeqOffset (wrapping: 't)

datatype 's seq_point = SeqPoint (raw: u32)

definition u32_of_u16_offset :: "(u16, 's) seq_offset \<Rightarrow> (u32, 's) seq_offset" where
  "u32_of_u16_offset value = SeqOffset (ucast (wrapping value))"

text \<open>\<open>From<NonZeroU16>\<close>; a \<open>NonZeroU16\<close> is a \<open>u16\<close>, and where the code makes one it is not zero.\<close>

definition offset_of_nonzero :: "u16 \<Rightarrow> ('a::len word, 's) seq_offset" where
  "offset_of_nonzero value = SeqOffset (ucast value)"

definition offset_to_be_bytes :: "(u16, 's) seq_offset \<Rightarrow> bytes" where
  "offset_to_be_bytes v = u16_to_be_bytes (wrapping v)"

definition offset_saturating_sub ::
    "(u32, 's) seq_offset \<Rightarrow> (u32, 's) seq_offset \<Rightarrow> (u32, 's) seq_offset" where
  "offset_saturating_sub v rhs =
     SeqOffset (if wrapping v \<ge> wrapping rhs then wrapping v - wrapping rhs else 0)"

text \<open>\<open>usize::try_from\<close>: on the 64-bit targets of the crate every \<open>u32\<close> fits.\<close>

definition usize_try_from_offset :: "(u32, 's) seq_offset \<Rightarrow> usize result" where
  "usize_try_from_offset v = Inr (unat (wrapping v))"

definition point_to_be_bytes :: "'s seq_point \<Rightarrow> bytes" where
  "point_to_be_bytes p = u32_to_be_bytes (raw p)"

definition precedes :: "'s seq_point \<Rightarrow> 's seq_point \<Rightarrow> bool" where
  "precedes p other \<longleftrightarrow> raw p - raw other \<ge> push_bit 31 1"

definition precedes_or_eq :: "'s seq_point \<Rightarrow> 's seq_point \<Rightarrow> bool" where
  "precedes_or_eq p other \<longleftrightarrow> raw p = raw other \<or> precedes p other"

definition offset_past :: "'s seq_point \<Rightarrow> 's seq_point \<Rightarrow> (u32, 's) seq_offset option" where
  "offset_past p rhs =
     (if precedes_or_eq rhs p then Some (SeqOffset (raw p - raw rhs)) else None)"

text \<open>\<open>Add\<close>, and \<open>AddAssign\<close> when its result is stored back.\<close>

definition seq_add :: "'s seq_point \<Rightarrow> (u32, 's) seq_offset \<Rightarrow> 's seq_point" where
  "seq_add p rhs = SeqPoint (raw p + wrapping rhs)"

section \<open>Distances\<close>

text \<open>How far \<open>q\<close> is ahead of \<open>p\<close> going forward around the sequence space.\<close>

definition seq_dist :: "'s seq_point \<Rightarrow> 's seq_point \<Rightarrow> nat" where
  "seq_dist p q = unat (raw q - raw p)"

named_theorems seq_simps \<open>distances between sequence points\<close>

lemma seq_dist_less: "seq_dist p q < 4294967296"
  using unat_u32_less by (simp add: seq_dist_def)

lemma seq_dist_self [simp]: "seq_dist p p = 0"
  by (simp add: seq_dist_def)

lemma seq_dist_eq_0_iff [simp]: "seq_dist p q = 0 \<longleftrightarrow> p = q"
  by (cases p; cases q) (auto simp: seq_dist_def unat_eq_0)

lemma seq_dist_pos_iff: "0 < seq_dist p q \<longleftrightarrow> p \<noteq> q"
  by (simp flip: neq0_conv)

lemma seq_dist_triangle: "seq_dist p r = (seq_dist p q + seq_dist q r) mod 4294967296"
proof -
  have "raw r - raw p = (raw q - raw p) + (raw r - raw q)" by simp
  then show ?thesis by (simp only: seq_dist_def unat_word_ariths) simp
qed

lemma seq_dist_flip:
  assumes "p \<noteq> q"
  shows "seq_dist q p = 4294967296 - seq_dist p q"
proof -
  let ?a = "seq_dist p q" and ?b = "seq_dist q p"
  have "(?a + ?b) mod 4294967296 = 0" using seq_dist_triangle [of p p q] by simp
  then obtain k where k: "?a + ?b = 4294967296 * k" by (auto simp: mod_eq_0_iff_dvd)
  have "0 < ?a" using assms by (simp add: seq_dist_pos_iff)
  with k seq_dist_less [of p q] seq_dist_less [of q p] have "k = 1" by linarith
  with k show ?thesis by simp
qed

lemma seq_dist_trans: "seq_dist p q + seq_dist q r < 4294967296 \<Longrightarrow> seq_dist p r = seq_dist p q + seq_dist q r"
  using seq_dist_triangle [of p r q] by simp

lemma seq_dist_diff: "seq_dist p q \<le> seq_dist p r \<Longrightarrow> seq_dist q r = seq_dist p r - seq_dist p q"
proof -
  assume le: "seq_dist p q \<le> seq_dist p r"
  have "raw r - raw q = (raw r - raw p) - (raw q - raw p)" by simp
  with le show ?thesis unfolding seq_dist_def by (metis unat_sub word_le_nat_alt)
qed

lemma seq_dist_seq_add:
  assumes "seq_dist p q + unat (wrapping k) < 4294967296"
  shows "seq_dist p (seq_add q k) = seq_dist p q + unat (wrapping k)"
proof -
  have "seq_dist q (seq_add q k) = unat (wrapping k)" by (simp add: seq_dist_def seq_add_def)
  with seq_dist_trans [of p q "seq_add q k"] assms show ?thesis by simp
qed

lemma seq_dist_seq_add_self [simp]: "seq_dist p (seq_add p k) = unat (wrapping k)"
  by (simp add: seq_dist_def seq_add_def)

lemma precedes_iff_dist [seq_simps]: "precedes p q \<longleftrightarrow> 0 < seq_dist p q \<and> seq_dist p q \<le> 2147483648"
proof (cases "p = q")
  case True
  then show ?thesis by (simp add: precedes_def word_le_nat_alt)
next
  case False
  have "precedes p q \<longleftrightarrow> 2147483648 \<le> seq_dist q p"
    by (simp add: precedes_def seq_dist_def word_le_nat_alt)
  moreover have "0 < seq_dist p q" using False by (simp add: seq_dist_pos_iff)
  moreover note seq_dist_flip [OF False] seq_dist_less [of p q]
  ultimately show ?thesis by linarith
qed

lemma precedes_or_eq_iff_dist [seq_simps]: "precedes_or_eq p q \<longleftrightarrow> seq_dist p q \<le> 2147483648"
proof -
  have "raw p = raw q \<longleftrightarrow> seq_dist p q = 0" by (cases p; cases q) simp
  then show ?thesis unfolding precedes_or_eq_def precedes_iff_dist by linarith
qed

lemma offset_past_eq [seq_simps]:
  "offset_past p q = (if seq_dist q p \<le> 2147483648 then Some (SeqOffset (raw p - raw q)) else None)"
  by (simp add: offset_past_def precedes_or_eq_iff_dist)

section \<open>Properties\<close>

text \<open>
  C28. The wrap-around order agrees with the order of the unbounded stream positions the numbers
  stand for whenever these are less than \<open>2\<^sup>3\<^sup>1\<close> apart, and the offset between two such points is
  the difference of the positions, or none when it would be negative.
\<close>

theorem seq_order_of_positions:
  fixes x y :: int and p q :: "'s seq_point"
  assumes "\<bar>x - y\<bar> < 2 ^ 31" and "p = SeqPoint (of_int x)" and "q = SeqPoint (of_int y)"
  shows "(precedes p q \<longleftrightarrow> x < y) \<and> (precedes_or_eq p q \<longleftrightarrow> x \<le> y) \<and>
    offset_past q p = (if x \<le> y then Some (SeqOffset (of_int (y - x))) else None)"
proof -
  have d: "int (seq_dist p q) = (y - x) mod 4294967296"
    unfolding assms(2,3) seq_dist_def seq_point.sel of_int_diff [symmetric]
    by (simp only: int_nat_eq unsigned_of_int of_nat_unat) (simp add: take_bit_eq_mod)
  have "int (seq_dist p q) = (if x \<le> y then y - x else y - x + 4294967296)"
  proof (cases "x \<le> y")
    case False
    then have "(y - x + 4294967296) mod 4294967296 = y - x + 4294967296"
      using assms(1) by (intro mod_pos_pos_trivial) auto
    with False d show ?thesis by simp
  qed (use d assms(1) in auto)
  moreover have "raw q - raw p = of_int (y - x)" by (simp add: assms)
  ultimately show ?thesis
    using assms(1) by (auto simp: seq_simps split: if_splits)
qed

theorem seq_order_of_positions_witness:
  "precedes (SeqPoint (of_int 4294967290) :: local_ep seq_point) (SeqPoint (of_int 4294967300)) \<and>
   offset_past (SeqPoint (of_int 4294967300) :: local_ep seq_point) (SeqPoint (of_int 4294967290))
     = Some (SeqOffset 10)"
  using seq_order_of_positions [OF _ refl refl, of 4294967290 4294967300, where ?'s = local_ep]
  by simp

text \<open>
  The order is not a strict order: exactly the points half the sequence space apart precede
  each other both ways. This is the only way it can fail to be antisymmetric.
\<close>

lemma precedes_both_ways_iff:
  "precedes p q \<and> precedes q p \<longleftrightarrow> raw q = raw p + 2 ^ 31"
proof -
  have "raw q = raw p + 2 ^ 31 \<longleftrightarrow> raw q - raw p = 2 ^ 31" by (auto simp: algebra_simps)
  also have "\<dots> \<longleftrightarrow> seq_dist p q = 2147483648" by (simp add: seq_dist_def word_unat_eq_iff)
  finally have half: "raw q = raw p + 2 ^ 31 \<longleftrightarrow> seq_dist p q = 2147483648" .
  show ?thesis
  proof (cases "p = q")
    case False
    then show ?thesis using seq_dist_flip [OF False] unfolding half seq_simps by linarith
  qed (simp add: seq_simps)
qed

end
