(* ===== verification/Tcp_Payload.thy ===== *)
theory Tcp_Payload
  imports Seq_Space Try_Ops
begin

text \<open>
  TCP payloads (\<open>src/protocol/tcp/payload.rs\<close>): byte strings whose length fits \<open>NonZeroU16\<close>.
\<close>

record tcp_payload =
  payload_data :: bytes
  payload_len :: u16

text \<open>
  \<open>try_from_iter\<close>: the items of the iterator are the argument. The first is taken off to tell the
  empty case before anything is allocated, then chained back.
\<close>

fun try_from_iter :: "bytes \<Rightarrow> tcp_payload option result" where
  "try_from_iter [] = Inr None"
| "try_from_iter (first # it) =
     (let data = first # it
      in result_map
           (\<lambda>maybe_zero_len. if maybe_zero_len = 0 then None
              else Some \<lparr>payload_data = data, payload_len = maybe_zero_len\<rparr>)
           (result_map_err (\<lambda>_. PayloadTooLong) (u16_try_from (length data))))"

definition len_or_default :: "tcp_payload option \<Rightarrow> ('a::len word, 's) seq_offset" where
  "len_or_default v = (case v of None \<Rightarrow> SeqOffset 0 | Some p \<Rightarrow> offset_of_nonzero (payload_len p))"

section \<open>The invariant of a payload\<close>

definition payload_ok :: "tcp_payload \<Rightarrow> bool" where
  "payload_ok p \<longleftrightarrow> unat (payload_len p) = length (payload_data p) \<and> payload_len p \<noteq> 0"

text \<open>The bytes an optional payload stands for.\<close>

definition payload_bytes :: "tcp_payload option \<Rightarrow> bytes" where
  "payload_bytes v = (case v of None \<Rightarrow> [] | Some p \<Rightarrow> payload_data p)"

lemma payload_bytes_simps [simp]:
  "payload_bytes None = []" "payload_bytes (Some p) = payload_data p"
  by (simp_all add: payload_bytes_def)

lemma payload_ok_length:
  "payload_ok p \<Longrightarrow> 0 < length (payload_data p) \<and> length (payload_data p) < 65536"
  using unat_u16_less [of "payload_len p"] by (auto simp: payload_ok_def unat_eq_0)

lemma of_nat_payload_len:
  assumes "payload_ok p"
  shows "(of_nat (length (payload_data p)) :: u16) = payload_len p"
proof -
  have "length (payload_data p) = unat (payload_len p)" using assms by (simp add: payload_ok_def)
  then show ?thesis by simp
qed

lemma payload_ok_of_bytes:
  assumes "bs \<noteq> []" and "length bs < 65536"
  shows "payload_ok \<lparr>payload_data = bs, payload_len = of_nat (length bs)\<rparr>"
proof -
  have "unat (of_nat (length bs) :: u16) = length bs" using assms(2) by (rule unat_of_nat_u16)
  with assms(1) show ?thesis by (auto simp: payload_ok_def simp flip: unat_eq_0)
qed

lemma try_from_iter_ok:
  assumes "length bs < 65536"
  shows "try_from_iter bs = Inr (if bs = [] then None
    else Some \<lparr>payload_data = bs, payload_len = of_nat (length bs)\<rparr>)"
proof (cases bs)
  case (Cons b bs')
  then show ?thesis
    using assms payload_ok_of_bytes [of bs] by (auto simp: u16_try_from_def payload_ok_def Let_def)
qed simp

lemma try_from_iter_too_long: "65536 \<le> length bs \<Longrightarrow> try_from_iter bs = Inl PayloadTooLong"
  by (cases bs) (auto simp: u16_try_from_def Let_def)

lemma try_from_iter_Inr:
  assumes "try_from_iter bs = Inr v"
  shows "length bs < 65536" and "payload_bytes v = bs" and "pred_option payload_ok v"
    and "v = None \<longleftrightarrow> bs = []"
proof -
  show len: "length bs < 65536"
    using assms try_from_iter_too_long [of bs] by (cases "length bs < 65536") auto
  then show "payload_bytes v = bs" "v = None \<longleftrightarrow> bs = []"
    using assms try_from_iter_ok [OF len] by (auto split: if_splits)
  show "pred_option payload_ok v"
    using assms try_from_iter_ok [OF len] payload_ok_of_bytes [OF _ len] by (auto split: if_splits)
qed

lemma len_or_default_None [simp]: "len_or_default None = SeqOffset 0"
  by (simp add: len_or_default_def)

lemma wrapping_len_or_default:
  assumes "pred_option payload_ok v"
  shows "unat (wrapping (len_or_default v :: (u32, 's) seq_offset)) = length (payload_bytes v)"
  using assms
  by (cases v) (auto simp: len_or_default_def offset_of_nonzero_def payload_ok_def)

end
