(* ===== verification/Tcp_Segment.thy ===== *)
theory Tcp_Segment
  imports Encode Tcp_Flags Tcp_Payload
begin

text \<open>
  TCP segments (\<open>src/protocol/tcp.rs\<close>): the segment as the server sees it, parsing, and encoding.
  The decision what to send is in the theories on connections; \<open>SendInfo\<close>, the part of an outgoing
  segment that decision fixes (\<open>src/protocol/tcp/send_info.rs\<close>), is declared here because building
  a segment takes one apart.
\<close>

definition TCP_HDR_MIN_LEN :: u8 where
  "TCP_HDR_MIN_LEN = 20"

definition LOCAL_SYN_BYTE :: "(u32, local_ep) seq_offset" where
  "LOCAL_SYN_BYTE = SeqOffset 1"

definition LOCAL_FIN_BYTE :: "(u32, local_ep) seq_offset" where
  "LOCAL_FIN_BYTE = SeqOffset 1"

definition REMOTE_SYN_BYTE :: "(u32, remote_ep) seq_offset" where
  "REMOTE_SYN_BYTE = SeqOffset 1"

definition REMOTE_FIN_BYTE :: "(u32, remote_ep) seq_offset" where
  "REMOTE_FIN_BYTE = SeqOffset 1"

lemmas phantom_bytes = LOCAL_SYN_BYTE_def LOCAL_FIN_BYTE_def REMOTE_SYN_BYTE_def REMOTE_FIN_BYTE_def

text \<open>\<open>'s\<close> is the sender \<open>S\<close> and \<open>'p\<close> its peer \<open>S::Peer\<close>.\<close>

record ('s, 'p) tcp_segment =
  seg_ip_pair :: "'s ipv4_addr_pair"
  seg_ports :: "'s port_pair"
  seg_seq_num :: "'s seq_point"
  seg_ack_num :: "'p seq_point"
  seg_offset_bytes :: u8
  seg_flags :: tcp_flags
  seg_window :: "(u16, 'p) seq_offset"
  seg_payload :: "tcp_payload option"

type_synonym remote_segment = "(remote_ep, local_ep) tcp_segment"
type_synonym local_segment = "(local_ep, remote_ep) tcp_segment"

record send_info =
  si_seq_num :: "local_ep seq_point"
  si_ack_num :: "remote_ep seq_point"
  si_flags :: tcp_flags
  si_payload :: "tcp_payload option"

definition RCV_WND :: "(u16, remote_ep) seq_offset" where
  "RCV_WND = SeqOffset 0xFFFF"

definition from_pairs_and_info ::
    "local_ep ipv4_addr_pair \<Rightarrow> local_ep port_pair \<Rightarrow> send_info \<Rightarrow> local_segment" where
  "from_pairs_and_info ip_pair ports info =
     \<lparr>seg_ip_pair = ip_pair, seg_ports = ports, seg_seq_num = si_seq_num info,
      seg_ack_num = si_ack_num info, seg_offset_bytes = TCP_HDR_MIN_LEN, seg_flags = si_flags info,
      seg_window = RCV_WND, seg_payload = si_payload info\<rparr>"

definition tcp_inner_parse :: "bytes \<Rightarrow> 's ipv4_addr_pair \<Rightarrow> ('s, 'p) tcp_segment result" where
  "tcp_inner_parse data ip_pair =
     (if length data < unat TCP_HDR_MIN_LEN then Inl (TooShortForTcp (length data))
      else
        let tcp_hdr = take (unat TCP_HDR_MIN_LEN) data
        in result_bind (pseudo_hdr_cksum data ip_pair Tcp) (\<lambda>cksum.
             if cksum \<noteq> 0 then Inl InvalidTcpChecksum
             else
               let offset_bytes = push_bit 2 (drop_bit 4 (tcp_hdr ! 12))
               in result_bind (tcp_flags_try_from (tcp_hdr ! 13)) (\<lambda>flags.
                  result_bind (try_from_iter
                      (if unat offset_bytes \<le> length data then drop (unat offset_bytes) data else []))
                    (\<lambda>payload.
                      Inr \<lparr>seg_ip_pair = ip_pair,
                           seg_ports = PortPair (from_be_bytes [tcp_hdr ! 0, tcp_hdr ! 1])
                                                (from_be_bytes [tcp_hdr ! 2, tcp_hdr ! 3]),
                           seg_seq_num = SeqPoint (from_be_bytes
                             [tcp_hdr ! 4, tcp_hdr ! 5, tcp_hdr ! 6, tcp_hdr ! 7]),
                           seg_ack_num = SeqPoint (from_be_bytes
                             [tcp_hdr ! 8, tcp_hdr ! 9, tcp_hdr ! 10, tcp_hdr ! 11]),
                           seg_offset_bytes = offset_bytes,
                           seg_flags = flags,
                           seg_window = SeqOffset (from_be_bytes [tcp_hdr ! 14, tcp_hdr ! 15]),
                           seg_payload = payload\<rparr>))))"

definition tcp_parse :: "bytes \<Rightarrow> remote_ep ipv4_addr_pair \<Rightarrow> remote_segment result" where
  "tcp_parse data ip_pair = tcp_inner_parse data ip_pair"

text \<open>The closure that copies the payload, when there is one, and returns its length.\<close>

definition write_payload :: "tcp_payload option \<Rightarrow> (bytes, u16) action" where
  "write_payload maybe_payload =
     (case maybe_payload of
        None \<Rightarrow> act_return 0
      | Some payload \<Rightarrow>
          act_bind (act_lift (try_add_usize (unat TCP_HDR_MIN_LEN) (unat (payload_len payload))))
            (\<lambda>end.
          act_bind (try_copy (unat TCP_HDR_MIN_LEN) end (payload_data payload)) (\<lambda>_.
          act_return (payload_len payload))))"

definition tcp_inner_write_into :: "('s, 'p) tcp_segment \<Rightarrow> (bytes, u16) action" where
  "tcp_inner_write_into seg =
     act_bind (try_copy 0 2 (u16_to_be_bytes (port_src (seg_ports seg)))) (\<lambda>_.
     act_bind (try_copy 2 4 (u16_to_be_bytes (port_dst (seg_ports seg)))) (\<lambda>_.
     act_bind (try_copy 4 8 (point_to_be_bytes (seg_seq_num seg))) (\<lambda>_.
     act_bind (try_copy 8 12 (point_to_be_bytes (seg_ack_num seg))) (\<lambda>_.
     act_bind (try_set 12 (push_bit 4 (seg_offset_bytes seg div 4))) (\<lambda>_.
     act_bind (try_set 13 (tcp_flags_to_u8 (seg_flags seg))) (\<lambda>_.
     act_bind (try_copy 14 16 (offset_to_be_bytes (seg_window seg))) (\<lambda>_.
     act_bind (try_copy 18 20 [0x00, 0x00]) (\<lambda>_.
     act_bind (write_payload (seg_payload seg)) (\<lambda>payload_len.
     act_bind (act_lift (try_add_u16 (ucast TCP_HDR_MIN_LEN) payload_len)) (\<lambda>tcp_seg_len.
     act_bind (try_copy 16 18 [0x00, 0x00]) (\<lambda>_.
     act_bind (act_read (\<lambda>buf. result_bind (try_get_range buf 0 (unat tcp_seg_len))
                 (\<lambda>data. pseudo_hdr_cksum data (seg_ip_pair seg) Tcp))) (\<lambda>tcp_cksum.
     act_bind (try_copy 16 18 (u16_to_be_bytes tcp_cksum)) (\<lambda>_.
     act_return tcp_seg_len)))))))))))))"

definition tcp_write_into :: "local_segment \<Rightarrow> (bytes, u16) action" where
  "tcp_write_into seg = tcp_inner_write_into seg"

section \<open>The bytes of an encoded segment\<close>

definition segment_ok :: "('s, 'p) tcp_segment \<Rightarrow> bool" where
  "segment_ok seg \<longleftrightarrow> pred_option payload_ok (seg_payload seg)"

text \<open>The header up to the checksum field, and what follows it.\<close>

definition tcp_fields :: "('s, 'p) tcp_segment \<Rightarrow> bytes" where
  "tcp_fields seg = u16_to_be_bytes (port_src (seg_ports seg)) @ u16_to_be_bytes (port_dst (seg_ports seg))
     @ point_to_be_bytes (seg_seq_num seg) @ point_to_be_bytes (seg_ack_num seg)
     @ [push_bit 4 (seg_offset_bytes seg div 4), tcp_flags_to_u8 (seg_flags seg)]
     @ offset_to_be_bytes (seg_window seg)"

definition tcp_tail :: "('s, 'p) tcp_segment \<Rightarrow> bytes" where
  "tcp_tail seg = [0, 0] @ payload_bytes (seg_payload seg)"

definition tcp_cksum :: "('s, 'p) tcp_segment \<Rightarrow> u16" where
  "tcp_cksum seg = calculate
     (pseudo_header (seg_ip_pair seg) Tcp (20 + length (payload_bytes (seg_payload seg)))
       @ tcp_fields seg @ [0, 0] @ tcp_tail seg)"

definition tcp_wire :: "('s, 'p) tcp_segment \<Rightarrow> bytes" where
  "tcp_wire seg = tcp_fields seg @ u16_to_be_bytes (tcp_cksum seg) @ tcp_tail seg"

lemma length_point_to_be_bytes [simp]:
  "length (point_to_be_bytes p) = 4" "length (offset_to_be_bytes w) = 2"
  by (simp_all add: point_to_be_bytes_def offset_to_be_bytes_def)

lemma length_tcp_wire [simp]:
  "length (tcp_fields seg) = 16"
  "length (tcp_tail seg) = 2 + length (payload_bytes (seg_payload seg))"
  "length (tcp_wire seg) = 20 + length (payload_bytes (seg_payload seg))"
  by (simp_all add: tcp_fields_def tcp_tail_def tcp_wire_def)

lemma tcp_fields_explicit:
  obtains s0 s1 d0 d1 q0 q1 q2 q3 a0 a1 a2 a3 w0 w1
  where "u16_to_be_bytes (port_src (seg_ports seg)) = [s0, s1]"
    and "u16_to_be_bytes (port_dst (seg_ports seg)) = [d0, d1]"
    and "point_to_be_bytes (seg_seq_num seg) = [q0, q1, q2, q3]"
    and "point_to_be_bytes (seg_ack_num seg) = [a0, a1, a2, a3]"
    and "offset_to_be_bytes (seg_window seg) = [w0, w1]"
    and "tcp_fields seg = [s0, s1, d0, d1, q0, q1, q2, q3, a0, a1, a2, a3,
      push_bit 4 (seg_offset_bytes seg div 4), tcp_flags_to_u8 (seg_flags seg), w0, w1]"
  by (simp add: tcp_fields_def u16_to_be_bytes_def point_to_be_bytes_def u32_to_be_bytes_def
      offset_to_be_bytes_def)

lemma write_payload_fits:
  assumes "pred_option payload_ok v" and "length (payload_bytes v) \<le> length r"
    and "length r \<le> ETHERNET_MTU" and "length hdr = 20"
  shows "write_payload v (hdr @ r)
    = (Inr (of_nat (length (payload_bytes v))), hdr @ payload_bytes v @ drop (length (payload_bytes v)) r)"
proof (cases v)
  case (Some p)
  have "unat (payload_len p) = length (payload_data p)" "length (payload_data p) \<le> length r"
    using assms(1,2) Some by (simp_all add: payload_ok_def)
  moreover have "payload_len p = of_nat (length (payload_data p))"
    using assms(1) Some by (simp add: of_nat_payload_len)
  ultimately show ?thesis
    using assms(3,4) Some
    by (simp add: write_payload_def act_bind_def try_add_usize_def usize_MAX_def TCP_HDR_MIN_LEN_def
        ETHERNET_MTU_def try_copy_def)
qed (simp add: write_payload_def)

lemma tcp_write_into_fits:
  assumes "segment_ok seg" and "length (tcp_wire seg) \<le> length buf" and "length buf \<le> ETHERNET_MTU"
  shows "tcp_inner_write_into seg buf
    = (Inr (of_nat (length (tcp_wire seg))), tcp_wire seg @ drop (length (tcp_wire seg)) buf)"
proof -
  let ?p = "payload_bytes (seg_payload seg)"
  have "20 \<le> length buf" using assms(2) by simp
  then obtain b0 b1 b2 b3 b4 b5 b6 b7 b8 b9 b10 b11 b12 b13 b14 b15 b16 b17 b18 b19 r
    where buf: "buf = b0 # b1 # b2 # b3 # b4 # b5 # b6 # b7 # b8 # b9 # b10 # b11 # b12 # b13 # b14
      # b15 # b16 # b17 # b18 # b19 # r" by (rule length_ge_20E)
  have len: "length ?p \<le> length r" "length r \<le> ETHERNET_MTU" "20 + length ?p \<le> ETHERNET_MTU"
    using assms(2,3) buf by simp_all
  obtain s0 s1 d0 d1 q0 q1 q2 q3 a0 a1 a2 a3 w0 w1
    where bs: "u16_to_be_bytes (port_src (seg_ports seg)) = [s0, s1]"
      "u16_to_be_bytes (port_dst (seg_ports seg)) = [d0, d1]"
      "point_to_be_bytes (seg_seq_num seg) = [q0, q1, q2, q3]"
      "point_to_be_bytes (seg_ack_num seg) = [a0, a1, a2, a3]"
      "offset_to_be_bytes (seg_window seg) = [w0, w1]"
    and tf: "tcp_fields seg = [s0, s1, d0, d1, q0, q1, q2, q3, a0, a1, a2, a3,
      push_bit 4 (seg_offset_bytes seg div 4), tcp_flags_to_u8 (seg_flags seg), w0, w1]"
    by (rule tcp_fields_explicit)
  obtain c0 c1 where c: "u16_to_be_bytes (tcp_cksum seg) = [c0, c1]"
    by (simp add: u16_to_be_bytes_def)
  define o1 where "o1 = push_bit 4 (seg_offset_bytes seg div 4)"
  define f1 where "f1 = tcp_flags_to_u8 (seg_flags seg)"
  have fields: "tcp_fields seg = [s0, s1, d0, d1, q0, q1, q2, q3, a0, a1, a2, a3, o1, f1, w0, w1]"
    by (simp add: tf o1_def f1_def)
  let ?hdr = "\<lambda>x y. [s0, s1, d0, d1, q0, q1, q2, q3, a0, a1, a2, a3, o1, f1, w0, w1, x, y, 0, 0]"
  have wp: "write_payload (seg_payload seg) (?hdr b16 b17 @ r)
      = (Inr (of_nat (length ?p)), ?hdr b16 b17 @ ?p @ drop (length ?p) r)"
    using assms(1) len by (intro write_payload_fits) (simp_all add: segment_ok_def)
  have ck: "pseudo_hdr_cksum (?hdr 0 0 @ ?p) (seg_ip_pair seg) Tcp = Inr (tcp_cksum seg)"
    using len(3) by (subst pseudo_hdr_cksum_ok)
      (simp_all add: tcp_cksum_def fields tcp_tail_def eval_nat_numeral)
  have n: "try_add_u16 20 (of_nat (length ?p)) = Inr (20 + of_nat (length ?p))"
      "unat (20 + of_nat (length ?p) :: u16) = 20 + length ?p"
    using len(3) by (simp_all add: try_add_u16_def unat_plus_if' unat_of_nat_u16 ETHERNET_MTU_def)
  show ?thesis
    unfolding tcp_inner_write_into_def buf o1_def [symmetric] f1_def [symmetric]
    using wp ck len(1)
    by (simp add: act_bind_def try_copy_def bs n c TCP_HDR_MIN_LEN_def try_get_range_def
        tcp_wire_def fields tcp_tail_def)
qed

lemma tame_write_payload [tame_intros]:
  assumes "pred_option payload_ok v"
  shows "tame (write_payload v)"
proof (cases v)
  case (Some p)
  have "tame (act_bind (try_copy 20 end (payload_data p)) (\<lambda>_. act_return (payload_len p)))"
    if "try_add_usize 20 (unat (payload_len p)) = Inr end" for "end"
    using that Some assms
    by (intro tame_intros) (auto simp: try_add_usize_def payload_ok_def split: if_splits)
  then show ?thesis
    unfolding Some write_payload_def
    by (cases "try_add_usize 20 (unat (payload_len p))")
       (auto simp: tame_def TCP_HDR_MIN_LEN_def try_add_usize_def split: if_splits)
qed (simp add: write_payload_def tame_return)

lemma tame_tcp_write_into: "segment_ok seg \<Longrightarrow> tame (tcp_inner_write_into seg)"
  unfolding tcp_inner_write_into_def segment_ok_def
  by (intro tame_intros)
     (auto simp: try_add_u16_def try_get_range_def pseudo_hdr_cksum_no_panic)

lemma write_payload_Inr:
  assumes "write_payload v buf = (Inr n, buf')" and "pred_option payload_ok v"
  shows "unat n = length (payload_bytes v)"
  using assms
  by (cases v) (auto simp: write_payload_def act_bind_eq_Inr payload_ok_def)

lemma tcp_write_into_too_long:
  assumes "segment_ok seg" and "length buf < length (tcp_wire seg)"
  shows "\<exists>e buf'. tcp_inner_write_into seg buf = (Inl e, buf') \<and> e \<noteq> Panicked \<and>
    length buf' = length buf"
proof -
  obtain r buf' where w: "tcp_inner_write_into seg buf = (r, buf')"
    by (cases "tcp_inner_write_into seg buf")
  have tame: "length buf' = length buf" "r \<noteq> Inl Panicked"
    using tame_tcp_write_into [OF assms(1)] w unfolding tame_def by (metis fst_conv snd_conv)+
  show ?thesis
  proof (cases r)
    case (Inr n)
    then have "20 + length (payload_bytes (seg_payload seg)) \<le> length buf'"
      using w assms(1)
      by (auto simp: tcp_inner_write_into_def act_bind_eq_Inr try_get_range_def result_bind_eq_Inr
          try_add_u16_Inr TCP_HDR_MIN_LEN_def segment_ok_def try_copy_def try_set_def
          dest!: write_payload_Inr split: if_splits)
    with assms(2) tame(1) show ?thesis by simp
  qed (use tame w in auto)
qed

interpretation tcp_enc: encoder tcp_write_into tcp_wire segment_ok
  unfolding tcp_write_into_def
  by unfold_locales (rule tcp_write_into_fits tcp_write_into_too_long, assumption+)+

section \<open>Parsing an encoded segment\<close>

lemma tcp_wire_verifies:
  assumes "length (tcp_wire seg) \<le> ETHERNET_MTU"
  shows "pseudo_hdr_cksum (tcp_wire seg) (seg_ip_pair seg) Tcp = Inr 0"
  unfolding tcp_wire_def
proof (rule pseudo_hdr_cksum_verifies)
  show "pseudo_hdr_cksum (tcp_fields seg @ [0, 0] @ tcp_tail seg) (seg_ip_pair seg) Tcp
      = Inr (tcp_cksum seg)"
    using assms by (subst pseudo_hdr_cksum_ok) (simp_all add: tcp_cksum_def)
qed (use assms in simp_all)

lemma tcp_parse_wire:
  assumes "segment_ok seg" and "length (tcp_wire seg) \<le> ETHERNET_MTU"
    and "seg_offset_bytes seg = TCP_HDR_MIN_LEN"
  shows "tcp_inner_parse (tcp_wire seg) (seg_ip_pair seg) = Inr seg"
proof -
  let ?p = "payload_bytes (seg_payload seg)"
  obtain c0 c1 where c: "u16_to_be_bytes (tcp_cksum seg) = [c0, c1]"
    by (simp add: u16_to_be_bytes_def)
  have pl: "try_from_iter ?p = Inr (seg_payload seg)"
  proof (cases "seg_payload seg")
    case (Some p)
    then have p: "payload_ok p" "length (payload_data p) < 65536" "payload_data p \<noteq> []"
      using assms(1) payload_ok_length [of p] by (auto simp: segment_ok_def)
    with Some show ?thesis by (simp add: try_from_iter_ok of_nat_payload_len)
  qed simp
  obtain s0 s1 d0 d1 q0 q1 q2 q3 a0 a1 a2 a3 w0 w1
    where bs: "u16_to_be_bytes (port_src (seg_ports seg)) = [s0, s1]"
      "u16_to_be_bytes (port_dst (seg_ports seg)) = [d0, d1]"
      "point_to_be_bytes (seg_seq_num seg) = [q0, q1, q2, q3]"
      "point_to_be_bytes (seg_ack_num seg) = [a0, a1, a2, a3]"
      "offset_to_be_bytes (seg_window seg) = [w0, w1]"
    and tf: "tcp_fields seg = [s0, s1, d0, d1, q0, q1, q2, q3, a0, a1, a2, a3,
      push_bit 4 (seg_offset_bytes seg div 4), tcp_flags_to_u8 (seg_flags seg), w0, w1]"
    by (rule tcp_fields_explicit)
  have fb: "from_be_bytes [s0, s1] = port_src (seg_ports seg)"
      "from_be_bytes [d0, d1] = port_dst (seg_ports seg)"
      "from_be_bytes [q0, q1, q2, q3] = raw (seg_seq_num seg)"
      "from_be_bytes [a0, a1, a2, a3] = raw (seg_ack_num seg)"
      "from_be_bytes [w0, w1] = wrapping (seg_window seg)"
    by (simp_all flip: bs add: point_to_be_bytes_def offset_to_be_bytes_def)
  have wire: "tcp_wire seg = [s0, s1, d0, d1, q0, q1, q2, q3, a0, a1, a2, a3, 0x50,
      tcp_flags_to_u8 (seg_flags seg), w0, w1, c0, c1, 0, 0] @ ?p"
    by (simp add: tcp_wire_def tf c tcp_tail_def assms(3) TCP_HDR_MIN_LEN_def)
  show ?thesis
    using tcp_wire_verifies [OF assms(2)] pl assms(3) unfolding wire
    by (simp add: tcp_inner_parse_def TCP_HDR_MIN_LEN_def fb)
qed

lemma tcp_inner_parse_Inr:
  assumes "tcp_inner_parse data ip_pair = Inr seg"
  shows "segment_ok seg" and "20 \<le> length data" and "length data \<le> ETHERNET_MTU"
    and "seg_ip_pair seg = ip_pair" and "pseudo_hdr_cksum data ip_pair Tcp = Inr 0"
    and "tcp_flags_try_from (data ! 13) = Inr (seg_flags seg)"
    and "seg_offset_bytes seg = push_bit 2 (drop_bit 4 (data ! 12))"
    and "payload_bytes (seg_payload seg) = (if unat (seg_offset_bytes seg) \<le> length data
      then drop (unat (seg_offset_bytes seg)) data else [])"
proof -
  let ?off = "push_bit 2 (drop_bit 4 (data ! 12))"
  have *: "20 \<le> length data \<and> seg_ip_pair seg = ip_pair \<and> pseudo_hdr_cksum data ip_pair Tcp = Inr 0 \<and>
      tcp_flags_try_from (data ! 13) = Inr (seg_flags seg) \<and> seg_offset_bytes seg = ?off \<and>
      try_from_iter (if unat ?off \<le> length data then drop (unat ?off) data else [])
        = Inr (seg_payload seg)"
    using assms
    by (auto simp: tcp_inner_parse_def Let_def TCP_HDR_MIN_LEN_def result_bind_eq_Inr simp del: if_cancel
        split: if_splits)
  then show "20 \<le> length data" "seg_ip_pair seg = ip_pair" "pseudo_hdr_cksum data ip_pair Tcp = Inr 0"
    "tcp_flags_try_from (data ! 13) = Inr (seg_flags seg)" "seg_offset_bytes seg = ?off" by blast+
  show "length data \<le> ETHERNET_MTU"
    using * pseudo_hdr_cksum_too_long [of data ip_pair Tcp] by (cases "ETHERNET_MTU < length data") auto
  from * show "segment_ok seg"
    using try_from_iter_Inr(3) unfolding segment_ok_def by blast
  from * show "payload_bytes (seg_payload seg) = (if unat (seg_offset_bytes seg) \<le> length data
      then drop (unat (seg_offset_bytes seg)) data else [])"
    using try_from_iter_Inr(2) [of "if unat ?off \<le> length data then drop (unat ?off) data else []"
        "seg_payload seg"] by simp
qed

section \<open>Properties\<close>

text \<open>
  C11. Every segment the server builds from a decision and that fits one packet is written as 20
  header bytes and the payload, and those bytes parse back to the very segment: ports, sequence and
  acknowledgment numbers, flags, window and payload survive, and the checksum verifies.
\<close>

theorem tcp_roundtrip:
  assumes "pred_option payload_ok (si_payload info)"
    and "20 + length (payload_bytes (si_payload info)) \<le> length buf"
    and "length buf = ETHERNET_MTU - IPV4_HDR_MIN_LEN"
  shows "\<exists>n buf'. tcp_write_into (from_pairs_and_info ip_pair ports info) buf = (Inr n, buf') \<and>
    unat n = 20 + length (payload_bytes (si_payload info)) \<and>
    tcp_inner_parse (take (unat n) buf') ip_pair = Inr (from_pairs_and_info ip_pair ports info)"
proof -
  let ?seg = "from_pairs_and_info ip_pair ports info"
  have seg: "segment_ok ?seg" "length (tcp_wire ?seg) \<le> length buf" "seg_ip_pair ?seg = ip_pair"
      "seg_offset_bytes ?seg = TCP_HDR_MIN_LEN" "seg_payload ?seg = si_payload info"
    using assms by (simp_all add: from_pairs_and_info_def segment_ok_def)
  have w: "tcp_write_into ?seg buf
      = (Inr (of_nat (length (tcp_wire ?seg))), tcp_wire ?seg @ drop (length (tcp_wire ?seg)) buf)"
    using seg assms(3) by (intro tcp_enc.write_into_fits) simp_all
  have n: "unat (of_nat (length (tcp_wire ?seg)) :: u16) = length (tcp_wire ?seg)"
    using seg(2) assms(3) by (intro unat_of_nat_u16) (simp add: ETHERNET_MTU_def)
  have "tcp_inner_parse (tcp_wire ?seg) ip_pair = Inr ?seg"
    using tcp_parse_wire [OF seg(1) _ seg(4)] seg(2,3) assms(3) by simp
  moreover have "take (length (tcp_wire ?seg)) (snd (tcp_write_into ?seg buf)) = tcp_wire ?seg"
    by (simp add: w)
  ultimately show ?thesis
    using n seg(5) w by (metis length_tcp_wire(3) snd_conv)
qed

theorem tcp_roundtrip_witness:
  "\<exists>n buf'. tcp_write_into (from_pairs_and_info (Ipv4AddrPair (Ipv4Addr 10 0 0 1) (Ipv4Addr 10 0 0 2))
       (PortPair 7 50000) \<lparr>si_seq_num = SeqPoint 1000, si_ack_num = SeqPoint 2000, si_flags = Ack,
         si_payload = Some \<lparr>payload_data = [0x68, 0x69], payload_len = 2\<rparr>\<rparr>)
       (replicate 1480 0xFF) = (Inr n, buf') \<and> unat n = 22"
proof -
  let ?info = "\<lparr>si_seq_num = SeqPoint 1000, si_ack_num = SeqPoint 2000, si_flags = Ack,
         si_payload = Some \<lparr>payload_data = [0x68, 0x69], payload_len = 2\<rparr>\<rparr>"
  have "pred_option payload_ok (si_payload ?info)" by (simp add: payload_ok_def)
  from tcp_roundtrip [OF this, of "replicate 1480 0xFF"
      "Ipv4AddrPair (Ipv4Addr 10 0 0 1) (Ipv4Addr 10 0 0 2)" "PortPair 7 50000"]
  show ?thesis by (auto simp: ETHERNET_MTU_def IPV4_HDR_MIN_LEN_def)
qed

text \<open>
  C27. What a segment that parses satisfies: the checksum verifies over pseudo-header and segment,
  the payload has a length a \<open>NonZeroU16\<close> can hold, and it is what follows the data offset. An
  offset past the end of the segment gives no payload rather than an error, and an offset below the
  20 header bytes makes header bytes part of the payload.
\<close>

theorem tcp_parse_sound:
  assumes "tcp_parse data ip_pair = Inr seg"
  shows "calculate (pseudo_header ip_pair Tcp (length data) @ data) = 0 \<and>
    pred_option payload_ok (seg_payload seg) \<and>
    unat (seg_offset_bytes seg) = 4 * unat (drop_bit 4 (data ! 12)) \<and>
    payload_bytes (seg_payload seg) = drop (4 * unat (drop_bit 4 (data ! 12))) data"
proof -
  have p: "tcp_inner_parse data ip_pair = Inr seg" using assms by (simp add: tcp_parse_def)
  note facts = tcp_inner_parse_Inr [OF p]
  have "unat (drop_bit 4 (data ! 12)) < 16"
    using unat_u8_less [of "data ! 12"] by (simp add: unat_drop_bit_div)
  then have "unat (push_bit 2 (drop_bit 4 (data ! 12))) = 4 * unat (drop_bit 4 (data ! 12))"
    by (simp add: push_bit_eq_mult unat_word_ariths)
  with facts show ?thesis
    by (auto simp: segment_ok_def pseudo_hdr_cksum_ok)
qed

theorem tcp_parse_sound_witness:
  "\<exists>seg. tcp_parse [0xC3, 0x50, 0, 7, 0, 0, 3, 0xE8, 0, 0, 7, 0xD0, 0x50, 0x10, 0xFF, 0xFF, 0x64, 0x57, 0, 0, 0x68, 0x69]
     (Ipv4AddrPair (Ipv4Addr 10 0 0 2) (Ipv4Addr 10 0 0 1)) = Inr seg \<and>
   payload_bytes (seg_payload seg) = [0x68, 0x69]"
proof -
  let ?data = "[0xC3, 0x50, 0, 7, 0, 0, 3, 0xE8, 0, 0, 7, 0xD0, 0x50, 0x10, 0xFF, 0xFF, 0x64, 0x57, 0, 0, 0x68, 0x69] :: bytes"
  let ?ip = "Ipv4AddrPair (Ipv4Addr 10 0 0 2) (Ipv4Addr 10 0 0 1) :: remote_ep ipv4_addr_pair"
  have "calculate (pseudo_header ?ip Tcp (length ?data) @ ?data) = 0"
    by (subst calculate_0_iff) (simp_all add: pseudo_header_def u16_to_be_bytes_def)
  then have "pseudo_hdr_cksum ?data ?ip Tcp = Inr 0"
    by (subst pseudo_hdr_cksum_ok) (simp_all add: ETHERNET_MTU_def)
  moreover have "tcp_flags_try_from 0x10 = Inr Ack"
    by (simp add: tcp_flags_try_from_Inr FLAGS_MASK_def flag_bits)
  moreover have "u16_try_from (Suc (Suc 0)) = Inr 2" by (simp add: u16_try_from_def)
  ultimately obtain seg where seg: "tcp_parse ?data ?ip = Inr seg"
    by (simp add: tcp_parse_def tcp_inner_parse_def TCP_HDR_MIN_LEN_def Let_def)
  from tcp_parse_sound [OF seg] seg show ?thesis by auto
qed

end
