(* ===== verification/Pending_Segment.thy ===== *)
theory Pending_Segment
  imports Tcp_Segment
begin

text \<open>
  Sent segments kept for retransmission (\<open>src/protocol/tcp/pending_segment.rs\<close>), with the
  retransmission timeouts of \<open>RtoConfig\<close> (\<open>src/protocol/tcp/connections.rs\<close>).
\<close>

record rto_config =
  rto_initial :: duration
  rto_min :: duration
  rto_max :: duration

record pending_segment =
  ps_send_info :: send_info
  ps_end_seq :: "local_ep seq_point"
  ps_last_sent_at :: instant
  ps_retries :: u8

definition consumes_phantom_byte :: "tcp_flags \<Rightarrow> bool" where
  "consumes_phantom_byte flags \<longleftrightarrow> (case flags of Syn \<Rightarrow> True | SynAck \<Rightarrow> True | FinAck \<Rightarrow> True | _ \<Rightarrow> False)"

definition pending_new :: "send_info \<Rightarrow> instant \<Rightarrow> pending_segment" where
  "pending_new info sent_at =
     (let end_seq = seq_add (seq_add (si_seq_num info)
            (SeqOffset (if consumes_phantom_byte (si_flags info) then 1 else 0)))
            (len_or_default (si_payload info))
      in \<lparr>ps_send_info = info, ps_end_seq = end_seq, ps_last_sent_at = sent_at, ps_retries = 0\<rparr>)"

text \<open>\<open>now\<close> is what \<open>Instant::now\<close> returns should the addition overflow.\<close>

definition time_due :: "rto_config \<Rightarrow> instant \<Rightarrow> pending_segment \<Rightarrow> instant" where
  "time_due cfg now seg =
     (let rto = duration_clamp
            (duration_saturating_mul (rto_initial cfg) (u32_saturating_pow 2 (unat (ps_retries seg))))
            (rto_min cfg) (rto_max cfg)
      in case instant_checked_add (ps_last_sent_at seg) rto of None \<Rightarrow> now | Some t \<Rightarrow> t)"

definition is_covered_by :: "pending_segment \<Rightarrow> local_ep seq_point \<Rightarrow> bool" where
  "is_covered_by seg ack_num \<longleftrightarrow> precedes_or_eq (ps_end_seq seg) ack_num"

definition exhausted_retries :: "pending_segment \<Rightarrow> u8 \<Rightarrow> bool" where
  "exhausted_retries seg max_retries \<longleftrightarrow> ps_retries seg \<ge> max_retries"

definition retransmit_info :: "instant \<Rightarrow> pending_segment \<Rightarrow> send_info \<times> pending_segment" where
  "retransmit_info now seg =
     (ps_send_info seg,
      seg\<lparr>ps_retries := u8_saturating_add (ps_retries seg) 1, ps_last_sent_at := now\<rparr>)"

section \<open>How much sequence space a segment takes\<close>

definition seg_len :: "send_info \<Rightarrow> nat" where
  "seg_len info = (if consumes_phantom_byte (si_flags info) then 1 else 0)
     + length (payload_bytes (si_payload info))"

lemma pending_new_sel [simp]:
  "ps_send_info (pending_new info t) = info" "ps_last_sent_at (pending_new info t) = t"
  "ps_retries (pending_new info t) = 0"
  by (simp_all add: pending_new_def Let_def)

lemma pending_new_dist:
  assumes "pred_option payload_ok (si_payload info)"
  shows "seq_dist (si_seq_num info) (ps_end_seq (pending_new info t)) = seg_len info"
proof -
  have "length (payload_bytes (si_payload info)) < 65536"
    using assms by (cases "si_payload info") (auto dest: payload_ok_length)
  then show ?thesis
    using assms
    by (simp add: pending_new_def Let_def seg_len_def seq_dist_seq_add wrapping_len_or_default)
qed

lemma retransmit_info_simps [simp]:
  "fst (retransmit_info now seg) = ps_send_info seg"
  "ps_send_info (snd (retransmit_info now seg)) = ps_send_info seg"
  "ps_end_seq (snd (retransmit_info now seg)) = ps_end_seq seg"
  "ps_last_sent_at (snd (retransmit_info now seg)) = now"
  by (simp_all add: retransmit_info_def)

section \<open>Retransmission timeouts\<close>

definition rto_ok :: "rto_config \<Rightarrow> bool" where
  "rto_ok cfg \<longleftrightarrow> rto_min cfg \<le> rto_max cfg \<and> rto_max cfg \<le> DURATION_MAX"

text \<open>The exponential backoff without any saturation.\<close>

definition backoff :: "rto_config \<Rightarrow> nat \<Rightarrow> duration" where
  "backoff cfg n = max (rto_min cfg) (min (rto_max cfg) (rto_initial cfg * 2 ^ n))"

lemma backoff_bounds: "rto_ok cfg \<Longrightarrow> rto_min cfg \<le> backoff cfg n \<and> backoff cfg n \<le> rto_max cfg"
  by (auto simp: backoff_def rto_ok_def)

lemma backoff_mono: "m \<le> n \<Longrightarrow> backoff cfg m \<le> backoff cfg n"
  unfolding backoff_def by (intro max.mono min.mono mult_left_mono power_increasing) auto

text \<open>
  The saturating power is harmless when the largest factor it can give already reaches the upper
  bound.
\<close>

definition pow_saturation_harmless :: "rto_config \<Rightarrow> bool" where
  "pow_saturation_harmless cfg \<longleftrightarrow>
     rto_initial cfg = 0 \<or> rto_max cfg \<le> rto_initial cfg * 4294967295"

lemma clamped_rto_eq_backoff:
  assumes "rto_ok cfg" and "pow_saturation_harmless cfg"
  shows "duration_clamp (duration_saturating_mul (rto_initial cfg) (u32_saturating_pow 2 n))
    (rto_min cfg) (rto_max cfg) = backoff cfg n"
proof -
  let ?i = "rto_initial cfg"
  have two: "unat (2 :: u32) = 2" by simp
  have "min (rto_max cfg) (?i * min (2 ^ n) 4294967295) = min (rto_max cfg) (?i * 2 ^ n)"
  proof (cases "(2 :: nat) ^ n \<le> 4294967295")
    case False
    then have "?i * 4294967295 \<le> ?i * 2 ^ n" by (intro mult_left_mono) auto
    then have "?i = 0 \<or> rto_max cfg \<le> ?i * 2 ^ n \<and> rto_max cfg \<le> ?i * 4294967295"
      using assms(2) unfolding pow_saturation_harmless_def by linarith
    moreover have "min (2 ^ n) 4294967295 = (4294967295 :: nat)" using False by simp
    ultimately show ?thesis by (metis min_absorb1 mult_0)
  qed simp
  then show ?thesis
    using assms(1)
    by (auto simp: duration_clamp_def duration_saturating_mul_def unat_u32_saturating_pow two
        backoff_def rto_ok_def min_def max_def split: if_splits)
qed

lemma time_due_eq:
  assumes "rto_ok cfg" and "pow_saturation_harmless cfg"
  shows "time_due cfg now seg =
    (if ps_last_sent_at seg + backoff cfg (unat (ps_retries seg)) \<le> INSTANT_MAX
     then ps_last_sent_at seg + backoff cfg (unat (ps_retries seg)) else now)"
  by (simp add: time_due_def Let_def clamped_rto_eq_backoff [OF assms] instant_checked_add_def)

lemma time_due_ge:
  assumes "rto_ok cfg" and "ps_last_sent_at seg + rto_max cfg \<le> INSTANT_MAX"
  shows "ps_last_sent_at seg + rto_min cfg \<le> time_due cfg now seg"
proof -
  let ?rto = "duration_clamp
    (duration_saturating_mul (rto_initial cfg) (u32_saturating_pow 2 (unat (ps_retries seg))))
    (rto_min cfg) (rto_max cfg)"
  have "rto_min cfg \<le> ?rto" "?rto \<le> rto_max cfg"
    using assms(1) by (auto simp: duration_clamp_def rto_ok_def)
  with assms(2) show ?thesis by (simp add: time_due_def Let_def instant_checked_add_def)
qed

lemma time_due_no_overflow:
  assumes "rto_ok cfg" and "ps_last_sent_at seg + rto_max cfg \<le> INSTANT_MAX"
  shows "time_due cfg now seg = time_due cfg now' seg"
  using assms by (auto simp: time_due_def Let_def instant_checked_add_def duration_clamp_def rto_ok_def)

text \<open>
  On overflow the due time is a clock reading taken when it is asked for. A caller that compares it
  with an earlier reading finds the segment not due, however long it has waited.
\<close>

lemma time_due_overflow:
  assumes "rto_ok cfg" and "INSTANT_MAX < ps_last_sent_at seg + rto_min cfg" and "now < fallback"
  shows "\<not> time_due cfg fallback seg \<le> now"
proof -
  let ?rto = "duration_clamp
    (duration_saturating_mul (rto_initial cfg) (u32_saturating_pow 2 (unat (ps_retries seg))))
    (rto_min cfg) (rto_max cfg)"
  have "rto_min cfg \<le> ?rto" using assms(1) by (auto simp: duration_clamp_def rto_ok_def)
  with assms(2,3) show ?thesis by (simp add: time_due_def Let_def instant_checked_add_def)
qed

end
