(* ===== verification/Tcp_State.thy ===== *)
theory Tcp_State
  imports Pending_Segment
begin

text \<open>
  The state of one TCP connection (\<open>src/protocol/tcp/state.rs\<close>): the connection record, the state
  machine's states with the window each synchronized state carries, the transitions between them,
  the processing of an incoming acknowledgment and the draining of the send buffer. A method
  \<open>fn f(self, conn: &mut ConnState, ..)\<close> returns its result together with the new connection.
\<close>

record window_state =
  snd_wnd :: "(u16, local_ep) seq_offset"
  snd_wl1 :: "remote_ep seq_point"
  snd_wl2 :: "local_ep seq_point"

text \<open>The unit structs that name the states, used as phantom arguments of \<open>SyncedState\<close>.\<close>

datatype syn_received = SynReceivedMark
datatype established = EstablishedMark
datatype fin_wait_1 = FinWait1Mark
datatype fin_wait_2 = FinWait2Mark
datatype closing = ClosingMark
datatype last_ack = LastAckMark

datatype 't synced_state = SyncedState (window_state: window_state)

datatype tcp_state =
    SynReceived syn_received
  | Established "established synced_state"
  | FinWait1 "fin_wait_1 synced_state"
  | FinWait2 "fin_wait_2 synced_state"
  | Closing "closing synced_state"
  | LastAck "last_ack synced_state"

record conn_state =
  tcp_state :: tcp_state
  snd_nxt :: "local_ep seq_point"
  rcv_nxt :: "remote_ep seq_point"
  snd_una :: "local_ep seq_point"
  pending :: "pending_segment list"
  send_buffer :: bytes

definition from_syn_ack :: "instant \<Rightarrow> send_info \<Rightarrow> conn_state result" where
  "from_syn_ack now info =
     (if si_flags info = SynAck then
        Inr \<lparr>tcp_state = SynReceived SynReceivedMark,
             snd_nxt = seq_add (si_seq_num info) LOCAL_SYN_BYTE,
             rcv_nxt = si_ack_num info,
             snd_una = si_seq_num info,
             pending = [pending_new info now],
             send_buffer = []\<rparr>
      else Inl NotSynAck)"

definition establish :: "syn_received \<Rightarrow> remote_segment \<Rightarrow> established synced_state" where
  "establish _ seg =
     SyncedState \<lparr>snd_wnd = seg_window seg, snd_wl1 = seg_seq_num seg, snd_wl2 = seg_ack_num seg\<rparr>"

text \<open>The four methods \<open>synced_state_transition!\<close> generates.\<close>

definition skip_close_wait :: "established synced_state \<Rightarrow> last_ack synced_state" where
  "skip_close_wait s = SyncedState (window_state s)"

definition close :: "established synced_state \<Rightarrow> fin_wait_1 synced_state" where
  "close s = SyncedState (window_state s)"

definition rcv_ack_of_fin :: "fin_wait_1 synced_state \<Rightarrow> fin_wait_2 synced_state" where
  "rcv_ack_of_fin s = SyncedState (window_state s)"

definition rcv_fin_before_fin_is_acked :: "fin_wait_1 synced_state \<Rightarrow> closing synced_state" where
  "rcv_fin_before_fin_is_acked s = SyncedState (window_state s)"

definition incoming_ack_update ::
    "'t synced_state \<Rightarrow> conn_state \<Rightarrow> remote_segment \<Rightarrow> 't synced_state \<times> conn_state" where
  "incoming_ack_update s conn seg =
     (if precedes_or_eq (snd_una conn) (seg_ack_num seg) \<and>
         precedes_or_eq (seg_ack_num seg) (snd_nxt conn)
      then
        let conn = (if precedes (snd_una conn) (seg_ack_num seg)
                    then conn\<lparr>snd_una := seg_ack_num seg,
                              pending := filter (\<lambda>p. \<not> is_covered_by p (seg_ack_num seg)) (pending conn)\<rparr>
                    else conn)
        in if precedes (snd_wl1 (window_state s)) (seg_seq_num seg) \<or>
              snd_wl1 (window_state s) = seg_seq_num seg \<and>
              precedes_or_eq (snd_wl2 (window_state s)) (seg_ack_num seg)
           then (SyncedState \<lparr>snd_wnd = seg_window seg, snd_wl1 = seg_seq_num seg,
                              snd_wl2 = seg_ack_num seg\<rparr>, conn)
           else (s, conn)
      else (s, conn))"

definition drain_transmittable ::
    "established synced_state \<Rightarrow> (conn_state, tcp_payload option) action" where
  "drain_transmittable s conn =
     (case offset_past (snd_nxt conn) (snd_una conn) of
        None \<Rightarrow> (Inl SndUnaPastSndNxt, conn)
      | Some sent_but_not_acked \<Rightarrow>
          let space_in_window = offset_saturating_sub
                (u32_of_u16_offset (snd_wnd (window_state s))) sent_but_not_acked
          in case usize_try_from_offset space_in_window of
               Inl e \<Rightarrow> (Inl e, conn)
             | Inr space \<Rightarrow>
                 let bytes_to_send = min space (length (send_buffer conn))
                 in (try_from_iter (take bytes_to_send (send_buffer conn)),
                     conn\<lparr>send_buffer := drop bytes_to_send (send_buffer conn)\<rparr>))"

section \<open>Sending within the window\<close>

text \<open>Sequence numbers sent and not yet acknowledged.\<close>

abbreviation flight :: "conn_state \<Rightarrow> nat" where
  "flight conn \<equiv> seq_dist (snd_una conn) (snd_nxt conn)"

lemma offset_saturating_sub_unat [simp]:
  "unat (wrapping (offset_saturating_sub a b)) = unat (wrapping a) - unat (wrapping b)"
  by (simp add: offset_saturating_sub_def word_le_nat_alt unat_sub)

definition window_room :: "established synced_state \<Rightarrow> conn_state \<Rightarrow> nat" where
  "window_room s conn =
     min (unat (wrapping (snd_wnd (window_state s))) - flight conn) (length (send_buffer conn))"

lemma window_room_less: "window_room s conn < 65536"
  using unat_u16_less [of "wrapping (snd_wnd (window_state s))"] by (simp add: window_room_def)

lemma drain_transmittable_eq:
  assumes "flight conn \<le> 2147483648"
  shows "drain_transmittable s conn =
    (Inr (if window_room s conn = 0 then None
          else Some \<lparr>payload_data = take (window_room s conn) (send_buffer conn),
                     payload_len = of_nat (window_room s conn)\<rparr>),
     conn\<lparr>send_buffer := drop (window_room s conn) (send_buffer conn)\<rparr>)"
proof -
  let ?n = "window_room s conn"
  have "?n \<le> length (send_buffer conn)" by (simp add: window_room_def)
  then have "try_from_iter (take ?n (send_buffer conn)) = Inr (if ?n = 0 then None
      else Some \<lparr>payload_data = take ?n (send_buffer conn), payload_len = of_nat ?n\<rparr>)"
    using window_room_less [of s conn] by (subst try_from_iter_ok) (auto simp: min_def)
  moreover have "offset_past (snd_nxt conn) (snd_una conn)
      = Some (SeqOffset (raw (snd_nxt conn) - raw (snd_una conn)))"
    using assms by (simp add: offset_past_eq)
  ultimately show ?thesis
    by (simp add: drain_transmittable_def Let_def usize_try_from_offset_def u32_of_u16_offset_def
        window_room_def seq_dist_def)
qed

end
