(* ===== verification/Send_Info.thy ===== *)
theory Send_Info
  imports Tcp_State
begin

text \<open>
  The reply logic for one known connection (\<open>src/protocol/tcp/send_info.rs\<close>): one handler per state,
  as the code has them. \<open>now\<close> is what \<open>Instant::now\<close> returns when the handler records a segment as
  pending. A handler \<open>fn h(seg, conn: &mut ConnState, ..) -> Result<..>\<close> is an action on the
  connection; the handlers of the closing states cannot fail and return their reply, whether the
  connection is to be removed, and the new connection.
\<close>

definition pure_ack :: "conn_state \<Rightarrow> send_info" where
  "pure_ack conn =
     \<lparr>si_seq_num = snd_nxt conn, si_ack_num = rcv_nxt conn, si_flags = Ack, si_payload = None\<rparr>"

definition rst :: "remote_segment \<Rightarrow> send_info" where
  "rst seg =
     \<lparr>si_seq_num = seg_ack_num seg, si_ack_num = SeqPoint 0, si_flags = Rst, si_payload = None\<rparr>"

definition complete_handshake ::
    "remote_segment \<Rightarrow> conn_state \<Rightarrow> syn_received \<Rightarrow> established synced_state \<times> conn_state" where
  "complete_handshake seg conn syn_received =
     (let established = establish syn_received seg
      in (established,
          conn\<lparr>tcp_state := Established established,
               rcv_nxt := seg_seq_num seg,
               snd_una := seg_ack_num seg,
               pending := []\<rparr>))"

definition data_payload :: "instant \<Rightarrow> conn_state \<Rightarrow> tcp_payload \<Rightarrow> send_info \<times> conn_state" where
  "data_payload now conn to_send =
     (let send_len = offset_of_nonzero (payload_len to_send);
          send_info = \<lparr>si_seq_num = snd_nxt conn, si_ack_num = rcv_nxt conn, si_flags = Ack,
                       si_payload = Some to_send\<rparr>;
          conn = conn\<lparr>snd_nxt := seq_add (snd_nxt conn) send_len\<rparr>;
          conn = conn\<lparr>pending := pending conn @ [pending_new send_info now]\<rparr>
      in (send_info, conn))"

text \<open>\<open>conn.rcv_nxt += payload.len(); conn.send_buffer.extend(payload)\<close>, as three handlers do.\<close>

definition accept_payload :: "tcp_payload \<Rightarrow> conn_state \<Rightarrow> conn_state" where
  "accept_payload payload conn =
     conn\<lparr>rcv_nxt := seq_add (rcv_nxt conn) (offset_of_nonzero (payload_len payload)),
          send_buffer := send_buffer conn @ payload_data payload\<rparr>"

text \<open>Draining the buffer and sending what was drained, or else a pure ACK.\<close>

definition drain_or_ack ::
    "instant \<Rightarrow> established synced_state \<Rightarrow> (conn_state, send_info) action" where
  "drain_or_ack now established conn =
     (case drain_transmittable established conn of
        (Inl e, conn) \<Rightarrow> (Inl e, conn)
      | (Inr (Some to_send), conn) \<Rightarrow>
          (let (info, conn) = data_payload now conn to_send in (Inr info, conn))
      | (Inr None, conn) \<Rightarrow> (Inr (pure_ack conn), conn))"

definition begin_passive_close_without_close_wait ::
    "instant \<Rightarrow> remote_segment \<Rightarrow> tcp_payload option \<Rightarrow> established synced_state \<Rightarrow>
       (conn_state, send_info) action" where
  "begin_passive_close_without_close_wait now seg maybe_payload old_established conn =
     (let conn = (case maybe_payload of None \<Rightarrow> conn | Some payload \<Rightarrow> accept_payload payload conn);
          conn = conn\<lparr>rcv_nxt := seq_add (rcv_nxt conn) REMOTE_FIN_BYTE\<rparr>;
          (new_established, conn) = incoming_ack_update old_established conn seg
      in case drain_transmittable new_established conn of
           (Inl e, conn) \<Rightarrow> (Inl e, conn)
         | (Inr to_send, conn) \<Rightarrow>
             let send_len = len_or_default to_send;
                 conn = conn\<lparr>tcp_state := LastAck (skip_close_wait new_established)\<rparr>;
                 send_info = \<lparr>si_seq_num = snd_nxt conn, si_ack_num = rcv_nxt conn,
                              si_flags = FinAck, si_payload = to_send\<rparr>;
                 conn = conn\<lparr>snd_nxt := seq_add (snd_nxt conn) send_len\<rparr>;
                 conn = conn\<lparr>snd_nxt := seq_add (snd_nxt conn) LOCAL_FIN_BYTE\<rparr>;
                 conn = conn\<lparr>pending := pending conn @ [pending_new send_info now]\<rparr>
             in (Inr send_info, conn))"

definition handle_syn_rcv ::
    "instant \<Rightarrow> remote_segment \<Rightarrow> syn_received \<Rightarrow> (conn_state, send_info option) action" where
  "handle_syn_rcv now seg syn_received conn =
     (if seg_flags seg = Syn then
        let send_info = \<lparr>si_seq_num = snd_una conn,
                         si_ack_num = seq_add (seg_seq_num seg) REMOTE_SYN_BYTE,
                         si_flags = SynAck, si_payload = None\<rparr>
        in (Inr (Some send_info), conn\<lparr>pending := pending conn @ [pending_new send_info now]\<rparr>)
      else if (seg_flags seg = Ack \<or> seg_flags seg = FinAck) \<and> seg_seq_num seg \<noteq> rcv_nxt conn then
        (Inr (Some (pure_ack conn)), conn)
      else if seg_flags seg = Ack \<and> seg_seq_num seg = rcv_nxt conn \<and>
              precedes (snd_una conn) (seg_ack_num seg) \<and>
              precedes_or_eq (seg_ack_num seg) (snd_nxt conn) then
        let (established, conn) = complete_handshake seg conn syn_received
        in case seg_payload seg of
             None \<Rightarrow> (Inr None, conn)
           | Some payload \<Rightarrow>
               act_bind (drain_or_ack now established) (\<lambda>info. act_return (Some info))
                 (accept_payload payload conn)
      else if seg_flags seg = FinAck \<and> seg_seq_num seg = rcv_nxt conn \<and>
              precedes (snd_una conn) (seg_ack_num seg) \<and>
              precedes_or_eq (seg_ack_num seg) (snd_nxt conn) then
        let (established, conn) = complete_handshake seg conn syn_received
        in act_bind (begin_passive_close_without_close_wait now seg (seg_payload seg) established)
             (\<lambda>info. act_return (Some info)) conn
      else (Inr (Some (rst seg)), conn))"

definition handle_established ::
    "instant \<Rightarrow> remote_segment \<Rightarrow> established synced_state \<Rightarrow> (conn_state, send_info option) action" where
  "handle_established now seg established conn =
     (if seg_flags seg = Ack \<and> precedes (snd_nxt conn) (seg_ack_num seg) then
        (Inr (Some (pure_ack conn)), conn)
      else if seg_flags seg = Ack \<and> seg_payload seg = None then
        let (new_established, conn) = incoming_ack_update established conn seg;
            conn = conn\<lparr>tcp_state := Established new_established\<rparr>
        in case drain_transmittable new_established conn of
             (Inl e, conn) \<Rightarrow> (Inl e, conn)
           | (Inr None, conn) \<Rightarrow> (Inr None, conn)
           | (Inr (Some to_send), conn) \<Rightarrow>
               (let (info, conn) = data_payload now conn to_send in (Inr (Some info), conn))
      else if seg_flags seg = Ack \<and> seg_payload seg \<noteq> None \<and> seg_seq_num seg = rcv_nxt conn then
        let (new_established, conn) = incoming_ack_update established conn seg;
            conn = conn\<lparr>tcp_state := Established new_established\<rparr>
        in act_bind (drain_or_ack now new_established) (\<lambda>info. act_return (Some info))
             (accept_payload (the (seg_payload seg)) conn)
      else if (seg_flags seg = Ack \<or> seg_flags seg = FinAck) \<and> seg_seq_num seg \<noteq> rcv_nxt conn then
        let (new_established, conn) = incoming_ack_update established conn seg;
            conn = conn\<lparr>tcp_state := Established new_established\<rparr>
        in (Inr (Some (pure_ack conn)), conn)
      else if seg_flags seg = FinAck \<and> seg_seq_num seg = rcv_nxt conn then
        act_bind (begin_passive_close_without_close_wait now seg (seg_payload seg) established)
          (\<lambda>info. act_return (Some info)) conn
      else (Inr (Some (rst seg)), conn))"

definition handle_fin_wait_1 ::
    "remote_segment \<Rightarrow> fin_wait_1 synced_state \<Rightarrow> conn_state \<Rightarrow>
       (send_info option \<times> bool) \<times> conn_state" where
  "handle_fin_wait_1 seg fin_wait_1 conn =
     (if seg_flags seg = Ack \<and> seg_payload seg \<noteq> None \<and> seg_seq_num seg = rcv_nxt conn then
        let conn = conn\<lparr>rcv_nxt := seq_add (rcv_nxt conn)
                     (offset_of_nonzero (payload_len (the (seg_payload seg))))\<rparr>;
            send_info = pure_ack conn;
            (new_state, conn) = incoming_ack_update fin_wait_1 conn seg
        in ((Some send_info, False), conn\<lparr>tcp_state := FinWait1 new_state\<rparr>)
      else if seg_flags seg = Ack \<and> seg_payload seg = None \<and> seg_ack_num seg = snd_nxt conn then
        let (new_state, conn) = incoming_ack_update fin_wait_1 conn seg
        in ((None, False), conn\<lparr>tcp_state := FinWait2 (rcv_ack_of_fin new_state)\<rparr>)
      else if seg_flags seg = FinAck \<and> seg_seq_num seg = rcv_nxt conn \<and>
              seg_ack_num seg = snd_nxt conn then
        let conn = conn\<lparr>rcv_nxt := seq_add (rcv_nxt conn) (len_or_default (seg_payload seg))\<rparr>;
            conn = conn\<lparr>rcv_nxt := seq_add (rcv_nxt conn) REMOTE_FIN_BYTE\<rparr>
        in ((Some (pure_ack conn), True), conn)
      else if seg_flags seg = FinAck \<and> seg_seq_num seg = rcv_nxt conn \<and>
              seg_ack_num seg \<noteq> snd_nxt conn then
        let conn = conn\<lparr>rcv_nxt := seq_add (rcv_nxt conn) (len_or_default (seg_payload seg))\<rparr>;
            conn = conn\<lparr>rcv_nxt := seq_add (rcv_nxt conn) REMOTE_FIN_BYTE\<rparr>;
            send_info = pure_ack conn;
            (new_state, conn) = incoming_ack_update fin_wait_1 conn seg
        in ((Some send_info, False),
            conn\<lparr>tcp_state := Closing (rcv_fin_before_fin_is_acked new_state)\<rparr>)
      else ((Some (rst seg), False), conn))"

definition handle_fin_wait_2 ::
    "remote_segment \<Rightarrow> fin_wait_2 synced_state \<Rightarrow> conn_state \<Rightarrow> (send_info \<times> bool) \<times> conn_state" where
  "handle_fin_wait_2 seg fin_wait_2 conn =
     (if seg_flags seg = Ack \<and> seg_payload seg \<noteq> None \<and> seg_seq_num seg = rcv_nxt conn then
        let conn = conn\<lparr>rcv_nxt := seq_add (rcv_nxt conn)
                     (offset_of_nonzero (payload_len (the (seg_payload seg))))\<rparr>;
            send_info = pure_ack conn;
            (new_state, conn) = incoming_ack_update fin_wait_2 conn seg
        in ((send_info, False), conn\<lparr>tcp_state := FinWait2 new_state\<rparr>)
      else if seg_flags seg = FinAck \<and> seg_seq_num seg = rcv_nxt conn then
        let conn = conn\<lparr>rcv_nxt := seq_add (rcv_nxt conn) (len_or_default (seg_payload seg))\<rparr>;
            conn = conn\<lparr>rcv_nxt := seq_add (rcv_nxt conn) REMOTE_FIN_BYTE\<rparr>
        in ((pure_ack conn, True), conn)
      else ((rst seg, False), conn))"

definition handle_closing ::
    "remote_segment \<Rightarrow> closing synced_state \<Rightarrow> conn_state \<Rightarrow> send_info option \<times> bool" where
  "handle_closing seg closing conn =
     (if seg_flags seg = Ack \<and> seg_payload seg = None \<and> seg_ack_num seg = snd_nxt conn
      then (None, True)
      else (Some (rst seg), False))"

definition handle_last_ack ::
    "remote_segment \<Rightarrow> last_ack synced_state \<Rightarrow> conn_state \<Rightarrow>
       (send_info option \<times> bool) \<times> conn_state" where
  "handle_last_ack seg last_ack conn =
     (if seg_flags seg = Ack \<and> seg_payload seg = None \<and> seg_ack_num seg \<noteq> snd_nxt conn then
        let (new_state, conn) = incoming_ack_update last_ack conn seg
        in ((None, False), conn\<lparr>tcp_state := LastAck new_state\<rparr>)
      else if seg_flags seg = Ack \<and> seg_payload seg = None \<and> seg_ack_num seg = snd_nxt conn
      then ((None, True), conn)
      else ((Some (rst seg), False), conn))"

end
