(* ===== verification/Send_Side.thy ===== *)
theory Send_Side
  imports Send_Info
begin

text \<open>
  The send side of a connection is the triple of SND.UNA, SND.NXT and the retransmission queue. Its
  invariants are stated as an interface: what an invariant must satisfy at every operation the
  handlers perform on that triple. The handlers are then verified once for any such invariant
  (theory \<open>Handlers\<close>), and the interface is provided twice: by an invariant every reachable state
  has whatever the peer sends, and by a sharper one that holds as long as the peer does not
  acknowledge the point half the sequence space away.
\<close>

locale send_side =
  fixes open_ok closed_ok :: "local_ep seq_point \<Rightarrow> local_ep seq_point \<Rightarrow> pending_segment list \<Rightarrow> bool"
    and ack_ok :: "local_ep seq_point \<Rightarrow> local_ep seq_point \<Rightarrow> local_ep seq_point \<Rightarrow> bool"
  assumes open_start: "open_ok una una []"
    and open_flight: "open_ok una nxt ps \<Longrightarrow> seq_dist una nxt \<le> 2147483648"
    and open_closed: "open_ok una nxt ps \<Longrightarrow> closed_ok una nxt ps"
    and closed_payload:
      "closed_ok una nxt ps \<Longrightarrow> p \<in> set ps \<Longrightarrow> pred_option payload_ok (si_payload (ps_send_info p))"
    and open_ack:
      "open_ok una nxt ps \<Longrightarrow> ack_ok una nxt ack \<Longrightarrow> precedes una ack \<Longrightarrow> precedes_or_eq ack nxt \<Longrightarrow>
        open_ok ack nxt (filter (\<lambda>p. \<not> is_covered_by p ack) ps)"
    and closed_ack:
      "closed_ok una nxt ps \<Longrightarrow> ack_ok una nxt ack \<Longrightarrow> precedes una ack \<Longrightarrow> precedes_or_eq ack nxt \<Longrightarrow>
        closed_ok ack nxt (filter (\<lambda>p. \<not> is_covered_by p ack) ps)"
    and open_send:
      "open_ok una nxt ps \<Longrightarrow> payload_ok pl \<Longrightarrow> seq_dist una nxt + length (payload_data pl) \<le> 65535 \<Longrightarrow>
        si_seq_num info = nxt \<Longrightarrow> si_flags info = Ack \<Longrightarrow> si_payload info = Some pl \<Longrightarrow>
        open_ok una (seq_add nxt (offset_of_nonzero (payload_len pl))) (ps @ [pending_new info now])"
    and open_fin:
      "open_ok una nxt ps \<Longrightarrow> pred_option payload_ok v \<Longrightarrow>
        v = None \<or> seq_dist una nxt + length (payload_bytes v) \<le> 65535 \<Longrightarrow>
        si_seq_num info = nxt \<Longrightarrow> si_flags info = FinAck \<Longrightarrow> si_payload info = v \<Longrightarrow>
        closed_ok una (seq_add (seq_add nxt (len_or_default v)) LOCAL_FIN_BYTE)
          (ps @ [pending_new info now])"
    and open_resend:
      "open_ok una nxt ps \<Longrightarrow>
        open_ok una nxt (map (\<lambda>p. if due p then snd (retransmit_info now p) else p) ps)"
    and closed_resend:
      "closed_ok una nxt ps \<Longrightarrow>
        closed_ok una nxt (map (\<lambda>p. if due p then snd (retransmit_info now p) else p) ps)"

section \<open>What an acknowledgment does to distances\<close>

lemma ack_splits_flight:
  assumes "precedes una ack" and "precedes_or_eq ack nxt" and "seq_dist una nxt \<le> 2147483649"
  shows "seq_dist una ack \<le> seq_dist una nxt \<and> seq_dist ack nxt = seq_dist una nxt - seq_dist una ack
    \<or> una = nxt \<and> seq_dist una ack = 2147483648 \<and> seq_dist ack nxt = 2147483648"
proof -
  let ?a = "seq_dist una ack" and ?b = "seq_dist ack nxt" and ?d = "seq_dist una nxt"
  have bounds: "0 < ?a" "?a \<le> 2147483648" "?b \<le> 2147483648"
    using assms(1,2) by (simp_all add: seq_simps)
  have tri: "?d = (?a + ?b) mod 4294967296" by (rule seq_dist_triangle)
  show ?thesis
  proof (cases "?a + ?b < 4294967296")
    case True
    with tri show ?thesis by simp
  next
    case False
    with bounds have "?a = 2147483648" "?b = 2147483648" by linarith+
    with tri show ?thesis by simp
  qed
qed

text \<open>
  A queued segment ends strictly after SND.UNA and at or before SND.NXT, and its end is where its
  length puts it.
\<close>

definition pend_ok :: "local_ep seq_point \<Rightarrow> local_ep seq_point \<Rightarrow> pending_segment \<Rightarrow> bool" where
  "pend_ok una nxt p \<longleftrightarrow>
     0 < seq_dist una (ps_end_seq p) \<and> seq_dist una (ps_end_seq p) \<le> seq_dist una nxt \<and>
     pred_option payload_ok (si_payload (ps_send_info p)) \<and>
     seq_dist (si_seq_num (ps_send_info p)) (ps_end_seq p) = seg_len (ps_send_info p)"

lemma pend_ok_ack:
  assumes "pend_ok una nxt p" and "\<not> is_covered_by p ack"
    and "seq_dist una ack \<le> seq_dist una nxt" and "seq_dist una ack \<le> 2147483648"
  shows "pend_ok ack nxt p"
    and "seq_dist ack (ps_end_seq p) = seq_dist una (ps_end_seq p) - seq_dist una ack"
    and "seq_dist una ack < seq_dist una (ps_end_seq p)"
proof -
  let ?e = "seq_dist una (ps_end_seq p)" and ?a = "seq_dist una ack"
  show gt: "?a < ?e"
  proof (rule ccontr)
    assume "\<not> ?a < ?e"
    then have "seq_dist (ps_end_seq p) ack = ?a - ?e" by (intro seq_dist_diff) simp
    with assms(2,4) show False by (simp add: is_covered_by_def seq_simps)
  qed
  then show diff: "seq_dist ack (ps_end_seq p) = ?e - ?a" by (intro seq_dist_diff) simp
  have "seq_dist ack nxt = seq_dist una nxt - ?a" using assms(3) by (rule seq_dist_diff)
  with assms(1) gt diff show "pend_ok ack nxt p" unfolding pend_ok_def by linarith
qed

lemma pend_ok_extend:
  assumes "pend_ok una nxt p" and "seq_dist una nxt \<le> seq_dist una nxt'"
  shows "pend_ok una nxt' p"
  using assms unfolding pend_ok_def by linarith

lemma pend_ok_new:
  assumes "pred_option payload_ok (si_payload info)" and "0 < seg_len info"
    and "seq_dist una (si_seq_num info) + seg_len info < 4294967296"
    and "seq_dist una nxt' = seq_dist una (si_seq_num info) + seg_len info"
  shows "pend_ok una nxt' (pending_new info now)"
    and "seq_dist una (ps_end_seq (pending_new info now)) = seq_dist una nxt'"
proof -
  have d: "seq_dist (si_seq_num info) (ps_end_seq (pending_new info now)) = seg_len info"
    using assms(1) by (rule pending_new_dist)
  then show e: "seq_dist una (ps_end_seq (pending_new info now)) = seq_dist una nxt'"
    using assms(3,4) seq_dist_trans [of una "si_seq_num info" "ps_end_seq (pending_new info now)"] by simp
  show "pend_ok una nxt' (pending_new info now)"
    unfolding pend_ok_def using assms d e by simp
qed

lemma pend_ok_resend [simp]: "pend_ok una nxt (snd (retransmit_info now p)) \<longleftrightarrow> pend_ok una nxt p"
  by (simp add: pend_ok_def)

section \<open>Two invariants\<close>

text \<open>At most \<open>b\<close> sequence numbers are unacknowledged, and every queued segment is among them.\<close>

definition in_flight_ok :: "nat \<Rightarrow> local_ep seq_point \<Rightarrow> local_ep seq_point \<Rightarrow> pending_segment list \<Rightarrow> bool" where
  "in_flight_ok b una nxt ps \<longleftrightarrow> seq_dist una nxt \<le> b \<and> (\<forall>p \<in> set ps. pend_ok una nxt p)"

text \<open>Every unacknowledged sequence number lies in a queued segment, so that its loss is repaired.\<close>

definition covered :: "local_ep seq_point \<Rightarrow> local_ep seq_point \<Rightarrow> pending_segment list \<Rightarrow> bool" where
  "covered una nxt ps \<longleftrightarrow>
     (\<forall>k < seq_dist una nxt. \<exists>p \<in> set ps.
        k < seq_dist una (ps_end_seq p) \<and>
        seq_dist una (ps_end_seq p) \<le> k + seg_len (ps_send_info p))"

definition complete_ok :: "nat \<Rightarrow> local_ep seq_point \<Rightarrow> local_ep seq_point \<Rightarrow> pending_segment list \<Rightarrow> bool" where
  "complete_ok b una nxt ps \<longleftrightarrow> in_flight_ok b una nxt ps \<and> covered una nxt ps"

text \<open>The one acknowledgment the wrap-around order takes for both old and new.\<close>

definition not_antipodal :: "local_ep seq_point \<Rightarrow> local_ep seq_point \<Rightarrow> local_ep seq_point \<Rightarrow> bool" where
  "not_antipodal una nxt ack \<longleftrightarrow> \<not> (una = nxt \<and> raw ack = raw una + 2147483648)"

lemma antipodal_iff_dist: "raw ack = raw una + 2147483648 \<longleftrightarrow> seq_dist una ack = 2147483648"
proof -
  have "raw ack = raw una + 2147483648 \<longleftrightarrow> raw ack - raw una = 2147483648" by (auto simp: algebra_simps)
  then show ?thesis by (simp add: seq_dist_def word_unat_eq_iff)
qed

lemma in_flight_ack:
  assumes "in_flight_ok b una nxt ps" and "precedes una ack" and "precedes_or_eq ack nxt"
    and "2147483648 \<le> b" and "b \<le> 2147483649"
  shows "in_flight_ok b ack nxt (filter (\<lambda>p. \<not> is_covered_by p ack) ps)"
proof -
  have d: "seq_dist una nxt \<le> 2147483649" using assms(1,5) by (simp add: in_flight_ok_def)
  have a: "seq_dist una ack \<le> 2147483648" using assms(2) by (simp add: seq_simps)
  from ack_splits_flight [OF assms(2,3) d] show ?thesis
  proof
    assume "una = nxt \<and> seq_dist una ack = 2147483648 \<and> seq_dist ack nxt = 2147483648"
    moreover from this have "ps = []"
      using assms(1) by (cases ps) (auto simp: in_flight_ok_def pend_ok_def)
    ultimately show ?thesis using assms(4) by (simp add: in_flight_ok_def)
  next
    assume "seq_dist una ack \<le> seq_dist una nxt \<and> seq_dist ack nxt = seq_dist una nxt - seq_dist una ack"
    with assms(1) a show ?thesis by (auto simp: in_flight_ok_def intro: pend_ok_ack(1))
  qed
qed

lemma complete_ack:
  assumes "complete_ok b una nxt ps" and "not_antipodal una nxt ack"
    and "precedes una ack" and "precedes_or_eq ack nxt" and "b \<le> 65536"
  shows "complete_ok b ack nxt (filter (\<lambda>p. \<not> is_covered_by p ack) ps)"
proof -
  let ?a = "seq_dist una ack"
  have fl: "in_flight_ok b una nxt ps" and cov: "covered una nxt ps"
    using assms(1) by (simp_all add: complete_ok_def)
  have d: "seq_dist una nxt \<le> 65536" using fl assms(5) by (simp add: in_flight_ok_def)
  then have split: "?a \<le> seq_dist una nxt" "seq_dist ack nxt = seq_dist una nxt - ?a"
    using ack_splits_flight [OF assms(3,4)] assms(2)
    by (auto simp: not_antipodal_def antipodal_iff_dist)
  have kept: "\<not> is_covered_by p ack" if "p \<in> set ps" "?a < seq_dist una (ps_end_seq p)" for p
  proof -
    have "seq_dist ack (ps_end_seq p) = seq_dist una (ps_end_seq p) - ?a"
      using that(2) by (intro seq_dist_diff) simp
    moreover have "seq_dist una (ps_end_seq p) \<le> 65536"
      using that(1) fl d by (auto simp: in_flight_ok_def pend_ok_def)
    ultimately have e: "seq_dist ack (ps_end_seq p) \<le> 65536" "0 < seq_dist ack (ps_end_seq p)"
      using that(2) by linarith+
    then have "ack \<noteq> ps_end_seq p" by auto
    from seq_dist_flip [OF this] e show ?thesis by (simp add: is_covered_by_def seq_simps)
  qed
  have "covered ack nxt (filter (\<lambda>p. \<not> is_covered_by p ack) ps)"
    unfolding covered_def
  proof (intro allI impI)
    fix k assume "k < seq_dist ack nxt"
    then have "k + ?a < seq_dist una nxt" using split by simp
    with cov obtain p where p: "p \<in> set ps" "k + ?a < seq_dist una (ps_end_seq p)"
      "seq_dist una (ps_end_seq p) \<le> k + ?a + seg_len (ps_send_info p)"
      unfolding covered_def by blast
    moreover have "seq_dist ack (ps_end_seq p) = seq_dist una (ps_end_seq p) - ?a"
      using p(2) by (intro seq_dist_diff) simp
    ultimately show "\<exists>p \<in> set (filter (\<lambda>p. \<not> is_covered_by p ack) ps).
        k < seq_dist ack (ps_end_seq p) \<and> seq_dist ack (ps_end_seq p) \<le> k + seg_len (ps_send_info p)"
      using kept [of p] by (intro bexI [of _ p]) auto
  qed
  moreover have "in_flight_ok b ack nxt (filter (\<lambda>p. \<not> is_covered_by p ack) ps)"
    using fl split d by (auto simp: in_flight_ok_def intro: pend_ok_ack(1))
  ultimately show ?thesis by (simp add: complete_ok_def)
qed

text \<open>Sending a segment of length \<open>n\<close> at SND.NXT.\<close>

lemma in_flight_push:
  assumes "in_flight_ok b una nxt ps" and "pred_option payload_ok (si_payload info)"
    and "si_seq_num info = nxt" and "0 < seg_len info"
    and "seq_dist una nxt' = seq_dist una nxt + seg_len info"
    and "seq_dist una nxt + seg_len info \<le> b'" and "b' < 4294967296"
  shows "in_flight_ok b' una nxt' (ps @ [pending_new info now])"
  using assms pend_ok_new(1) [of info una nxt' now]
  by (auto simp: in_flight_ok_def intro: pend_ok_extend)

lemma covered_push:
  assumes "covered una nxt ps" and "pred_option payload_ok (si_payload info)"
    and "si_seq_num info = nxt" and "0 < seg_len info"
    and "seq_dist una nxt' = seq_dist una nxt + seg_len info"
    and "seq_dist una nxt + seg_len info < 4294967296"
  shows "covered una nxt' (ps @ [pending_new info now])"
  unfolding covered_def
proof (intro allI impI)
  fix k assume k: "k < seq_dist una nxt'"
  have e: "seq_dist una (ps_end_seq (pending_new info now)) = seq_dist una nxt'"
    using assms by (intro pend_ok_new(2)) simp_all
  show "\<exists>p \<in> set (ps @ [pending_new info now]).
      k < seq_dist una (ps_end_seq p) \<and> seq_dist una (ps_end_seq p) \<le> k + seg_len (ps_send_info p)"
  proof (cases "k < seq_dist una nxt")
    case True
    with assms(1) show ?thesis unfolding covered_def by auto
  next
    case False
    with k e assms(5) show ?thesis by (intro bexI [of _ "pending_new info now"]) auto
  qed
qed

lemma in_flight_resend:
  "in_flight_ok b una nxt ps \<Longrightarrow>
     in_flight_ok b una nxt (map (\<lambda>p. if due p then snd (retransmit_info now p) else p) ps)"
  by (auto simp: in_flight_ok_def)

lemma covered_resend:
  assumes "covered una nxt ps"
  shows "covered una nxt (map (\<lambda>p. if due p then snd (retransmit_info now p) else p) ps)"
  unfolding covered_def
proof (intro allI impI)
  fix k assume "k < seq_dist una nxt"
  with assms obtain p where "p \<in> set ps" "k < seq_dist una (ps_end_seq p)"
    "seq_dist una (ps_end_seq p) \<le> k + seg_len (ps_send_info p)"
    unfolding covered_def by blast
  then show "\<exists>q \<in> set (map (\<lambda>p. if due p then snd (retransmit_info now p) else p) ps).
      k < seq_dist una (ps_end_seq q) \<and> seq_dist una (ps_end_seq q) \<le> k + seg_len (ps_send_info q)"
    by (intro bexI [of _ "if due p then snd (retransmit_info now p) else p"]) auto
qed

text \<open>How far SND.NXT moves when data, or data and a FIN, are sent.\<close>

lemma sent_data_dist:
  fixes una nxt :: "local_ep seq_point"
  assumes "payload_ok pl" and "seq_dist una nxt + length (payload_data pl) < 4294967296"
  shows "seq_dist una (seq_add nxt (offset_of_nonzero (payload_len pl)))
    = seq_dist una nxt + length (payload_data pl)"
  using assms by (subst seq_dist_seq_add) (auto simp: payload_ok_def offset_of_nonzero_def)

lemma sent_fin_dist:
  fixes una nxt :: "local_ep seq_point"
  assumes "pred_option payload_ok v" and "seq_dist una nxt + length (payload_bytes v) + 1 < 4294967296"
  shows "seq_dist una (seq_add (seq_add nxt (len_or_default v)) LOCAL_FIN_BYTE)
    = seq_dist una nxt + length (payload_bytes v) + 1"
proof -
  have "seq_dist una (seq_add nxt (len_or_default v)) = seq_dist una nxt + length (payload_bytes v)"
    using assms by (subst seq_dist_seq_add) (auto simp: wrapping_len_or_default)
  with assms(2) show ?thesis by (subst seq_dist_seq_add) (auto simp: LOCAL_FIN_BYTE_def)
qed

lemma in_flight_send:
  assumes "in_flight_ok b una nxt ps" and "payload_ok pl"
    and "seq_dist una nxt + length (payload_data pl) \<le> 65535" and "65535 \<le> b" and "b < 4294967296"
    and "si_seq_num info = nxt" and "si_flags info = Ack" and "si_payload info = Some pl"
  shows "in_flight_ok b una (seq_add nxt (offset_of_nonzero (payload_len pl))) (ps @ [pending_new info now])"
  using assms payload_ok_length [OF assms(2)]
  by (intro in_flight_push [OF assms(1)])
     (auto simp: seg_len_def consumes_phantom_byte_def sent_data_dist)

lemma in_flight_fin:
  assumes "in_flight_ok b una nxt ps" and "pred_option payload_ok v"
    and "v = None \<or> seq_dist una nxt + length (payload_bytes v) \<le> 65535"
    and "65535 \<le> b" and "b < 4294967295"
    and "si_seq_num info = nxt" and "si_flags info = FinAck" and "si_payload info = v"
  shows "in_flight_ok (b + 1) una (seq_add (seq_add nxt (len_or_default v)) LOCAL_FIN_BYTE)
    (ps @ [pending_new info now])"
proof -
  have d: "seq_dist una nxt + length (payload_bytes v) \<le> b"
    using assms(1,3,4) by (auto simp: in_flight_ok_def)
  with assms(2,5) have "seq_dist una (seq_add (seq_add nxt (len_or_default v)) LOCAL_FIN_BYTE)
      = seq_dist una nxt + seg_len info"
    by (subst sent_fin_dist) (auto simp: seg_len_def consumes_phantom_byte_def assms(7,8))
  with assms d show ?thesis
    by (intro in_flight_push [OF assms(1)]) (auto simp: seg_len_def consumes_phantom_byte_def)
qed

lemma covered_send:
  assumes "complete_ok b una nxt ps" and "payload_ok pl"
    and "seq_dist una nxt + length (payload_data pl) \<le> 65535"
    and "si_seq_num info = nxt" and "si_flags info = Ack" and "si_payload info = Some pl"
  shows "covered una (seq_add nxt (offset_of_nonzero (payload_len pl))) (ps @ [pending_new info now])"
  using assms payload_ok_length [OF assms(2)]
  by (intro covered_push)
     (auto simp: complete_ok_def seg_len_def consumes_phantom_byte_def sent_data_dist)

lemma covered_fin:
  assumes "complete_ok b una nxt ps" and "b \<le> 65535" and "pred_option payload_ok v"
    and "v = None \<or> seq_dist una nxt + length (payload_bytes v) \<le> 65535"
    and "si_seq_num info = nxt" and "si_flags info = FinAck" and "si_payload info = v"
  shows "covered una (seq_add (seq_add nxt (len_or_default v)) LOCAL_FIN_BYTE)
    (ps @ [pending_new info now])"
proof -
  have d: "seq_dist una nxt + length (payload_bytes v) \<le> 65535"
    using assms(1,2,4) by (auto simp: complete_ok_def in_flight_ok_def)
  with assms show ?thesis
    by (intro covered_push [of una nxt])
       (auto simp: complete_ok_def seg_len_def consumes_phantom_byte_def sent_fin_dist)
qed

text \<open>
  The invariant every state has: half the sequence space in flight at most, one more once the FIN is
  sent.
\<close>

interpretation any_peer: send_side "in_flight_ok 2147483648" "in_flight_ok 2147483649" "\<lambda>_ _ _. True"
proof (unfold_locales, goal_cases)
  case (7 una nxt ps pl info now)
  then show ?case by (intro in_flight_send) auto
next
  case (8 una nxt ps v info now)
  from in_flight_fin [OF this(1-3) _ _ this(4-6)] show ?case by simp
next
  case (5 una nxt ps ack)
  then show ?case by (intro in_flight_ack) auto
next
  case (6 una nxt ps ack)
  then show ?case by (intro in_flight_ack) auto
qed (auto simp: in_flight_ok_def pend_ok_def)

text \<open>
  The sharper invariant: a full window in flight at most, one more once the FIN is sent, and all of
  it queued for retransmission.
\<close>

interpretation sane_peer: send_side "complete_ok 65535" "complete_ok 65536" not_antipodal
proof (unfold_locales, goal_cases)
  case (1 una)
  show ?case by (simp add: complete_ok_def in_flight_ok_def covered_def)
next
  case (7 una nxt ps pl info now)
  then show ?case using in_flight_send [of 65535 una nxt ps pl info now] covered_send [of 65535]
    by (simp add: complete_ok_def)
next
  case (8 una nxt ps v info now)
  then show ?case using in_flight_fin [of 65535 una nxt ps v info now] covered_fin [of 65535]
    by (simp add: complete_ok_def)
next
  case (5 una nxt ps ack)
  then show ?case by (intro complete_ack) auto
next
  case (6 una nxt ps ack)
  then show ?case by (intro complete_ack) auto
next
  case (9 una nxt ps due now)
  then show ?case by (simp add: complete_ok_def in_flight_resend covered_resend)
next
  case (10 una nxt ps due now)
  then show ?case by (simp add: complete_ok_def in_flight_resend covered_resend)
qed (auto simp: complete_ok_def in_flight_ok_def pend_ok_def)

end
