(* ===== verification/Handlers.thy ===== *)
theory Handlers
  imports Send_Side
begin

text \<open>
  The handlers of \<open>Send_Info\<close> verified: closed forms of their building blocks, and, for any
  invariant of the send side, that every handler succeeds, keeps the invariant and replies with a
  well-formed payload.
\<close>

section \<open>Closed forms\<close>

text \<open>What an acknowledgment does to the connection does not depend on the state's window.\<close>

definition ack_conn :: "conn_state \<Rightarrow> remote_segment \<Rightarrow> conn_state" where
  "ack_conn conn seg =
     (if precedes (snd_una conn) (seg_ack_num seg) \<and> precedes_or_eq (seg_ack_num seg) (snd_nxt conn)
      then conn\<lparr>snd_una := seg_ack_num seg,
                pending := filter (\<lambda>p. \<not> is_covered_by p (seg_ack_num seg)) (pending conn)\<rparr>
      else conn)"

definition ack_window :: "'t synced_state \<Rightarrow> conn_state \<Rightarrow> remote_segment \<Rightarrow> 't synced_state" where
  "ack_window s conn seg = fst (incoming_ack_update s conn seg)"

lemma incoming_ack_update_eq:
  "incoming_ack_update s conn seg = (ack_window s conn seg, ack_conn conn seg)"
  by (auto simp: incoming_ack_update_def ack_window_def ack_conn_def precedes_or_eq_def Let_def)

lemma ack_conn_sel [simp]:
  "tcp_state (ack_conn conn seg) = tcp_state conn" "snd_nxt (ack_conn conn seg) = snd_nxt conn"
  "rcv_nxt (ack_conn conn seg) = rcv_nxt conn" "send_buffer (ack_conn conn seg) = send_buffer conn"
  by (simp_all add: ack_conn_def)

lemma ack_conn_update [simp]:
  "ack_conn (conn\<lparr>rcv_nxt := r\<rparr>) seg = (ack_conn conn seg)\<lparr>rcv_nxt := r\<rparr>"
  "ack_conn (conn\<lparr>send_buffer := b\<rparr>) seg = (ack_conn conn seg)\<lparr>send_buffer := b\<rparr>"
  by (simp_all add: ack_conn_def)

lemma accept_payload_sel [simp]:
  "tcp_state (accept_payload p conn) = tcp_state conn" "snd_nxt (accept_payload p conn) = snd_nxt conn"
  "snd_una (accept_payload p conn) = snd_una conn" "pending (accept_payload p conn) = pending conn"
  "send_buffer (accept_payload p conn) = send_buffer conn @ payload_data p"
  by (simp_all add: accept_payload_def)

text \<open>Sending from the buffer as much as the window has room for.\<close>

definition room_payload :: "established synced_state \<Rightarrow> conn_state \<Rightarrow> tcp_payload option" where
  "room_payload s conn =
     (if window_room s conn = 0 then None
      else Some \<lparr>payload_data = take (window_room s conn) (send_buffer conn),
                 payload_len = of_nat (window_room s conn)\<rparr>)"

lemma length_room_payload [simp]: "length (payload_bytes (room_payload s conn)) = window_room s conn"
  by (simp add: room_payload_def window_room_def)

lemma room_payload_bytes: "payload_bytes (room_payload s conn) = take (window_room s conn) (send_buffer conn)"
  by (simp add: room_payload_def)

lemma room_payload_ok: "pred_option payload_ok (room_payload s conn)"
proof (cases "window_room s conn = 0")
  case False
  let ?n = "window_room s conn"
  have len: "length (take ?n (send_buffer conn)) = ?n" by (simp add: window_room_def)
  then have "payload_ok \<lparr>payload_data = take ?n (send_buffer conn), payload_len = of_nat (length (take ?n (send_buffer conn)))\<rparr>"
    using False window_room_less [of s conn] by (intro payload_ok_of_bytes) auto
  with len False show ?thesis by (simp add: room_payload_def)
qed (simp add: room_payload_def)

lemma room_payload_fits:
  "room_payload s conn = None \<or> flight conn + length (payload_bytes (room_payload s conn)) \<le> 65535"
  using unat_u16_less [of "wrapping (snd_wnd (window_state s))"]
  by (auto simp: room_payload_def window_room_def)

lemma drain_room:
  "flight conn \<le> 2147483648 \<Longrightarrow> drain_transmittable s conn
     = (Inr (room_payload s conn), conn\<lparr>send_buffer := drop (window_room s conn) (send_buffer conn)\<rparr>)"
  by (simp add: drain_transmittable_eq room_payload_def)

definition transmit ::
    "instant \<Rightarrow> established synced_state \<Rightarrow> conn_state \<Rightarrow> send_info option \<times> conn_state" where
  "transmit now s conn =
     (case room_payload s conn of
        None \<Rightarrow> (None, conn)
      | Some p \<Rightarrow>
          let (info, conn') = data_payload now
                (conn\<lparr>send_buffer := drop (window_room s conn) (send_buffer conn)\<rparr>) p
          in (Some info, conn'))"

lemma room_payload_None: "room_payload s conn = None \<longleftrightarrow> window_room s conn = 0"
  by (simp add: room_payload_def)

lemma drain_or_ack_eq:
  "flight conn \<le> 2147483648 \<Longrightarrow> drain_or_ack now s conn =
     (case transmit now s conn of
        (None, conn') \<Rightarrow> (Inr (pure_ack conn), conn') | (Some info, conn') \<Rightarrow> (Inr info, conn'))"
  by (cases "window_room s conn = 0")
     (simp_all add: drain_or_ack_def transmit_def drain_room room_payload_def split: prod.splits)

lemma transmit_sel:
  assumes "transmit now s conn = (v, conn')"
  shows "tcp_state conn' = tcp_state conn" and "rcv_nxt conn' = rcv_nxt conn"
    and "snd_una conn' = snd_una conn"
    and "send_buffer conn' = drop (window_room s conn) (send_buffer conn)"
    and "snd_nxt conn' = seq_add (snd_nxt conn) (len_or_default (room_payload s conn))"
    and "v = None \<longleftrightarrow> window_room s conn = 0"
    and "v = Some info \<Longrightarrow> si_payload info = room_payload s conn \<and> si_flags info = Ack \<and>
      si_seq_num info = snd_nxt conn \<and> si_ack_num info = rcv_nxt conn"
  using assms
  by (auto simp: transmit_def data_payload_def Let_def room_payload_None len_or_default_def seq_add_def
      split: option.splits) (auto simp: room_payload_def split: if_splits)

section \<open>The invariant of a connection\<close>

definition syn_rcv_ok :: "conn_state \<Rightarrow> bool" where
  "syn_rcv_ok conn \<longleftrightarrow>
     snd_nxt conn = seq_add (snd_una conn) LOCAL_SYN_BYTE \<and> send_buffer conn = [] \<and>
     (\<forall>p \<in> set (pending conn).
        si_flags (ps_send_info p) = SynAck \<and> si_payload (ps_send_info p) = None \<and>
        si_seq_num (ps_send_info p) = snd_una conn \<and> ps_end_seq p = snd_nxt conn)"

fun send_side_of ::
    "(local_ep seq_point \<Rightarrow> local_ep seq_point \<Rightarrow> pending_segment list \<Rightarrow> bool) \<Rightarrow> conn_state \<Rightarrow> bool" where
  "send_side_of P conn = P (snd_una conn) (snd_nxt conn) (pending conn)"

definition conn_ok ::
    "(local_ep seq_point \<Rightarrow> local_ep seq_point \<Rightarrow> pending_segment list \<Rightarrow> bool) \<Rightarrow>
     (local_ep seq_point \<Rightarrow> local_ep seq_point \<Rightarrow> pending_segment list \<Rightarrow> bool) \<Rightarrow> conn_state \<Rightarrow> bool" where
  "conn_ok open_ok closed_ok conn =
     (case tcp_state conn of
        SynReceived _ \<Rightarrow> syn_rcv_ok conn
      | Established _ \<Rightarrow> send_side_of open_ok conn
      | _ \<Rightarrow> send_side_of closed_ok conn)"

definition info_ok :: "send_info \<Rightarrow> bool" where
  "info_ok info \<longleftrightarrow> pred_option payload_ok (si_payload info)"

lemma info_ok_simple [simp]: "info_ok (pure_ack conn)" "info_ok (rst seg)"
  by (simp_all add: info_ok_def pure_ack_def rst_def)

text \<open>In SYN-RECEIVED only the acknowledgment of the SYN-ACK itself is acceptable.\<close>

lemma handshake_ack:
  assumes "syn_rcv_ok conn" and "precedes (snd_una conn) ack" and "precedes_or_eq ack (snd_nxt conn)"
  shows "ack = snd_nxt conn"
proof -
  have one: "flight conn = 1"
    using assms(1) by (simp add: syn_rcv_ok_def LOCAL_SYN_BYTE_def)
  then have "snd_una conn \<noteq> snd_nxt conn" by auto
  then have "seq_dist (snd_una conn) ack \<le> 1" "seq_dist ack (snd_nxt conn) = 1 - seq_dist (snd_una conn) ack"
    using ack_splits_flight [OF assms(2,3)] one by auto
  moreover have "0 < seq_dist (snd_una conn) ack" using assms(2) by (simp add: seq_simps)
  ultimately have "seq_dist ack (snd_nxt conn) = 0" by linarith
  then show ?thesis by (simp only: seq_dist_eq_0_iff)
qed

context send_side
begin

lemma ack_conn_open:
  "send_side_of open_ok conn \<Longrightarrow> ack_ok (snd_una conn) (snd_nxt conn) (seg_ack_num seg) \<Longrightarrow>
     send_side_of open_ok (ack_conn conn seg)"
  by (auto simp: ack_conn_def intro: open_ack)

lemma ack_conn_closed:
  "send_side_of closed_ok conn \<Longrightarrow> ack_ok (snd_una conn) (snd_nxt conn) (seg_ack_num seg) \<Longrightarrow>
     send_side_of closed_ok (ack_conn conn seg)"
  by (auto simp: ack_conn_def intro: closed_ack)

lemma transmit_open:
  assumes "send_side_of open_ok conn" and "transmit now s conn = (v, conn')"
  shows "send_side_of open_ok conn'" and "pred_option info_ok v"
proof -
  have "send_side_of open_ok conn' \<and> pred_option info_ok v"
  proof (cases "room_payload s conn")
    case (Some p)
    then have p: "payload_ok p" "flight conn + length (payload_data p) \<le> 65535"
      using room_payload_ok [of s conn] room_payload_fits [of s conn] by auto
    with assms Some show ?thesis
      by (auto simp: transmit_def data_payload_def Let_def info_ok_def intro!: open_send)
  qed (use assms in \<open>simp add: transmit_def\<close>)
  then show "send_side_of open_ok conn'" "pred_option info_ok v" by simp_all
qed

lemma drain_or_ack_open:
  assumes "send_side_of open_ok conn"
  shows "\<exists>info conn'. drain_or_ack now s conn = (Inr info, conn') \<and> send_side_of open_ok conn' \<and>
    tcp_state conn' = tcp_state conn \<and> info_ok info"
proof -
  obtain v conn' where t: "transmit now s conn = (v, conn')" by (cases "transmit now s conn")
  have "flight conn \<le> 2147483648" using assms open_flight by simp
  then show ?thesis
    using transmit_open [OF assms t] transmit_sel(1) [OF t] t
    by (cases v) (auto simp: drain_or_ack_eq)
qed

lemma passive_close_closed:
  assumes "send_side_of open_ok conn"
    and "precedes (snd_una conn) (seg_ack_num seg) \<Longrightarrow> ack_ok (snd_una conn) (snd_nxt conn) (seg_ack_num seg)"
  shows "\<exists>info conn'. begin_passive_close_without_close_wait now seg v s conn = (Inr info, conn') \<and>
    send_side_of closed_ok conn' \<and> (\<exists>l. tcp_state conn' = LastAck l) \<and> info_ok info"
proof -
  define c1 where "c1 = (case v of None \<Rightarrow> conn | Some payload \<Rightarrow> accept_payload payload conn)"
  define c2 where "c2 = ack_conn (c1\<lparr>rcv_nxt := seq_add (rcv_nxt c1) REMOTE_FIN_BYTE\<rparr>) seg"
  define s2 where "s2 = ack_window s (c1\<lparr>rcv_nxt := seq_add (rcv_nxt c1) REMOTE_FIN_BYTE\<rparr>) seg"
  have c1: "snd_una c1 = snd_una conn" "snd_nxt c1 = snd_nxt conn" "pending c1 = pending conn"
    by (cases v; simp add: c1_def)+
  have open2: "send_side_of open_ok c2"
  proof (cases "precedes (snd_una conn) (seg_ack_num seg)")
    case True
    with assms c1 show ?thesis unfolding c2_def by (intro ack_conn_open) auto
  qed (use assms(1) c1 in \<open>simp add: c2_def ack_conn_def\<close>)
  then have "flight c2 \<le> 2147483648" using open_flight by simp
  then show ?thesis
    using open2 room_payload_ok [of s2 c2] room_payload_fits [of s2 c2]
    by (auto simp: begin_passive_close_without_close_wait_def c1_def [symmetric] Let_def
        incoming_ack_update_eq c2_def [symmetric] s2_def [symmetric] drain_room info_ok_def
        simp del: ack_conn_update intro!: open_fin)
qed

lemma handle_syn_rcv_ok:
  assumes "conn_ok open_ok closed_ok conn" and "tcp_state conn = SynReceived m"
  shows "\<exists>v conn'. handle_syn_rcv now seg m conn = (Inr v, conn') \<and>
    conn_ok open_ok closed_ok conn' \<and> pred_option info_ok v"
proof -
  have syn: "syn_rcv_ok conn" using assms by (simp add: conn_ok_def)
  let ?hs = "seg_seq_num seg = rcv_nxt conn \<and> precedes (snd_una conn) (seg_ack_num seg) \<and>
    precedes_or_eq (seg_ack_num seg) (snd_nxt conn)"
  define c1 where "c1 = snd (complete_handshake seg conn m)"
  have hs: "complete_handshake seg conn m = (establish m seg, c1)"
    by (simp add: complete_handshake_def c1_def Let_def)
  have c1: "send_side_of open_ok c1" "tcp_state c1 = Established (establish m seg)"
      "snd_una c1 = seg_ack_num seg" if ?hs
    using that handshake_ack [OF syn, of "seg_ack_num seg"] open_start
    by (simp_all add: c1_def complete_handshake_def Let_def)
  consider (syn) "seg_flags seg = Syn"
    | (data) "seg_flags seg = Ack" ?hs
    | (fin) "seg_flags seg = FinAck" ?hs
    | (other) "handle_syn_rcv now seg m conn = (Inr (Some (pure_ack conn)), conn)
        \<or> handle_syn_rcv now seg m conn = (Inr (Some (rst seg)), conn)"
    by (cases "seg_flags seg"; cases ?hs) (auto simp: handle_syn_rcv_def)
  then show ?thesis
  proof cases
    case syn
    with assms \<open>syn_rcv_ok conn\<close> show ?thesis
      by (auto simp: handle_syn_rcv_def Let_def conn_ok_def syn_rcv_ok_def info_ok_def
          pending_new_def consumes_phantom_byte_def LOCAL_SYN_BYTE_def seq_add_def)
  next
    case data
    show ?thesis
    proof (cases "seg_payload seg")
      case (Some p)
      obtain info c2 where "drain_or_ack now (establish m seg) (accept_payload p c1) = (Inr info, c2)"
        "send_side_of open_ok c2" "tcp_state c2 = tcp_state c1" "info_ok info"
        using drain_or_ack_open [of "accept_payload p c1" now "establish m seg"] c1 data by auto
      with data Some c1 show ?thesis
        by (auto simp: handle_syn_rcv_def hs conn_ok_def act_bind_def)
    qed (use data c1 in \<open>auto simp: handle_syn_rcv_def hs conn_ok_def\<close>)
  next
    case fin
    have "\<not> precedes (snd_una c1) (seg_ack_num seg)" using c1 fin by (simp add: seq_simps)
    then obtain info c2 l where
      "begin_passive_close_without_close_wait now seg (seg_payload seg) (establish m seg) c1 = (Inr info, c2)"
      "send_side_of closed_ok c2" "tcp_state c2 = LastAck l" "info_ok info"
      using passive_close_closed [of c1 seg now "seg_payload seg" "establish m seg"] c1 fin by auto
    with fin show ?thesis
      by (auto simp: handle_syn_rcv_def hs conn_ok_def act_bind_def)
  next
    case other
    with assms show ?thesis by auto
  qed
qed

lemma handle_established_ok:
  assumes "conn_ok open_ok closed_ok conn" and "tcp_state conn = Established s"
    and "ack_ok (snd_una conn) (snd_nxt conn) (seg_ack_num seg)"
  shows "\<exists>v conn'. handle_established now seg s conn = (Inr v, conn') \<and>
    conn_ok open_ok closed_ok conn' \<and> pred_option info_ok v"
proof -
  have opn: "send_side_of open_ok conn" using assms by (simp add: conn_ok_def)
  define s2 where "s2 = ack_window s conn seg"
  define c2 where "c2 = (ack_conn conn seg)\<lparr>tcp_state := Established s2\<rparr>"
  have c2: "send_side_of open_ok c2" "tcp_state c2 = Established s2"
    using ack_conn_open [OF opn assms(3)] by (simp_all add: c2_def)
  then have fl: "flight c2 \<le> 2147483648" using open_flight by simp
  consider (past) "seg_flags seg = Ack" "precedes (snd_nxt conn) (seg_ack_num seg)"
    | (ack) "seg_flags seg = Ack" "seg_payload seg = None" "\<not> precedes (snd_nxt conn) (seg_ack_num seg)"
    | (data) p where "seg_flags seg = Ack" "seg_payload seg = Some p" "seg_seq_num seg = rcv_nxt conn"
        "\<not> precedes (snd_nxt conn) (seg_ack_num seg)"
    | (dup) "seg_flags seg = Ack \<and> seg_payload seg \<noteq> None \<and> \<not> precedes (snd_nxt conn) (seg_ack_num seg)
          \<or> seg_flags seg = FinAck" "seg_seq_num seg \<noteq> rcv_nxt conn"
    | (fin) "seg_flags seg = FinAck" "seg_seq_num seg = rcv_nxt conn"
    | (other) "seg_flags seg \<noteq> Ack" "seg_flags seg \<noteq> FinAck"
    by (cases "seg_payload seg") blast+
  then show ?thesis
  proof cases
    case past
    with assms(1) show ?thesis by (auto simp: handle_established_def)
  next
    case other
    with assms(1) show ?thesis by (auto simp: handle_established_def)
  next
    case dup
    with c2 show ?thesis
      by (auto simp: handle_established_def incoming_ack_update_eq s2_def [symmetric]
          c2_def [symmetric] conn_ok_def)
  next
    case ack
    obtain v c3 where t: "transmit now s2 c2 = (v, c3)" by (cases "transmit now s2 c2")
    have "handle_established now seg s conn = (Inr v, c3)"
      using ack t fl
      by (cases "window_room s2 c2 = 0")
         (simp_all add: handle_established_def incoming_ack_update_eq s2_def [symmetric]
           c2_def [symmetric] drain_room transmit_def room_payload_def split: prod.splits)
    with transmit_open [OF c2(1) t] transmit_sel(1) [OF t] c2 show ?thesis
      by (auto simp: conn_ok_def)
  next
    case (data p)
    obtain info c3 where "drain_or_ack now s2 (accept_payload p c2) = (Inr info, c3)"
      "send_side_of open_ok c3" "tcp_state c3 = tcp_state c2" "info_ok info"
      using drain_or_ack_open [of "accept_payload p c2" now s2] c2 by auto
    with data c2 show ?thesis
      by (auto simp: handle_established_def incoming_ack_update_eq s2_def [symmetric]
          c2_def [symmetric] conn_ok_def act_bind_def)
  next
    case fin
    obtain info c3 l where
      "begin_passive_close_without_close_wait now seg (seg_payload seg) s conn = (Inr info, c3)"
      "send_side_of closed_ok c3" "tcp_state c3 = LastAck l" "info_ok info"
      using passive_close_closed [OF opn, of seg now "seg_payload seg" s] assms(3) by auto
    with fin show ?thesis
      by (auto simp: handle_established_def conn_ok_def act_bind_def)
  qed
qed

lemma handle_fin_wait_1_ok:
  assumes "conn_ok open_ok closed_ok conn" and "tcp_state conn = FinWait1 s"
    and "ack_ok (snd_una conn) (snd_nxt conn) (seg_ack_num seg)"
    and "handle_fin_wait_1 seg s conn = ((v, remove), conn')"
  shows "conn_ok open_ok closed_ok conn' \<and> pred_option info_ok v"
proof -
  have c: "send_side_of closed_ok conn" using assms by (simp add: conn_ok_def)
  from ack_conn_closed [OF c assms(3)] c assms show ?thesis
    by (auto simp: handle_fin_wait_1_def incoming_ack_update_eq conn_ok_def Let_def split: if_splits)
qed

lemma handle_fin_wait_2_ok:
  assumes "conn_ok open_ok closed_ok conn" and "tcp_state conn = FinWait2 s"
    and "ack_ok (snd_una conn) (snd_nxt conn) (seg_ack_num seg)"
    and "handle_fin_wait_2 seg s conn = ((info, remove), conn')"
  shows "conn_ok open_ok closed_ok conn' \<and> info_ok info"
proof -
  have c: "send_side_of closed_ok conn" using assms by (simp add: conn_ok_def)
  from ack_conn_closed [OF c assms(3)] c assms show ?thesis
    by (auto simp: handle_fin_wait_2_def incoming_ack_update_eq conn_ok_def Let_def split: if_splits)
qed

lemma handle_last_ack_ok:
  assumes "conn_ok open_ok closed_ok conn" and "tcp_state conn = LastAck s"
    and "ack_ok (snd_una conn) (snd_nxt conn) (seg_ack_num seg)"
    and "handle_last_ack seg s conn = ((v, remove), conn')"
  shows "conn_ok open_ok closed_ok conn' \<and> pred_option info_ok v"
proof -
  have c: "send_side_of closed_ok conn" using assms by (simp add: conn_ok_def)
  from ack_conn_closed [OF c assms(3)] c assms show ?thesis
    by (auto simp: handle_last_ack_def incoming_ack_update_eq conn_ok_def Let_def split: if_splits)
qed

lemma from_syn_ack_ok:
  "from_syn_ack now info = Inr conn \<Longrightarrow> si_payload info = None \<Longrightarrow> conn_ok open_ok closed_ok conn"
  by (auto simp: from_syn_ack_def conn_ok_def syn_rcv_ok_def pending_new_def consumes_phantom_byte_def
      LOCAL_SYN_BYTE_def seq_add_def split: if_splits)

end

end
