(* ===== verification/Conn_Table.thy ===== *)
theory Conn_Table
  imports Main "HOL-Library.AList"
begin

text \<open>
  The hash table of connections. What the server relies on of \<open>HashMap\<close> is an interface: lookups
  after insertion and removal, and that each key has one entry. The model's table is an association
  list, whose order stands for the unspecified iteration order.
\<close>

locale table =
  fixes empty :: 'm
    and look :: "'m \<Rightarrow> 'k \<Rightarrow> 'v option"
    and put :: "'k \<Rightarrow> 'v \<Rightarrow> 'm \<Rightarrow> 'm"
    and del :: "'k \<Rightarrow> 'm \<Rightarrow> 'm"
    and wf :: "'m \<Rightarrow> bool"
  assumes look_empty: "look empty k = None"
    and look_put: "look (put k v m) k' = (if k' = k then Some v else look m k')"
    and look_del: "wf m \<Longrightarrow> look (del k m) k' = (if k' = k then None else look m k')"
    and wf_empty: "wf empty"
    and wf_put: "wf m \<Longrightarrow> wf (put k v m)"
    and wf_del: "wf m \<Longrightarrow> wf (del k m)"
begin

lemma put_preserves:
  assumes "\<And>k v. look m k = Some v \<Longrightarrow> P v" and "P w"
  shows "look (put j w m) k = Some v \<Longrightarrow> P v"
  using assms by (auto simp: look_put split: if_splits)

lemma del_preserves:
  assumes "\<And>k v. look m k = Some v \<Longrightarrow> P v" and "wf m"
  shows "look (del j m) k = Some v \<Longrightarrow> P v"
  using assms by (auto simp: look_del split: if_splits)

lemma put_put_other: "j \<noteq> k \<Longrightarrow> look (put j v (put k w m)) = look (put k w (put j v m))"
  by (rule ext) (simp add: look_put)

lemma del_put_same: "wf m \<Longrightarrow> look (del k (put k v m)) = look (del k m)"
  by (rule ext) (simp add: look_del look_put wf_put)

end

text \<open>The association list with distinct keys provides it.\<close>

definition keys_distinct :: "('k \<times> 'v) list \<Rightarrow> bool" where
  "keys_distinct t \<longleftrightarrow> distinct (map fst t)"

lemma AList_delete_keys: "map fst (AList.delete k t) = filter (\<lambda>j. j \<noteq> k) (map fst t)"
  by (induction t) auto

interpretation alist: table "[]" map_of AList.update AList.delete keys_distinct
  by unfold_locales
     (auto simp: update_conv' delete_conv' keys_distinct_def distinct_update AList_delete_keys)

lemma keys_distinct_map_values [simp]:
  "keys_distinct (map (\<lambda>(k, v). (k, f k v)) t) \<longleftrightarrow> keys_distinct t"
  by (simp add: keys_distinct_def case_prod_beta comp_def)

lemma map_of_map_values: "map_of (map (\<lambda>(k, v). (k, f k v)) t) k = map_option (f k) (map_of t k)"
  by (induction t) auto

lemma map_of_in_set: "keys_distinct t \<Longrightarrow> (k, v) \<in> set t \<longleftrightarrow> map_of t k = Some v"
  by (simp add: keys_distinct_def)

end
