(* ===== verification/Connections.thy ===== *)
theory Connections
  imports Handlers Conn_Table
begin

text \<open>
  The table of TCP connections (\<open>src/protocol/tcp/connections.rs\<close>): insertion and removal, the
  retransmission deadline, making due retransmissions, and the active close of every established
  connection on shutdown. \<open>now\<close> is the clock reading an operation takes; \<open>fallback\<close> is what
  \<open>Instant::now\<close> returns inside \<open>time_due\<close> on overflow.
\<close>

record conn_key =
  client_ip :: ipv4_addr
  client_port :: u16
  server_ip :: ipv4_addr
  server_port :: u16

record tcp_connections =
  conn_table :: "(conn_key \<times> conn_state) list"
  conn_rto_config :: rto_config
  conn_max_retries :: u8

definition connections_new :: "rto_config \<Rightarrow> u8 \<Rightarrow> tcp_connections" where
  "connections_new cfg retries =
     \<lparr>conn_table = [], conn_rto_config = cfg, conn_max_retries = retries\<rparr>"

definition connections_len :: "tcp_connections \<Rightarrow> usize" where
  "connections_len conns = length (conn_table conns)"

text \<open>\<open>get_mut\<close>, and the write through the reference it returns.\<close>

definition conn_get :: "tcp_connections \<Rightarrow> conn_key \<Rightarrow> conn_state option" where
  "conn_get conns key = map_of (conn_table conns) key"

definition conn_set :: "conn_key \<Rightarrow> conn_state \<Rightarrow> tcp_connections \<Rightarrow> tcp_connections" where
  "conn_set key conn conns = conns\<lparr>conn_table := AList.update key conn (conn_table conns)\<rparr>"

definition insert_syn_rcv :: "conn_key \<Rightarrow> conn_state \<Rightarrow> (tcp_connections, unit) action" where
  "insert_syn_rcv key state conns =
     (case tcp_state state of
        SynReceived _ \<Rightarrow> (Inr (), conns\<lparr>conn_table := AList.update key state (conn_table conns)\<rparr>)
      | _ \<Rightarrow> (Inl NotSynReceived, conns))"

definition conn_remove :: "conn_key \<Rightarrow> tcp_connections \<Rightarrow> tcp_connections" where
  "conn_remove key conns = conns\<lparr>conn_table := AList.delete key (conn_table conns)\<rparr>"

definition is_closing :: "conn_state \<Rightarrow> bool" where
  "is_closing conn \<longleftrightarrow>
     (case tcp_state conn of
        FinWait1 _ \<Rightarrow> True | FinWait2 _ \<Rightarrow> True | Closing _ \<Rightarrow> True | LastAck _ \<Rightarrow> True | _ \<Rightarrow> False)"

definition closing_in_progress :: "tcp_connections \<Rightarrow> bool" where
  "closing_in_progress conns \<longleftrightarrow> list_ex (\<lambda>(_, conn). is_closing conn) (conn_table conns)"

definition next_retransmit_deadline :: "instant \<Rightarrow> tcp_connections \<Rightarrow> instant option" where
  "next_retransmit_deadline fallback conns =
     (let dues = map (time_due (conn_rto_config conns) fallback)
            (concat (map (\<lambda>(_, conn). pending conn) (conn_table conns)))
      in if dues = [] then None else Some (Min (set dues)))"

definition is_due :: "rto_config \<Rightarrow> instant \<Rightarrow> instant \<Rightarrow> pending_segment \<Rightarrow> bool" where
  "is_due cfg now fallback seg \<longleftrightarrow> time_due cfg fallback seg \<le> now"

definition key_ip_pair :: "conn_key \<Rightarrow> local_ep ipv4_addr_pair" where
  "key_ip_pair key = Ipv4AddrPair (server_ip key) (client_ip key)"

definition key_ports :: "conn_key \<Rightarrow> local_ep port_pair" where
  "key_ports key = PortPair (server_port key) (client_port key)"

text \<open>One iteration of the loop over the due keys: the new connections and the segments it adds.\<close>

definition retransmit_key ::
    "instant \<Rightarrow> instant \<Rightarrow> conn_key \<Rightarrow> tcp_connections \<Rightarrow> local_segment list \<times> tcp_connections" where
  "retransmit_key now fallback key conns =
     (let due = is_due (conn_rto_config conns) now fallback
      in case conn_get conns key of
           None \<Rightarrow> ([], conns)
         | Some conn \<Rightarrow>
             if list_ex (\<lambda>seg. due seg \<and> exhausted_retries seg (conn_max_retries conns)) (pending conn)
             then ([], conn_remove key conns)
             else (map (\<lambda>seg. from_pairs_and_info (key_ip_pair key) (key_ports key)
                               (fst (retransmit_info now seg)))
                     (filter due (pending conn)),
                   conn_set key
                     (conn\<lparr>pending := map (\<lambda>seg. if due seg then snd (retransmit_info now seg) else seg)
                                (pending conn)\<rparr>) conns))"

fun retransmit_keys ::
    "instant \<Rightarrow> instant \<Rightarrow> conn_key list \<Rightarrow> tcp_connections \<Rightarrow> local_segment list \<times> tcp_connections" where
  "retransmit_keys now fallback [] conns = ([], conns)"
| "retransmit_keys now fallback (key # due_keys) conns =
     (let (segs, conns) = retransmit_key now fallback key conns;
          (more, conns) = retransmit_keys now fallback due_keys conns
      in (segs @ more, conns))"

definition make_retransmissions ::
    "instant \<Rightarrow> instant \<Rightarrow> tcp_connections \<Rightarrow> local_segment list \<times> tcp_connections" where
  "make_retransmissions now fallback conns =
     (let due_keys = map fst (filter
            (\<lambda>(_, conn). list_ex (is_due (conn_rto_config conns) now fallback) (pending conn))
            (conn_table conns))
      in retransmit_keys now fallback due_keys conns)"

text \<open>What \<open>close_established\<close> does to one entry: the segment to send, if any, and the new state.\<close>

definition close_conn :: "instant \<Rightarrow> conn_key \<Rightarrow> conn_state \<Rightarrow> local_segment option \<times> conn_state" where
  "close_conn now key conn =
     (case tcp_state conn of
        Established established \<Rightarrow>
          let send_info = \<lparr>si_seq_num = snd_nxt conn, si_ack_num = rcv_nxt conn, si_flags = FinAck,
                           si_payload = None\<rparr>;
              conn = conn\<lparr>tcp_state := FinWait1 (close established)\<rparr>;
              conn = conn\<lparr>snd_nxt := seq_add (snd_nxt conn) LOCAL_FIN_BYTE\<rparr>;
              conn = conn\<lparr>pending := pending conn @ [pending_new send_info now]\<rparr>
          in (Some (from_pairs_and_info (key_ip_pair key) (key_ports key) send_info), conn)
      | _ \<Rightarrow> (None, conn))"

definition close_established ::
    "instant \<Rightarrow> tcp_connections \<Rightarrow> local_segment list \<times> tcp_connections" where
  "close_established now conns =
     (List.map_filter (\<lambda>(key, conn). fst (close_conn now key conn)) (conn_table conns),
      conns\<lparr>conn_table := map (\<lambda>(key, conn). (key, snd (close_conn now key conn))) (conn_table conns)\<rparr>)"

section \<open>Lookups after the table operations\<close>

definition conns_wf :: "tcp_connections \<Rightarrow> bool" where
  "conns_wf conns \<longleftrightarrow> keys_distinct (conn_table conns)"

lemma conn_get_set [simp]:
  "conn_get (conn_set key conn conns) k = (if k = key then Some conn else conn_get conns k)"
  by (simp add: conn_get_def conn_set_def alist.look_put)

lemma conn_get_remove:
  "conns_wf conns \<Longrightarrow> conn_get (conn_remove key conns) k = (if k = key then None else conn_get conns k)"
  by (simp add: conn_get_def conn_remove_def conns_wf_def alist.look_del)

lemma conn_get_new [simp]: "conn_get (connections_new cfg n) k = None"
  by (simp add: conn_get_def connections_new_def alist.look_empty)

lemma conns_wf_ops [simp]:
  "conns_wf (connections_new cfg n)"
  "conns_wf conns \<Longrightarrow> conns_wf (conn_set key conn conns)"
  "conns_wf conns \<Longrightarrow> conns_wf (conn_remove key conns)"
  by (simp_all add: conns_wf_def connections_new_def conn_set_def conn_remove_def alist.wf_empty
      alist.wf_put alist.wf_del)

lemma conn_config_ops [simp]:
  "conn_rto_config (conn_set key conn conns) = conn_rto_config conns"
  "conn_rto_config (conn_remove key conns) = conn_rto_config conns"
  "conn_max_retries (conn_set key conn conns) = conn_max_retries conns"
  "conn_max_retries (conn_remove key conns) = conn_max_retries conns"
  by (simp_all add: conn_set_def conn_remove_def)

lemma conn_get_iff: "conns_wf conns \<Longrightarrow> (k, c) \<in> set (conn_table conns) \<longleftrightarrow> conn_get conns k = Some c"
  by (simp add: conns_wf_def conn_get_def map_of_in_set)

lemma insert_syn_rcv_eq:
  "tcp_state state = SynReceived m \<Longrightarrow> insert_syn_rcv key state conns = (Inr (), conn_set key state conns)"
  by (simp add: insert_syn_rcv_def conn_set_def)

section \<open>What a round of retransmissions does\<close>

text \<open>To one connection: nothing survives of it if a due segment has used up its retries.\<close>

definition retransmitted_conn ::
    "rto_config \<Rightarrow> u8 \<Rightarrow> instant \<Rightarrow> instant \<Rightarrow> conn_state \<Rightarrow> conn_state option" where
  "retransmitted_conn cfg retries now fallback conn =
     (if list_ex (\<lambda>seg. is_due cfg now fallback seg \<and> exhausted_retries seg retries) (pending conn)
      then None
      else Some (conn\<lparr>pending := map (\<lambda>seg. if is_due cfg now fallback seg
          then snd (retransmit_info now seg) else seg) (pending conn)\<rparr>))"

lemma retransmitted_conn_not_due:
  assumes "\<not> list_ex (is_due cfg now fallback) (pending conn)"
  shows "retransmitted_conn cfg retries now fallback conn = Some conn"
proof -
  have "map (\<lambda>seg. if is_due cfg now fallback seg then snd (retransmit_info now seg) else seg)
      (pending conn) = pending conn"
    using assms by (intro map_idI) (auto simp: list_ex_iff)
  then show ?thesis using assms by (auto simp: retransmitted_conn_def list_ex_iff)
qed

lemma retransmit_key_get:
  assumes "conns_wf conns" and "retransmit_key now fallback key conns = (segs, conns')"
  shows "conns_wf conns'" and "conn_rto_config conns' = conn_rto_config conns"
    and "conn_max_retries conns' = conn_max_retries conns"
    and "conn_get conns' k = (if k = key then Option.bind (conn_get conns k)
      (retransmitted_conn (conn_rto_config conns) (conn_max_retries conns) now fallback)
      else conn_get conns k)"
  using assms
  by (auto simp: retransmit_key_def Let_def retransmitted_conn_def conn_get_remove
      split: option.splits if_splits)

lemma retransmit_keys_get:
  assumes "conns_wf conns" and "distinct keys" and "retransmit_keys now fallback keys conns = (segs, conns')"
  shows "conns_wf conns' \<and> conn_rto_config conns' = conn_rto_config conns \<and>
    conn_max_retries conns' = conn_max_retries conns \<and>
    (\<forall>k. conn_get conns' k = (if k \<in> set keys then Option.bind (conn_get conns k)
      (retransmitted_conn (conn_rto_config conns) (conn_max_retries conns) now fallback)
      else conn_get conns k))"
  using assms
proof (induction keys arbitrary: conns segs)
  case (Cons key keys)
  obtain s1 conns1 where one: "retransmit_key now fallback key conns = (s1, conns1)"
    by (cases "retransmit_key now fallback key conns")
  obtain s2 where rest: "retransmit_keys now fallback keys conns1 = (s2, conns')"
    using Cons.prems(3) one by (auto split: prod.splits)
  note first = retransmit_key_get [OF Cons.prems(1) one]
  from Cons.IH [OF first(1) _ rest] Cons.prems(2) first show ?case by auto
qed simp

lemma make_retransmissions_get:
  assumes "conns_wf conns" and "make_retransmissions now fallback conns = (segs, conns')"
  shows "conns_wf conns'" and "conn_rto_config conns' = conn_rto_config conns"
    and "conn_max_retries conns' = conn_max_retries conns"
    and "conn_get conns' k = Option.bind (conn_get conns k)
      (retransmitted_conn (conn_rto_config conns) (conn_max_retries conns) now fallback)"
proof -
  let ?due = "\<lambda>(_, conn). list_ex (is_due (conn_rto_config conns) now fallback) (pending conn)"
  let ?keys = "map fst (filter ?due (conn_table conns))"
  have "distinct ?keys"
    using assms(1) by (simp add: conns_wf_def keys_distinct_def distinct_map_filter)
  moreover have "retransmit_keys now fallback ?keys conns = (segs, conns')"
    using assms(2) by (simp add: make_retransmissions_def)
  ultimately have all: "conns_wf conns' \<and> conn_rto_config conns' = conn_rto_config conns \<and>
    conn_max_retries conns' = conn_max_retries conns \<and>
    (\<forall>k. conn_get conns' k = (if k \<in> set ?keys then Option.bind (conn_get conns k)
      (retransmitted_conn (conn_rto_config conns) (conn_max_retries conns) now fallback)
      else conn_get conns k))"
    by (rule retransmit_keys_get [OF assms(1)])
  then show "conns_wf conns'" "conn_rto_config conns' = conn_rto_config conns"
    "conn_max_retries conns' = conn_max_retries conns" by blast+
  show "conn_get conns' k = Option.bind (conn_get conns k)
      (retransmitted_conn (conn_rto_config conns) (conn_max_retries conns) now fallback)"
  proof (cases "k \<in> set ?keys")
    case True
    with all show ?thesis by presburger
  next
    case False
    have "\<not> list_ex (is_due (conn_rto_config conns) now fallback) (pending c)" if "conn_get conns k = Some c" for c
      using False that assms(1) by (force simp: conn_get_iff [symmetric] image_iff)
    with False all show ?thesis
      by (cases "conn_get conns k") (simp_all add: retransmitted_conn_not_due)
  qed
qed

text \<open>The segments of a round, read off the connections as they were before it.\<close>

definition round_segments :: "instant \<Rightarrow> instant \<Rightarrow> tcp_connections \<Rightarrow> conn_key \<Rightarrow> local_segment set" where
  "round_segments now fallback conns key =
     {from_pairs_and_info (key_ip_pair key) (key_ports key) (ps_send_info seg) | conn seg.
        conn_get conns key = Some conn \<and> seg \<in> set (pending conn) \<and>
        is_due (conn_rto_config conns) now fallback seg \<and>
        (\<forall>q \<in> set (pending conn). is_due (conn_rto_config conns) now fallback q \<longrightarrow>
           \<not> exhausted_retries q (conn_max_retries conns))}"

lemma retransmit_key_segments:
  "set (fst (retransmit_key now fallback key conns)) = round_segments now fallback conns key"
  by (auto simp: retransmit_key_def round_segments_def Let_def list_ex_iff split: option.splits)

lemma retransmit_keys_segments:
  assumes "conns_wf conns" and "distinct keys"
  shows "set (fst (retransmit_keys now fallback keys conns))
    = (\<Union>key \<in> set keys. round_segments now fallback conns key)"
  using assms
proof (induction keys arbitrary: conns)
  case (Cons key keys)
  obtain s1 conns1 where one: "retransmit_key now fallback key conns = (s1, conns1)"
    by (cases "retransmit_key now fallback key conns")
  note first = retransmit_key_get [OF Cons.prems(1) one]
  have "round_segments now fallback conns1 k = round_segments now fallback conns k" if "k \<in> set keys" for k
    using first that Cons.prems(2) by (auto simp: round_segments_def)
  moreover have "set s1 = round_segments now fallback conns key"
    using retransmit_key_segments [of now fallback key conns] one by simp
  ultimately show ?case
    using Cons.IH [OF first(1)] Cons.prems(2) one by (auto split: prod.splits)
qed simp

lemma make_retransmissions_segments:
  assumes "conns_wf conns"
  shows "set (fst (make_retransmissions now fallback conns)) = (\<Union>key. round_segments now fallback conns key)"
proof -
  let ?keys = "map fst (filter (\<lambda>(_, conn). list_ex (is_due (conn_rto_config conns) now fallback)
    (pending conn)) (conn_table conns))"
  have "distinct ?keys"
    using assms by (simp add: conns_wf_def keys_distinct_def distinct_map_filter)
  then have "set (fst (make_retransmissions now fallback conns))
      = (\<Union>key \<in> set ?keys. round_segments now fallback conns key)"
    using retransmit_keys_segments [OF assms] by (simp add: make_retransmissions_def)
  moreover have "round_segments now fallback conns key = {}" if "key \<notin> set ?keys" for key
    using that assms
    by (force simp: round_segments_def conn_get_iff [symmetric] list_ex_iff image_iff)
  ultimately show ?thesis by blast
qed

section \<open>What the active close does\<close>

lemma close_established_get:
  "conn_get (snd (close_established now conns)) k
     = map_option (\<lambda>conn. snd (close_conn now k conn)) (conn_get conns k)"
  by (simp add: close_established_def conn_get_def map_of_map_values)

lemma close_established_wf [simp]: "conns_wf (snd (close_established now conns)) \<longleftrightarrow> conns_wf conns"
  by (simp add: close_established_def conns_wf_def)

lemma close_established_segments:
  assumes "conns_wf conns"
  shows "set (fst (close_established now conns))
    = {seg. \<exists>k conn. conn_get conns k = Some conn \<and> fst (close_conn now k conn) = Some seg}"
proof -
  have "set (fst (close_established now conns))
      = {seg. \<exists>k conn. (k, conn) \<in> set (conn_table conns) \<and> fst (close_conn now k conn) = Some seg}"
    by (force simp: close_established_def List.map_filter_def)
  with assms show ?thesis by (simp add: conn_get_iff)
qed

lemma closing_in_progress_iff:
  "conns_wf conns \<Longrightarrow> closing_in_progress conns \<longleftrightarrow> (\<exists>k conn. conn_get conns k = Some conn \<and> is_closing conn)"
  by (auto simp: closing_in_progress_def list_ex_iff conn_get_iff [symmetric])

lemma next_retransmit_deadline_None:
  "conns_wf conns \<Longrightarrow> next_retransmit_deadline fallback conns = None \<longleftrightarrow>
     (\<forall>k conn. conn_get conns k = Some conn \<longrightarrow> pending conn = [])"
  by (auto simp: next_retransmit_deadline_def Let_def conn_get_iff [symmetric])

lemma next_retransmit_deadline_Some:
  assumes "conns_wf conns" and "next_retransmit_deadline fallback conns = Some t"
  shows "\<exists>k conn p. conn_get conns k = Some conn \<and> p \<in> set (pending conn) \<and>
      time_due (conn_rto_config conns) fallback p = t"
    and "conn_get conns k = Some conn \<Longrightarrow> p \<in> set (pending conn) \<Longrightarrow>
      t \<le> time_due (conn_rto_config conns) fallback p"
proof -
  define ps where "ps = concat (map (\<lambda>(_, conn). pending conn) (conn_table conns))"
  have mem: "p \<in> set ps \<longleftrightarrow> (\<exists>k conn. conn_get conns k = Some conn \<and> p \<in> set (pending conn))" for p
    using assms(1) by (force simp: ps_def conn_get_iff [symmetric])
  have ps: "ps \<noteq> []" "t = Min (time_due (conn_rto_config conns) fallback ` set ps)"
    using assms(2) by (auto simp: next_retransmit_deadline_def ps_def [symmetric] Let_def split: if_splits)
  then have "t \<in> time_due (conn_rto_config conns) fallback ` set ps" by (simp add: Min_in)
  then show "\<exists>k conn p. conn_get conns k = Some conn \<and> p \<in> set (pending conn) \<and>
      time_due (conn_rto_config conns) fallback p = t"
    using mem by blast
  show "t \<le> time_due (conn_rto_config conns) fallback p"
    if "conn_get conns k = Some conn" "p \<in> set (pending conn)"
    using ps mem that by (auto intro!: Min_le)
qed

section \<open>The invariant of the table\<close>

definition conns_ok ::
    "(local_ep seq_point \<Rightarrow> local_ep seq_point \<Rightarrow> pending_segment list \<Rightarrow> bool) \<Rightarrow>
     (local_ep seq_point \<Rightarrow> local_ep seq_point \<Rightarrow> pending_segment list \<Rightarrow> bool) \<Rightarrow> tcp_connections \<Rightarrow> bool" where
  "conns_ok open_ok closed_ok conns \<longleftrightarrow>
     conns_wf conns \<and> (\<forall>k conn. conn_get conns k = Some conn \<longrightarrow> conn_ok open_ok closed_ok conn)"

lemma conns_ok_new: "conns_ok open_ok closed_ok (connections_new cfg n)"
  by (simp add: conns_ok_def)

lemma conns_ok_set:
  "conns_ok open_ok closed_ok conns \<Longrightarrow> conn_ok open_ok closed_ok conn \<Longrightarrow>
     conns_ok open_ok closed_ok (conn_set key conn conns)"
  by (auto simp: conns_ok_def)

lemma conns_ok_remove:
  "conns_ok open_ok closed_ok conns \<Longrightarrow> conns_ok open_ok closed_ok (conn_remove key conns)"
  by (auto simp: conns_ok_def conn_get_remove)

lemma segment_ok_from_info: "info_ok info \<Longrightarrow> segment_ok (from_pairs_and_info ip_pair ports info)"
  by (simp add: segment_ok_def from_pairs_and_info_def info_ok_def)

context send_side
begin

lemma conn_ok_payloads:
  assumes "conn_ok open_ok closed_ok conn" and "p \<in> set (pending conn)"
  shows "info_ok (ps_send_info p)"
proof (cases "tcp_state conn")
  case (SynReceived m)
  with assms show ?thesis by (simp add: conn_ok_def syn_rcv_ok_def info_ok_def)
next
  case (Established m)
  with assms show ?thesis
    using closed_payload [OF open_closed] by (auto simp: conn_ok_def info_ok_def)
qed (use assms closed_payload in \<open>auto simp: conn_ok_def info_ok_def\<close>)

lemma retransmitted_conn_ok:
  assumes "conn_ok open_ok closed_ok conn"
    and "retransmitted_conn cfg retries now fallback conn = Some conn'"
  shows "conn_ok open_ok closed_ok conn'"
proof -
  have c': "conn' = conn\<lparr>pending := map (\<lambda>seg. if is_due cfg now fallback seg
      then snd (retransmit_info now seg) else seg) (pending conn)\<rparr>"
    using assms(2) by (simp add: retransmitted_conn_def split: if_splits)
  show ?thesis
  proof (cases "tcp_state conn")
    case (SynReceived m)
    with assms(1) show ?thesis by (auto simp: c' conn_ok_def syn_rcv_ok_def)
  qed (use assms(1) open_resend closed_resend in \<open>auto simp: c' conn_ok_def\<close>)
qed

lemma make_retransmissions_ok:
  assumes "conns_ok open_ok closed_ok conns" and "make_retransmissions now fallback conns = (segs, conns')"
  shows "conns_ok open_ok closed_ok conns'" and "\<forall>seg \<in> set segs. segment_ok seg"
proof -
  have wf: "conns_wf conns" using assms(1) by (simp add: conns_ok_def)
  note get = make_retransmissions_get [OF wf assms(2)]
  show "conns_ok open_ok closed_ok conns'"
    unfolding conns_ok_def using get assms(1)
    by (auto simp: conns_ok_def bind_eq_Some_conv intro: retransmitted_conn_ok)
  have "set segs = (\<Union>key. round_segments now fallback conns key)"
    using make_retransmissions_segments [OF wf, of now fallback] assms(2) by simp
  moreover have "info_ok (ps_send_info p)" if "conn_get conns k = Some conn" "p \<in> set (pending conn)" for k conn p
    using assms(1) that conn_ok_payloads by (auto simp: conns_ok_def)
  ultimately show "\<forall>seg \<in> set segs. segment_ok seg"
    by (auto simp: round_segments_def intro!: segment_ok_from_info)
qed

lemma close_conn_ok:
  assumes "conn_ok open_ok closed_ok conn" and "close_conn now key conn = (v, conn')"
  shows "conn_ok open_ok closed_ok conn'" and "pred_option segment_ok v"
proof -
  have "conn_ok open_ok closed_ok conn' \<and> pred_option segment_ok v"
  proof (cases "tcp_state conn")
    case (Established s)
    define info where "info = \<lparr>si_seq_num = snd_nxt conn, si_ack_num = rcv_nxt conn, si_flags = FinAck,
      si_payload = None\<rparr>"
    have "closed_ok (snd_una conn) (seq_add (seq_add (snd_nxt conn) (len_or_default None)) LOCAL_FIN_BYTE)
        (pending conn @ [pending_new info now])"
      using assms(1) Established by (intro open_fin) (simp_all add: conn_ok_def info_def)
    with assms(2) Established show ?thesis
      by (auto simp: close_conn_def conn_ok_def info_def seq_add_def info_ok_def Let_def
          intro!: segment_ok_from_info)
  qed (use assms in \<open>auto simp: close_conn_def\<close>)
  then show "conn_ok open_ok closed_ok conn'" "pred_option segment_ok v" by simp_all
qed

lemma close_established_ok:
  assumes "conns_ok open_ok closed_ok conns"
  shows "conns_ok open_ok closed_ok (snd (close_established now conns))"
    and "\<forall>seg \<in> set (fst (close_established now conns)). segment_ok seg"
proof -
  have ok: "conn_ok open_ok closed_ok (snd (close_conn now k conn)) \<and>
      pred_option segment_ok (fst (close_conn now k conn))" if "conn_get conns k = Some conn" for k conn
    using that assms close_conn_ok [of conn now k] by (metis conns_ok_def prod.collapse)
  show "conns_ok open_ok closed_ok (snd (close_established now conns))"
    using assms ok by (auto simp: conns_ok_def close_established_get)
  have "conns_wf conns" using assms by (simp add: conns_ok_def)
  then show "\<forall>seg \<in> set (fst (close_established now conns)). segment_ok seg"
    using ok by (auto simp: close_established_segments) (metis option.pred_inject(2))
qed

end

section \<open>Properties\<close>

text \<open>
  C14. A round of retransmissions sends exactly the due segments, unchanged, of the connections none
  of whose due segments has used up its retries; those connections stay with the due segments' retry
  counts and times advanced, connections with an exhausted due segment disappear, and all others are
  untouched.
\<close>

theorem retransmission_round:
  assumes "conns_wf conns"
  shows "set (fst (make_retransmissions now fallback conns)) =
      {from_pairs_and_info (key_ip_pair key) (key_ports key) (ps_send_info seg) | key conn seg.
         conn_get conns key = Some conn \<and> seg \<in> set (pending conn) \<and>
         is_due (conn_rto_config conns) now fallback seg \<and>
         (\<forall>q \<in> set (pending conn). is_due (conn_rto_config conns) now fallback q \<longrightarrow>
            \<not> exhausted_retries q (conn_max_retries conns))} \<and>
    conn_get (snd (make_retransmissions now fallback conns)) k =
      (case conn_get conns k of
         None \<Rightarrow> None
       | Some conn \<Rightarrow>
           if \<exists>q \<in> set (pending conn). is_due (conn_rto_config conns) now fallback q \<and>
                exhausted_retries q (conn_max_retries conns) then None
           else Some (conn\<lparr>pending := map (\<lambda>seg. if is_due (conn_rto_config conns) now fallback seg
                  then seg\<lparr>ps_retries := u8_saturating_add (ps_retries seg) 1, ps_last_sent_at := now\<rparr>
                  else seg) (pending conn)\<rparr>))"
proof -
  obtain segs conns' where r: "make_retransmissions now fallback conns = (segs, conns')"
    by (cases "make_retransmissions now fallback conns")
  have "set (fst (make_retransmissions now fallback conns)) =
      {from_pairs_and_info (key_ip_pair key) (key_ports key) (ps_send_info seg) | key conn seg.
         conn_get conns key = Some conn \<and> seg \<in> set (pending conn) \<and>
         is_due (conn_rto_config conns) now fallback seg \<and>
         (\<forall>q \<in> set (pending conn). is_due (conn_rto_config conns) now fallback q \<longrightarrow>
            \<not> exhausted_retries q (conn_max_retries conns))}"
    by (simp only: make_retransmissions_segments [OF assms] round_segments_def) blast
  moreover have "conn_get (snd (make_retransmissions now fallback conns)) k =
      (case conn_get conns k of
         None \<Rightarrow> None
       | Some conn \<Rightarrow>
           if \<exists>q \<in> set (pending conn). is_due (conn_rto_config conns) now fallback q \<and>
                exhausted_retries q (conn_max_retries conns) then None
           else Some (conn\<lparr>pending := map (\<lambda>seg. if is_due (conn_rto_config conns) now fallback seg
                  then seg\<lparr>ps_retries := u8_saturating_add (ps_retries seg) 1, ps_last_sent_at := now\<rparr>
                  else seg) (pending conn)\<rparr>))"
    using make_retransmissions_get(4) [OF assms r, of k]
    by (cases "conn_get conns k")
       (simp_all add: r retransmitted_conn_def list_ex_iff retransmit_info_def)
  ultimately show ?thesis by (rule conjI)
qed

text \<open>A connection whose only pending segment is due and may not be retried is dropped.\<close>

theorem retransmission_round_witness:
  "let key = \<lparr>client_ip = Ipv4Addr 10 0 0 2, client_port = 50000, server_ip = Ipv4Addr 10 0 0 1,
              server_port = 7\<rparr>;
       info = \<lparr>si_seq_num = SeqPoint 100, si_ack_num = SeqPoint 200, si_flags = SynAck, si_payload = None\<rparr>;
       conn = \<lparr>tcp_state = SynReceived SynReceivedMark, snd_nxt = SeqPoint 101, rcv_nxt = SeqPoint 200,
               snd_una = SeqPoint 100, pending = [pending_new info 0], send_buffer = []\<rparr>;
       conns = \<lparr>conn_table = [(key, conn)],
                conn_rto_config = \<lparr>rto_initial = 1, rto_min = 1, rto_max = 4\<rparr>, conn_max_retries = 0\<rparr>
   in conn_get (snd (make_retransmissions 10 10 conns)) key = None"
  unfolding Let_def
  by (subst conjunct2 [OF retransmission_round])
     (simp_all add: conns_wf_def keys_distinct_def conn_get_def is_due_def time_due_def
       duration_clamp_def duration_saturating_mul_def instant_checked_add_def exhausted_retries_def
       DURATION_MAX_def INSTANT_MAX_def NANOS_PER_SEC_def unat_u32_saturating_pow)

text \<open>
  C22. Retransmission makes progress: after a round at time \<open>now\<close>, whatever is still pending is due
  strictly later, so a server that waits for the next deadline does not spin.
\<close>

theorem retransmission_progress:
  assumes "conns_wf conns" and "rto_ok (conn_rto_config conns)" and "0 < rto_min (conn_rto_config conns)"
    and "now + rto_max (conn_rto_config conns) \<le> INSTANT_MAX"
    and "\<forall>k conn p. conn_get conns k = Some conn \<and> p \<in> set (pending conn) \<longrightarrow> ps_last_sent_at p \<le> now"
    and "next_retransmit_deadline later (snd (make_retransmissions now fallback conns)) = Some t"
  shows "now < t"
proof -
  obtain segs conns' where r: "make_retransmissions now fallback conns = (segs, conns')"
    by (cases "make_retransmissions now fallback conns")
  let ?cfg = "conn_rto_config conns"
  note get = make_retransmissions_get [OF assms(1) r]
  obtain k conn' p' where p': "conn_get conns' k = Some conn'" "p' \<in> set (pending conn')"
    "time_due ?cfg later p' = t"
    using next_retransmit_deadline_Some(1) [OF get(1), of later t] assms(6) r get(2) by auto
  then obtain conn where conn: "conn_get conns k = Some conn"
      "retransmitted_conn ?cfg (conn_max_retries conns) now fallback conn = Some conn'"
    using get(4) [of k] by (auto simp: bind_eq_Some_conv)
  then obtain p where p: "p \<in> set (pending conn)"
      "p' = (if is_due ?cfg now fallback p then snd (retransmit_info now p) else p)"
    using p'(2) by (auto simp: retransmitted_conn_def split: if_splits)
  have last: "ps_last_sent_at p \<le> now" using assms(5) conn(1) p(1) by blast
  show ?thesis
  proof (cases "is_due ?cfg now fallback p")
    case True
    with p(2) have "ps_last_sent_at p' = now" by simp
    with time_due_ge [OF assms(2), of p' later] assms(3,4) p'(3) show ?thesis by simp
  next
    case False
    then have "now < time_due ?cfg fallback p" by (simp add: is_due_def)
    with time_due_no_overflow [OF assms(2), of p fallback later] last assms(4) p(2) False p'(3)
    show ?thesis by simp
  qed
qed

theorem retransmission_progress_witness:
  "let key = \<lparr>client_ip = Ipv4Addr 10 0 0 2, client_port = 50000, server_ip = Ipv4Addr 10 0 0 1,
              server_port = 7\<rparr>;
       info = \<lparr>si_seq_num = SeqPoint 100, si_ack_num = SeqPoint 200, si_flags = SynAck, si_payload = None\<rparr>;
       conn = \<lparr>tcp_state = SynReceived SynReceivedMark, snd_nxt = SeqPoint 101, rcv_nxt = SeqPoint 200,
               snd_una = SeqPoint 100, pending = [pending_new info 0], send_buffer = []\<rparr>;
       conns = \<lparr>conn_table = [(key, conn)],
                conn_rto_config = \<lparr>rto_initial = 1, rto_min = 1, rto_max = 4\<rparr>, conn_max_retries = 5\<rparr>
   in \<exists>t. next_retransmit_deadline 10 (snd (make_retransmissions 10 10 conns)) = Some t \<and> 10 < t"
proof -
  define key where "key = \<lparr>client_ip = Ipv4Addr 10 0 0 2, client_port = 50000,
    server_ip = Ipv4Addr 10 0 0 1, server_port = 7\<rparr>"
  define info where "info = \<lparr>si_seq_num = SeqPoint 100, si_ack_num = SeqPoint 200, si_flags = SynAck,
    si_payload = None\<rparr>"
  define conn where "conn = \<lparr>tcp_state = SynReceived SynReceivedMark, snd_nxt = SeqPoint 101,
    rcv_nxt = SeqPoint 200, snd_una = SeqPoint 100, pending = [pending_new info 0], send_buffer = []\<rparr>"
  define conns where "conns = \<lparr>conn_table = [(key, conn)],
    conn_rto_config = \<lparr>rto_initial = 1, rto_min = 1, rto_max = 4\<rparr>, conn_max_retries = 5\<rparr>"
  have hyps: "conns_wf conns" "rto_ok (conn_rto_config conns)" "0 < rto_min (conn_rto_config conns)"
      "10 + rto_max (conn_rto_config conns) \<le> INSTANT_MAX"
      "\<forall>k conn p. conn_get conns k = Some conn \<and> p \<in> set (pending conn) \<longrightarrow> ps_last_sent_at p \<le> 10"
    by (simp_all add: conns_def conn_def conns_wf_def keys_distinct_def rto_ok_def DURATION_MAX_def
        INSTANT_MAX_def NANOS_PER_SEC_def conn_get_def)
  have "is_due (conn_rto_config conns) 10 10 (pending_new info 0)"
    by (simp add: conns_def is_due_def time_due_def duration_clamp_def duration_saturating_mul_def
        instant_checked_add_def DURATION_MAX_def INSTANT_MAX_def NANOS_PER_SEC_def
        unat_u32_saturating_pow)
  then obtain t where t: "next_retransmit_deadline 10 (snd (make_retransmissions 10 10 conns)) = Some t"
    by (simp add: make_retransmissions_def conns_def conn_def retransmit_key_def conn_get_def
        exhausted_retries_def conn_set_def next_retransmit_deadline_def Let_def)
  from retransmission_progress [OF hyps t] t show ?thesis
    by (simp add: Let_def conns_def conn_def info_def key_def)
qed

text \<open>
  C21. The active close on shutdown: afterwards no connection is established; each connection that was
  has one FIN-ACK to send, numbered with its old SND.NXT, which is also queued for retransmission and
  counted in SND.NXT; connections in other states are untouched, no connection appears or disappears,
  and a close is in progress exactly if some connection was established or closing. Closing again
  sends nothing.
\<close>

theorem active_close:
  assumes "conns_wf conns" and "close_established now conns = (segs, conns')"
  shows "(\<forall>k c'. conn_get conns' k = Some c' \<longrightarrow> (\<forall>s. tcp_state c' \<noteq> Established s)) \<and>
    (\<forall>k c s. conn_get conns k = Some c \<and> tcp_state c = Established s \<longrightarrow>
       (let fin = \<lparr>si_seq_num = snd_nxt c, si_ack_num = rcv_nxt c, si_flags = FinAck, si_payload = None\<rparr>
        in from_pairs_and_info (key_ip_pair k) (key_ports k) fin \<in> set segs \<and>
           (\<exists>c'. conn_get conns' k = Some c' \<and> tcp_state c' = FinWait1 (close s) \<and>
              raw (snd_nxt c') = raw (snd_nxt c) + 1 \<and> snd_una c' = snd_una c \<and>
              pending c' = pending c @ [pending_new fin now]))) \<and>
    (\<forall>k c. conn_get conns k = Some c \<and> (\<forall>s. tcp_state c \<noteq> Established s) \<longrightarrow> conn_get conns' k = Some c) \<and>
    (\<forall>k. conn_get conns k = None \<longrightarrow> conn_get conns' k = None) \<and>
    (closing_in_progress conns' \<longleftrightarrow>
       (\<exists>k c. conn_get conns k = Some c \<and> ((\<exists>s. tcp_state c = Established s) \<or> is_closing c))) \<and>
    fst (close_established later conns') = []"
proof -
  have conns': "conns' = snd (close_established now conns)"
    and segs: "set segs = {seg. \<exists>k conn. conn_get conns k = Some conn \<and> fst (close_conn now k conn) = Some seg}"
    using assms close_established_segments [OF assms(1), of now] by simp_all
  have get: "conn_get conns' k = map_option (\<lambda>conn. snd (close_conn now k conn)) (conn_get conns k)" for k
    by (simp add: conns' close_established_get)
  have wf': "conns_wf conns'" using assms by (simp add: conns')
  have none: "(\<forall>s. tcp_state (snd (close_conn now k c)) \<noteq> Established s)" for k c
    by (simp add: close_conn_def Let_def split: tcp_state.splits)
  have closing: "is_closing (snd (close_conn now k c)) \<longleftrightarrow> (\<exists>s. tcp_state c = Established s) \<or> is_closing c" for k c
    by (auto simp: close_conn_def is_closing_def Let_def split: tcp_state.splits)
  have "set (fst (close_established later conns')) = {}"
    unfolding close_established_segments [OF wf'] using none
    by (auto simp: get close_conn_def [of later] split: tcp_state.splits)
  then have again: "fst (close_established later conns') = []" by simp
  have "closing_in_progress conns' \<longleftrightarrow>
      (\<exists>k c. conn_get conns k = Some c \<and> ((\<exists>s. tcp_state c = Established s) \<or> is_closing c))"
    unfolding closing_in_progress_iff [OF wf'] get map_option_eq_Some by (metis closing)
  moreover have "\<forall>k c s. conn_get conns k = Some c \<and> tcp_state c = Established s \<longrightarrow>
       (let fin = \<lparr>si_seq_num = snd_nxt c, si_ack_num = rcv_nxt c, si_flags = FinAck, si_payload = None\<rparr>
        in from_pairs_and_info (key_ip_pair k) (key_ports k) fin \<in> set segs \<and>
           (\<exists>c'. conn_get conns' k = Some c' \<and> tcp_state c' = FinWait1 (close s) \<and>
              raw (snd_nxt c') = raw (snd_nxt c) + 1 \<and> snd_una c' = snd_una c \<and>
              pending c' = pending c @ [pending_new fin now]))"
    unfolding segs get
    by (auto simp: close_conn_def Let_def seq_add_def LOCAL_FIN_BYTE_def intro!: exI)
  moreover have "\<forall>k c. conn_get conns k = Some c \<and> (\<forall>s. tcp_state c \<noteq> Established s) \<longrightarrow> conn_get conns' k = Some c"
    unfolding get by (auto simp: close_conn_def split: tcp_state.splits)
  moreover have "\<forall>k c'. conn_get conns' k = Some c' \<longrightarrow> (\<forall>s. tcp_state c' \<noteq> Established s)"
    unfolding get map_option_eq_Some using none by blast
  moreover have "\<forall>k. conn_get conns k = None \<longrightarrow> conn_get conns' k = None" unfolding get by simp
  ultimately show ?thesis using again by (intro conjI)
qed

theorem active_close_witness:
  "\<exists>segs conns'. close_established 5 \<lparr>conn_table = [(\<lparr>client_ip = Ipv4Addr 10 0 0 2, client_port = 50000,
       server_ip = Ipv4Addr 10 0 0 1, server_port = 7\<rparr>,
       \<lparr>tcp_state = Established (SyncedState \<lparr>snd_wnd = SeqOffset 100, snd_wl1 = SeqPoint 7, snd_wl2 = SeqPoint 9\<rparr>),
        snd_nxt = SeqPoint 9, rcv_nxt = SeqPoint 7, snd_una = SeqPoint 9, pending = [], send_buffer = []\<rparr>)],
       conn_rto_config = \<lparr>rto_initial = 1, rto_min = 1, rto_max = 4\<rparr>, conn_max_retries = 5\<rparr>
     = (segs, conns') \<and> segs \<noteq> [] \<and> closing_in_progress conns'"
proof -
  define key where "key = \<lparr>client_ip = Ipv4Addr 10 0 0 2, client_port = 50000,
    server_ip = Ipv4Addr 10 0 0 1, server_port = 7\<rparr>"
  define conn where "conn = \<lparr>tcp_state = Established (SyncedState \<lparr>snd_wnd = SeqOffset 100,
    snd_wl1 = SeqPoint 7, snd_wl2 = SeqPoint 9\<rparr>), snd_nxt = SeqPoint 9, rcv_nxt = SeqPoint 7,
    snd_una = SeqPoint 9, pending = [], send_buffer = []\<rparr>"
  define conns where "conns = \<lparr>conn_table = [(key, conn)],
    conn_rto_config = \<lparr>rto_initial = 1, rto_min = 1, rto_max = 4\<rparr>, conn_max_retries = 5\<rparr>"
  obtain segs conns' where r: "close_established 5 conns = (segs, conns')"
    by (cases "close_established 5 conns")
  have wf: "conns_wf conns" by (simp add: conns_def conns_wf_def keys_distinct_def)
  have "conn_get conns key = Some conn" "\<exists>s. tcp_state conn = Established s"
    by (simp_all add: conns_def conn_get_def conn_def)
  then obtain s where s: "conn_get conns key = Some conn" "tcp_state conn = Established s" by blast
  note ac = active_close [OF wf r]
  from ac [THEN conjunct2, THEN conjunct1, rule_format, OF conjI, OF s] have "segs \<noteq> []"
    by (auto simp: Let_def)
  moreover have "closing_in_progress conns'"
    using ac [THEN conjunct2, THEN conjunct2, THEN conjunct2, THEN conjunct2, THEN conjunct1] s by blast
  ultimately have "closing_in_progress conns'" "segs \<noteq> []" by simp_all
  with r show ?thesis by (auto simp: conns_def conn_def key_def)
qed

end
