(* ===== verification/Tcp_Reply.thy ===== *)
theory Tcp_Reply
  imports Connections
begin

text \<open>
  The reply decision over the table of connections (\<open>decide_reply\<close> and \<open>handle_unknown_conn\<close> of
  \<open>src/protocol/tcp/send_info.rs\<close>, \<open>create_reply\<close> of \<open>src/protocol/tcp.rs\<close>), and the reachable
  tables. \<open>random\<close> is what the operating system's random number generator returns.
\<close>

definition seg_key :: "remote_segment \<Rightarrow> conn_key" where
  "seg_key seg =
     \<lparr>client_ip = ip_src (seg_ip_pair seg), client_port = port_src (seg_ports seg),
      server_ip = ip_dst (seg_ip_pair seg), server_port = port_dst (seg_ports seg)\<rparr>"

definition handle_unknown_conn ::
    "u32 result \<Rightarrow> instant \<Rightarrow> remote_segment \<Rightarrow> conn_key \<Rightarrow> (tcp_connections, send_info option) action" where
  "handle_unknown_conn random now seg key =
     (case seg_flags seg of
        Syn \<Rightarrow>
          act_bind (act_lift random) (\<lambda>isn.
            let send_info = \<lparr>si_seq_num = SeqPoint isn,
                             si_ack_num = seq_add (seg_seq_num seg) REMOTE_SYN_BYTE,
                             si_flags = SynAck, si_payload = None\<rparr>
            in act_bind (act_lift (from_syn_ack now send_info)) (\<lambda>state.
               act_bind (insert_syn_rcv key state) (\<lambda>_.
               act_return (Some send_info))))
      | Rst \<Rightarrow> act_return None
      | RstAck \<Rightarrow> act_return None
      | SynAck \<Rightarrow> act_return (Some (rst seg))
      | Ack \<Rightarrow> act_return (Some (rst seg))
      | FinAck \<Rightarrow> act_return (Some (rst seg)))"

text \<open>The case of a known connection in which neither RST nor a stray SYN decided.\<close>

definition handle_known_conn ::
    "instant \<Rightarrow> remote_segment \<Rightarrow> conn_key \<Rightarrow> conn_state \<Rightarrow> (tcp_connections, send_info option) action" where
  "handle_known_conn now seg key conn conns =
     (case tcp_state conn of
        SynReceived syn_received \<Rightarrow>
          (case handle_syn_rcv now seg syn_received conn of
             (r, conn) \<Rightarrow> (r, conn_set key conn conns))
      | Established established \<Rightarrow>
          (case handle_established now seg established conn of
             (r, conn) \<Rightarrow> (r, conn_set key conn conns))
      | FinWait1 fin_wait_1 \<Rightarrow>
          (case handle_fin_wait_1 seg fin_wait_1 conn of
             ((maybe_send_info, remove_conn), conn) \<Rightarrow>
               let conns = conn_set key conn conns
               in (Inr maybe_send_info, if remove_conn then conn_remove key conns else conns))
      | FinWait2 fin_wait_2 \<Rightarrow>
          (case handle_fin_wait_2 seg fin_wait_2 conn of
             ((send_info, remove_conn), conn) \<Rightarrow>
               let conns = conn_set key conn conns
               in (Inr (Some send_info), if remove_conn then conn_remove key conns else conns))
      | Closing closing \<Rightarrow>
          (case handle_closing seg closing conn of
             (maybe_send_info, remove_conn) \<Rightarrow>
               (Inr maybe_send_info, if remove_conn then conn_remove key conns else conns))
      | LastAck last_ack \<Rightarrow>
          (case handle_last_ack seg last_ack conn of
             ((maybe_send_info, remove_conn), conn) \<Rightarrow>
               let conns = conn_set key conn conns
               in (Inr maybe_send_info, if remove_conn then conn_remove key conns else conns)))"

definition is_syn_received :: "tcp_state \<Rightarrow> bool" where
  "is_syn_received s \<longleftrightarrow> (case s of SynReceived _ \<Rightarrow> True | _ \<Rightarrow> False)"

definition decide_reply ::
    "u32 result \<Rightarrow> instant \<Rightarrow> remote_segment \<Rightarrow> (tcp_connections, send_info option) action" where
  "decide_reply random now seg conns =
     (let key = seg_key seg
      in case conn_get conns key of
           None \<Rightarrow> handle_unknown_conn random now seg key conns
         | Some conn \<Rightarrow>
             if seg_flags seg = Rst \<or> seg_flags seg = RstAck then
               if seg_seq_num seg = rcv_nxt conn then (Inr None, conn_remove key conns)
               else if precedes_or_eq (rcv_nxt conn) (seg_seq_num seg) \<and>
                       precedes (seg_seq_num seg) (seq_add (rcv_nxt conn) (u32_of_u16_offset RCV_WND))
               then (Inr (Some (pure_ack conn)), conns)
               else (Inr None, conns)
             else if (seg_flags seg = Syn \<or> seg_flags seg = SynAck) \<and> \<not> is_syn_received (tcp_state conn)
             then (Inr (Some (pure_ack conn)), conns)
             else handle_known_conn now seg key conn conns)"

definition tcp_create_reply ::
    "u32 result \<Rightarrow> instant \<Rightarrow> remote_segment \<Rightarrow> (tcp_connections, local_segment option) action" where
  "tcp_create_reply random now seg =
     act_bind (decide_reply random now seg) (\<lambda>maybe_send_info.
       act_return (map_option (from_pairs_and_info (ip_swapped (seg_ip_pair seg))
         (ports_swapped (seg_ports seg))) maybe_send_info))"

section \<open>Every decision keeps the invariant\<close>

lemma unknown_syn_eq:
  assumes "seg_flags seg = Syn"
  shows "\<exists>info conn. si_flags info = SynAck \<and> si_payload info = None \<and>
    from_syn_ack now info = Inr conn \<and>
    handle_unknown_conn (Inr isn) now seg key conns = (Inr (Some info), conn_set key conn conns)"
proof -
  define info where "info = \<lparr>si_seq_num = SeqPoint isn,
    si_ack_num = seq_add (seg_seq_num seg) REMOTE_SYN_BYTE, si_flags = SynAck, si_payload = None\<rparr>"
  obtain conn m where "from_syn_ack now info = Inr conn" "tcp_state conn = SynReceived m"
    by (simp add: from_syn_ack_def info_def)
  with assms show ?thesis
    by (intro exI [of _ info] exI [of _ conn])
       (simp add: handle_unknown_conn_def info_def [symmetric] insert_syn_rcv_eq Let_def,
        simp add: info_def)
qed

definition seg_ack_ok ::
    "(local_ep seq_point \<Rightarrow> local_ep seq_point \<Rightarrow> local_ep seq_point \<Rightarrow> bool) \<Rightarrow>
     tcp_connections \<Rightarrow> remote_segment \<Rightarrow> bool" where
  "seg_ack_ok ack_ok conns seg \<longleftrightarrow>
     (case conn_get conns (seg_key seg) of
        None \<Rightarrow> True
      | Some conn \<Rightarrow> ack_ok (snd_una conn) (snd_nxt conn) (seg_ack_num seg))"

lemma segments_from_infos:
  "pred_option info_ok v \<Longrightarrow> pred_option segment_ok (map_option (from_pairs_and_info ip_pair ports) v)"
  by (cases v) (auto intro: segment_ok_from_info)

context send_side
begin

lemma handle_known_conn_ok:
  assumes "conns_ok open_ok closed_ok conns" and "conn_get conns key = Some conn"
    and "ack_ok (snd_una conn) (snd_nxt conn) (seg_ack_num seg)"
  shows "\<exists>v conns'. handle_known_conn now seg key conn conns = (Inr v, conns') \<and>
    conns_ok open_ok closed_ok conns' \<and> pred_option info_ok v"
proof -
  have c: "conn_ok open_ok closed_ok conn" using assms(1,2) by (auto simp: conns_ok_def)
  have set: "conns_ok open_ok closed_ok (conn_set key c' conns)" if "conn_ok open_ok closed_ok c'" for c'
    using conns_ok_set [OF assms(1) that] .
  show ?thesis
  proof (cases "tcp_state conn")
    case (SynReceived m)
    with handle_syn_rcv_ok [OF c, of m now seg] set show ?thesis
      by (auto simp: handle_known_conn_def)
  next
    case (Established s)
    with handle_established_ok [OF c _ assms(3), of s now] set show ?thesis
      by (auto simp: handle_known_conn_def)
  next
    case (FinWait1 s)
    obtain v rm c' where h: "handle_fin_wait_1 seg s conn = ((v, rm), c')" by (metis prod.exhaust)
    from handle_fin_wait_1_ok [OF c FinWait1 assms(3) h] set h FinWait1 show ?thesis
      by (auto simp: handle_known_conn_def Let_def intro: conns_ok_remove)
  next
    case (FinWait2 s)
    obtain v rm c' where h: "handle_fin_wait_2 seg s conn = ((v, rm), c')" by (metis prod.exhaust)
    from handle_fin_wait_2_ok [OF c FinWait2 assms(3) h] set h FinWait2 show ?thesis
      by (auto simp: handle_known_conn_def Let_def intro: conns_ok_remove)
  next
    case (Closing s)
    with assms(1) show ?thesis
      by (auto simp: handle_known_conn_def handle_closing_def intro: conns_ok_remove)
  next
    case (LastAck s)
    obtain v rm c' where h: "handle_last_ack seg s conn = ((v, rm), c')" by (metis prod.exhaust)
    from handle_last_ack_ok [OF c LastAck assms(3) h] set h LastAck show ?thesis
      by (auto simp: handle_known_conn_def Let_def intro: conns_ok_remove)
  qed
qed

lemma decide_reply_ok:
  assumes "conns_ok open_ok closed_ok conns" and "seg_ack_ok ack_ok conns seg"
  shows "(\<exists>e. random = Inl e \<and> decide_reply random now seg conns = (Inl e, conns)) \<or>
    (\<exists>v conns'. decide_reply random now seg conns = (Inr v, conns') \<and>
       conns_ok open_ok closed_ok conns' \<and> pred_option info_ok v)"
proof (cases "conn_get conns (seg_key seg)")
  case None
  show ?thesis
  proof (cases "seg_flags seg = Syn")
    case True
    show ?thesis
    proof (cases random)
      case (Inr isn)
      with None unknown_syn_eq [OF True, of now isn "seg_key seg" conns] show ?thesis
        by (auto simp: decide_reply_def info_ok_def intro!: conns_ok_set [OF assms(1)] from_syn_ack_ok)
    qed (use True None in \<open>simp add: decide_reply_def handle_unknown_conn_def\<close>)
  next
    case False
    with None assms(1) show ?thesis
      by (cases "seg_flags seg") (simp_all add: decide_reply_def handle_unknown_conn_def)
  qed
next
  case (Some conn)
  then have "ack_ok (snd_una conn) (snd_nxt conn) (seg_ack_num seg)"
    using assms(2) by (simp add: seg_ack_ok_def)
  from handle_known_conn_ok [OF assms(1) Some this, of now] Some assms(1) show ?thesis
    by (auto simp: decide_reply_def Let_def intro: conns_ok_remove)
qed

lemma tcp_create_reply_ok:
  assumes "conns_ok open_ok closed_ok conns" and "seg_ack_ok ack_ok conns seg"
  shows "(\<exists>e. random = Inl e \<and> tcp_create_reply random now seg conns = (Inl e, conns)) \<or>
    (\<exists>v conns'. tcp_create_reply random now seg conns = (Inr v, conns') \<and>
       conns_ok open_ok closed_ok conns' \<and> pred_option segment_ok v)"
  using decide_reply_ok [OF assms, of random now]
  by (auto simp: tcp_create_reply_def act_bind_def segments_from_infos simp del: option.pred_map)

end

section \<open>Reachable tables\<close>

text \<open>
  What can happen to the table: a segment arrives, a round of retransmissions is made, the server
  begins its active close. \<open>good\<close> says which segments the peers send in which tables.
\<close>

inductive tcp_reach ::
    "(tcp_connections \<Rightarrow> remote_segment \<Rightarrow> bool) \<Rightarrow> rto_config \<Rightarrow> u8 \<Rightarrow> tcp_connections \<Rightarrow> bool"
  for good cfg retries where
  reach_new: "tcp_reach good cfg retries (connections_new cfg retries)"
| reach_segment:
    "tcp_reach good cfg retries conns \<Longrightarrow> good conns seg \<Longrightarrow>
     decide_reply random now seg conns = (r, conns') \<Longrightarrow> tcp_reach good cfg retries conns'"
| reach_retransmit:
    "tcp_reach good cfg retries conns \<Longrightarrow> make_retransmissions now fallback conns = (segs, conns') \<Longrightarrow>
     tcp_reach good cfg retries conns'"
| reach_close:
    "tcp_reach good cfg retries conns \<Longrightarrow> close_established now conns = (segs, conns') \<Longrightarrow>
     tcp_reach good cfg retries conns'"

context send_side
begin

lemma tcp_reach_ok:
  assumes "tcp_reach (seg_ack_ok ack_ok) cfg retries conns"
  shows "conns_ok open_ok closed_ok conns"
  using assms
proof (induction rule: tcp_reach.induct)
  case reach_new
  show ?case by (rule conns_ok_new)
next
  case (reach_segment conns seg random now r conns')
  from decide_reply_ok [OF reach_segment.IH reach_segment.hyps(2), of random now]
    reach_segment.hyps(3) reach_segment.IH show ?case by auto
next
  case (reach_retransmit conns now fallback segs conns')
  then show ?case using make_retransmissions_ok(1) by blast
next
  case (reach_close conns now segs conns')
  then show ?case using close_established_ok(1) [of conns now] by simp
qed

end

lemma seg_ack_ok_any [simp]: "seg_ack_ok (\<lambda>_ _ _. True) = (\<lambda>_ _. True)"
  by (intro ext) (simp add: seg_ack_ok_def split: option.splits)

lemmas tcp_reach_any = any_peer.tcp_reach_ok [unfolded seg_ack_ok_any]

section \<open>The handshake\<close>

definition established_conn ::
    "u32 \<Rightarrow> remote_ep seq_point \<Rightarrow> remote_segment \<Rightarrow> conn_state" where
  "established_conn isn rcv seg =
     \<lparr>tcp_state = Established (SyncedState \<lparr>snd_wnd = seg_window seg, snd_wl1 = seg_seq_num seg,
        snd_wl2 = seg_ack_num seg\<rparr>),
      snd_nxt = SeqPoint (isn + 1), rcv_nxt = rcv, snd_una = SeqPoint (isn + 1),
      pending = [], send_buffer = []\<rparr>"

lemma handshake_steps:
  assumes "conn_get conns (seg_key syn) = None" and "seg_flags syn = Syn"
    and "seg_key ack = seg_key syn" and "seg_flags ack = Ack" and "seg_payload ack = None"
    and "seg_seq_num ack = SeqPoint (raw (seg_seq_num syn) + 1)" and "seg_ack_num ack = SeqPoint (isn + 1)"
  shows "\<exists>synack conns1 conns2.
    decide_reply (Inr isn) now syn conns = (Inr (Some synack), conns1) \<and>
    synack = \<lparr>si_seq_num = SeqPoint isn, si_ack_num = SeqPoint (raw (seg_seq_num syn) + 1),
              si_flags = SynAck, si_payload = None\<rparr> \<and>
    decide_reply random later ack conns1 = (Inr None, conns2) \<and>
    conn_get conns2 (seg_key syn) = Some (established_conn isn (seg_seq_num ack) ack)"
proof -
  have dist: "precedes (SeqPoint isn :: local_ep seq_point) (SeqPoint (isn + 1))"
      "precedes_or_eq (SeqPoint (isn + 1) :: local_ep seq_point) (SeqPoint (isn + 1))"
    by (simp_all add: seq_simps) (simp add: seq_dist_def)
  show ?thesis
    using assms dist
    by (simp add: decide_reply_def handle_unknown_conn_def from_syn_ack_def insert_syn_rcv_eq Let_def
        seq_add_def phantom_bytes handle_known_conn_def handle_syn_rcv_def complete_handshake_def
        establish_def established_conn_def)
qed

section \<open>Other connections\<close>

lemma decide_reply_other:
  assumes "conns_wf conns" and "decide_reply random now seg conns = (r, conns')" and "key \<noteq> seg_key seg"
  shows "conn_get conns' key = conn_get conns key \<and> conns_wf conns' \<and>
    conn_rto_config conns' = conn_rto_config conns \<and> conn_max_retries conns' = conn_max_retries conns"
proof (cases "conn_get conns (seg_key seg)")
  case None
  show ?thesis
  proof (cases "seg_flags seg = Syn")
    case True
    then show ?thesis
    proof (cases random)
      case (Inr isn)
      with None assms unknown_syn_eq [OF True, of now isn "seg_key seg" conns] show ?thesis
        by (auto simp: decide_reply_def)
    qed (use None True assms in \<open>auto simp: decide_reply_def handle_unknown_conn_def\<close>)
  qed (use None assms in \<open>cases "seg_flags seg"; auto simp: decide_reply_def handle_unknown_conn_def\<close>)
next
  case (Some conn)
  with assms show ?thesis
    by (auto simp: decide_reply_def handle_known_conn_def conn_get_remove Let_def
        split: if_splits tcp_state.splits prod.splits)
qed

section \<open>Properties\<close>

text \<open>
  C5. Whatever segments arrived before, in whatever order with retransmissions and the active close,
  the decision on any segment succeeds and its reply carries a well-formed payload; the one way to
  fail is that no random initial sequence number could be had, and then nothing changes. In
  particular the internal errors (SND.UNA past SND.NXT, payload too long, wrong state inserted) do
  not occur.
\<close>

theorem decide_reply_total:
  assumes "tcp_reach (\<lambda>_ _. True) cfg retries conns"
  shows "(\<exists>v conns'. decide_reply (Inr isn) now seg conns = (Inr v, conns') \<and> pred_option info_ok v) \<and>
    (decide_reply (Inl e) now seg conns = (Inl e, conns) \<or>
     (\<exists>v conns'. decide_reply (Inl e) now seg conns = (Inr v, conns') \<and> pred_option info_ok v))"
proof -
  have ok: "conns_ok (in_flight_ok 2147483648) (in_flight_ok 2147483649) conns"
    using assms by (rule tcp_reach_any)
  have "seg_ack_ok (\<lambda>_ _ _. True) conns seg" by simp
  from any_peer.decide_reply_ok [OF ok this, of "Inr isn" now]
    any_peer.decide_reply_ok [OF ok this, of "Inl e" now] show ?thesis by auto
qed

theorem decide_reply_total_witness:
  "\<exists>v conns'. decide_reply (Inr 7) 0 \<lparr>seg_ip_pair = Ipv4AddrPair (Ipv4Addr 10 0 0 2) (Ipv4Addr 10 0 0 1),
       seg_ports = PortPair 50000 7, seg_seq_num = SeqPoint 100, seg_ack_num = SeqPoint 0,
       seg_offset_bytes = 20, seg_flags = Syn, seg_window = SeqOffset 1000, seg_payload = None\<rparr>
     (connections_new \<lparr>rto_initial = 1, rto_min = 1, rto_max = 4\<rparr> 3) = (Inr v, conns') \<and>
   pred_option info_ok v"
  using decide_reply_total [OF tcp_reach.reach_new] by blast

text \<open>
  C6. As long as no peer acknowledges the point half the sequence space from an idle SND.UNA, every
  reachable synchronized connection has at most a full window of 65535 sequence numbers in flight
  (one more once its FIN is sent), and each of them lies in a segment queued for retransmission, so
  the loss of any segment is repaired.
\<close>

theorem in_flight_retransmittable:
  assumes "tcp_reach (seg_ack_ok not_antipodal) cfg retries conns"
    and "conn_get conns key = Some conn" and "\<not> is_syn_received (tcp_state conn)"
  shows "seq_dist (snd_una conn) (snd_nxt conn) \<le> (if is_closing conn then 65536 else 65535) \<and>
    (\<forall>k < seq_dist (snd_una conn) (snd_nxt conn). \<exists>p \<in> set (pending conn).
       seq_dist (snd_una conn) (ps_end_seq p) \<le> seq_dist (snd_una conn) (snd_nxt conn) \<and>
       k < seq_dist (snd_una conn) (ps_end_seq p) \<and>
       seq_dist (snd_una conn) (ps_end_seq p) \<le> k + seg_len (ps_send_info p))"
proof -
  have "conn_ok (complete_ok 65535) (complete_ok 65536) conn"
    using sane_peer.tcp_reach_ok [OF assms(1)] assms(2) by (simp add: conns_ok_def)
  then have c: "complete_ok (if is_closing conn then 65536 else 65535) (snd_una conn) (snd_nxt conn) (pending conn)"
    using assms(3) by (cases "tcp_state conn") (simp_all add: conn_ok_def is_closing_def is_syn_received_def)
  then show ?thesis by (fastforce simp: complete_ok_def in_flight_ok_def covered_def pend_ok_def)
qed

text \<open>A connection right after its handshake.\<close>

theorem in_flight_retransmittable_witness:
  "let syn = \<lparr>seg_ip_pair = Ipv4AddrPair (Ipv4Addr 10 0 0 2) (Ipv4Addr 10 0 0 1),
         seg_ports = PortPair 50000 7, seg_seq_num = SeqPoint 100, seg_ack_num = SeqPoint 0,
         seg_offset_bytes = 20, seg_flags = Syn, seg_window = SeqOffset 1000, seg_payload = None\<rparr>;
       ack = syn\<lparr>seg_seq_num := SeqPoint 101, seg_ack_num := SeqPoint 8, seg_flags := Ack\<rparr>
   in \<exists>conns conn. tcp_reach (seg_ack_ok not_antipodal) \<lparr>rto_initial = 1, rto_min = 1, rto_max = 4\<rparr> 3 conns \<and>
        conn_get conns (seg_key syn) = Some conn \<and> \<not> is_syn_received (tcp_state conn) \<and>
        seq_dist (snd_una conn) (snd_nxt conn) \<le> 65535"
proof -
  define syn :: remote_segment where "syn = \<lparr>seg_ip_pair = Ipv4AddrPair (Ipv4Addr 10 0 0 2) (Ipv4Addr 10 0 0 1),
     seg_ports = PortPair 50000 7, seg_seq_num = SeqPoint 100, seg_ack_num = SeqPoint 0,
     seg_offset_bytes = 20, seg_flags = Syn, seg_window = SeqOffset 1000, seg_payload = None\<rparr>"
  define ack where "ack = syn\<lparr>seg_seq_num := SeqPoint 101, seg_ack_num := SeqPoint 8, seg_flags := Ack\<rparr>"
  define cfg where "cfg = \<lparr>rto_initial = 1, rto_min = 1, rto_max = (4 :: nat)\<rparr>"
  let ?good = "seg_ack_ok not_antipodal"
  have keys: "seg_key ack = seg_key syn" by (simp add: ack_def seg_key_def)
  obtain synack conns1 conns2 where steps:
    "decide_reply (Inr 7) 0 syn (connections_new cfg 3) = (Inr (Some synack), conns1)"
    "decide_reply (Inr 7) 1 ack conns1 = (Inr None, conns2)"
    "conn_get conns2 (seg_key syn) = Some (established_conn 7 (seg_seq_num ack) ack)"
    using handshake_steps [of "connections_new cfg 3" syn ack 7 0 "Inr 7" 1] keys
    by (auto simp: syn_def ack_def)
  have step: "tcp_reach ?good cfg 3 c \<Longrightarrow> ?good c seg \<Longrightarrow> decide_reply rnd t seg c = (r, c') \<Longrightarrow>
      tcp_reach ?good cfg 3 c'" for c seg rnd t r c'
    by (rule tcp_reach.reach_segment)
  have "?good (connections_new cfg 3) syn" by (simp add: seg_ack_ok_def)
  with step [OF tcp_reach.reach_new _ steps(1)] have r1: "tcp_reach ?good cfg 3 conns1" by simp
  have "conn_ok (complete_ok 65535) (complete_ok 65536) c \<and> is_syn_received (tcp_state c) \<longrightarrow> not_antipodal (snd_una c) (snd_nxt c) a"
    for c a by (auto simp: conn_ok_def is_syn_received_def syn_rcv_ok_def not_antipodal_def seq_add_def
        LOCAL_SYN_BYTE_def split: tcp_state.splits) (metis add_cancel_right_right one_neq_zero seq_point.sel)
  moreover have "\<exists>c. conn_get conns1 (seg_key syn) = Some c \<and> is_syn_received (tcp_state c)"
    using steps(1) by (auto simp: decide_reply_def handle_unknown_conn_def syn_def from_syn_ack_def
        insert_syn_rcv_eq is_syn_received_def Let_def)
  ultimately have "?good conns1 ack"
    using sane_peer.tcp_reach_ok [OF r1] by (auto simp: seg_ack_ok_def keys conns_ok_def)
  from step [OF r1 this steps(2)] have r2: "tcp_reach ?good cfg 3 conns2" .
  have "\<not> is_syn_received (tcp_state (established_conn 7 (seg_seq_num ack) ack))"
      "\<not> is_closing (established_conn 7 (seg_seq_num ack) ack)"
    by (simp_all add: established_conn_def is_syn_received_def is_closing_def)
  with in_flight_retransmittable [OF r2 steps(3)] r2 steps(3) show ?thesis
    unfolding Let_def syn_def [symmetric] cfg_def [symmetric] by auto
qed

text \<open>What the acknowledgment half the sequence space ahead does to an idle connection.\<close>

lemma antipodal_ack_dist:
  assumes "snd_una conn = snd_nxt conn" and "raw (seg_ack_num seg) = raw (snd_nxt conn) + 2 ^ 31"
  shows "seq_dist (snd_nxt conn) (seg_ack_num seg) = 2 ^ 31"
    and "seq_dist (seg_ack_num seg) (snd_nxt conn) = 2 ^ 31"
    and "ack_conn conn seg = conn\<lparr>snd_una := seg_ack_num seg,
      pending := filter (\<lambda>p. \<not> is_covered_by p (seg_ack_num seg)) (pending conn)\<rparr>"
proof -
  have d: "seq_dist (snd_nxt conn) (seg_ack_num seg) = 2147483648"
    using assms antipodal_iff_dist [of "seg_ack_num seg" "snd_una conn"] by simp
  then have ne: "snd_nxt conn \<noteq> seg_ack_num seg" by auto
  from seq_dist_flip [OF ne] d have d2: "seq_dist (seg_ack_num seg) (snd_nxt conn) = 2147483648" by simp
  show "seq_dist (snd_nxt conn) (seg_ack_num seg) = 2 ^ 31" "seq_dist (seg_ack_num seg) (snd_nxt conn) = 2 ^ 31"
    using d d2 by simp_all
  show "ack_conn conn seg = conn\<lparr>snd_una := seg_ack_num seg,
      pending := filter (\<lambda>p. \<not> is_covered_by p (seg_ack_num seg)) (pending conn)\<rparr>"
    using assms(1) d d2 ne by (simp add: ack_conn_def seq_simps)
qed

lemma incoming_ack_update_recovers:
  assumes "seq_dist (snd_una conn) (snd_nxt conn) = 2 ^ 31" and "seg_ack_num seg = snd_nxt conn" and "pending conn = []"
  shows "incoming_ack_update s (conn\<lparr>snd_una := snd_nxt conn\<rparr>) seg = incoming_ack_update s conn seg"
  using assms by (cases conn) (auto simp: incoming_ack_update_def seq_simps Let_def)

lemma handle_established_recovers:
  assumes "seq_dist (snd_una conn) (snd_nxt conn) = 2 ^ 31" and "seg_ack_num seg = snd_nxt conn" and "pending conn = []"
    and "seg_flags seg = Ack \<or> seg_flags seg = FinAck"
  shows "handle_established now seg s (conn\<lparr>snd_una := snd_nxt conn\<rparr>) = handle_established now seg s conn"
proof -
  note upd = incoming_ack_update_recovers [OF assms(1-3), of s]
  have close: "begin_passive_close_without_close_wait now seg p s (conn\<lparr>snd_una := snd_nxt conn\<rparr>) =
      begin_passive_close_without_close_wait now seg p s conn" for p
  proof -
    define recv where "recv c = (let c = (case p of None \<Rightarrow> c | Some q \<Rightarrow> accept_payload q c)
      in c\<lparr>rcv_nxt := seq_add (rcv_nxt c) REMOTE_FIN_BYTE\<rparr>)" for c
    have same: "incoming_ack_update s ((recv conn)\<lparr>snd_una := snd_nxt (recv conn)\<rparr>) seg = incoming_ack_update s (recv conn) seg"
      using assms(1-3) by (intro incoming_ack_update_recovers) (simp_all add: recv_def Let_def split: option.split)
    have recv: "recv (conn\<lparr>snd_una := snd_nxt conn\<rparr>) = (recv conn)\<lparr>snd_una := snd_nxt (recv conn)\<rparr>"
      by (cases conn; cases p) (simp_all add: recv_def accept_payload_def)
    have "begin_passive_close_without_close_wait now seg p s c =
        begin_passive_close_without_close_wait now seg p s c'"
      if "incoming_ack_update s (recv c) seg = incoming_ack_update s (recv c') seg" for c c'
      unfolding begin_passive_close_without_close_wait_def using that by (simp add: recv_def Let_def)
    from this [OF same [folded recv]] show ?thesis .
  qed
  have "\<not> precedes (snd_nxt conn) (seg_ack_num seg)" using assms(2) by (simp add: seq_simps)
  with assms(4) show ?thesis
    by (elim disjE) (simp_all add: handle_established_def upd close act_bind_def)
qed

text \<open>
  C33. The acknowledgment that the previous property excludes does harm only in passing. On an idle
  established connection a FIN-ACK out of sequence whose acknowledgment number lies half the sequence
  space ahead, which acknowledges data never sent, is taken as a new acknowledgment: SND.UNA jumps
  there, past SND.NXT, and no window has room for any buffered byte. But the next ACK or FIN-ACK that
  acknowledges SND.NXT brings SND.UNA back before the buffer is looked at: it is handled, reply and
  connection alike, exactly as if SND.UNA had not moved.
\<close>

theorem antipodal_ack_recovers:
  assumes "snd_una conn = snd_nxt conn" and "pending conn = []"
    and "seg_flags seg = FinAck" and "seg_seq_num seg \<noteq> rcv_nxt conn"
    and "raw (seg_ack_num seg) = raw (snd_nxt conn) + 2 ^ 31"
    and "seg_flags seg' = Ack \<or> seg_flags seg' = FinAck" and "seg_ack_num seg' = snd_nxt conn"
  shows "\<exists>s' conn'. handle_established now seg s conn = (Inr (Some (pure_ack conn')), conn') \<and>
    s' = fst (incoming_ack_update s conn seg) \<and>
    conn' = conn\<lparr>tcp_state := Established s', snd_una := seg_ack_num seg\<rparr> \<and>
    (\<forall>w buf. window_room w (conn'\<lparr>send_buffer := buf\<rparr>) = 0) \<and>
    handle_established now' seg' s' conn' =
      handle_established now' seg' s' (conn\<lparr>tcp_state := Established s'\<rparr>)"
proof -
  note d = antipodal_ack_dist [OF assms(1,5)]
  let ?s = "ack_window s conn seg"
  let ?c = "conn\<lparr>tcp_state := Established ?s\<rparr>"
  have "(ack_conn conn seg)\<lparr>tcp_state := Established ?s\<rparr> = ?c\<lparr>snd_una := seg_ack_num seg\<rparr>"
    unfolding d(3) using assms(2) by simp
  then have "handle_established now seg s conn =
      (Inr (Some (pure_ack (?c\<lparr>snd_una := seg_ack_num seg\<rparr>))), ?c\<lparr>snd_una := seg_ack_num seg\<rparr>)"
    using assms(3,4) by (simp add: handle_established_def incoming_ack_update_eq Let_def)
  moreover have "window_room w (?c\<lparr>snd_una := seg_ack_num seg, send_buffer := buf\<rparr>) = 0" for w buf
    using unat_u16_less [of "wrapping (snd_wnd (window_state w))"] d(2) by (simp add: window_room_def)
  moreover have "handle_established now' seg' ?s (?c\<lparr>snd_una := seg_ack_num seg\<rparr>) = handle_established now' seg' ?s ?c"
    using handle_established_recovers [of "?c\<lparr>snd_una := seg_ack_num seg\<rparr>" seg' now' ?s] d(2) assms(1,2,6,7)
    by (cases conn) simp
  ultimately show ?thesis by (intro exI [of _ ?s] exI [of _ "?c\<lparr>snd_una := seg_ack_num seg\<rparr>"]) (simp add: ack_window_def)
qed

theorem antipodal_ack_recovers_witness:
  "let stray = \<lparr>seg_ip_pair = Ipv4AddrPair (Ipv4Addr 10 0 0 2) (Ipv4Addr 10 0 0 1),
         seg_ports = PortPair 50000 7, seg_seq_num = SeqPoint 100, seg_ack_num = SeqPoint 2147483656,
         seg_offset_bytes = 20, seg_flags = FinAck, seg_window = SeqOffset 1000, seg_payload = None\<rparr>;
       data = stray\<lparr>seg_seq_num := SeqPoint 101, seg_ack_num := SeqPoint 8, seg_flags := Ack,
         seg_payload := Some \<lparr>payload_data = [0x68, 0x69], payload_len = 2\<rparr>\<rparr>;
       s = SyncedState \<lparr>snd_wnd = SeqOffset 1000, snd_wl1 = SeqPoint 101, snd_wl2 = SeqPoint 8\<rparr>;
       conn = \<lparr>tcp_state = Established s, snd_nxt = SeqPoint 8, rcv_nxt = SeqPoint 101, snd_una = SeqPoint 8,
         pending = [], send_buffer = []\<rparr>
   in \<exists>conn' info conn2. handle_established 0 stray s conn = (Inr (Some (pure_ack conn')), conn') \<and>
        tcp_state conn' = Established s \<and> snd_una conn' = SeqPoint 2147483656 \<and>
        handle_established 1 data s conn' = (Inr (Some info), conn2) \<and>
        payload_bytes (si_payload info) = [0x68, 0x69]"
proof -
  define stray :: remote_segment where "stray = \<lparr>seg_ip_pair = Ipv4AddrPair (Ipv4Addr 10 0 0 2) (Ipv4Addr 10 0 0 1),
         seg_ports = PortPair 50000 7, seg_seq_num = SeqPoint 100, seg_ack_num = SeqPoint 2147483656,
         seg_offset_bytes = 20, seg_flags = FinAck, seg_window = SeqOffset 1000, seg_payload = None\<rparr>"
  define data where "data = stray\<lparr>seg_seq_num := SeqPoint 101, seg_ack_num := SeqPoint 8, seg_flags := Ack,
         seg_payload := Some \<lparr>payload_data = [0x68, 0x69], payload_len = 2\<rparr>\<rparr>"
  define s :: "established synced_state" where
    "s = SyncedState \<lparr>snd_wnd = SeqOffset 1000, snd_wl1 = SeqPoint 101, snd_wl2 = SeqPoint 8\<rparr>"
  define conn where "conn = \<lparr>tcp_state = Established s, snd_nxt = SeqPoint 8, rcv_nxt = SeqPoint 101,
         snd_una = SeqPoint 8, pending = [], send_buffer = []\<rparr>"
  note defs = stray_def data_def conn_def
  have sel: "snd_una conn = snd_nxt conn" "pending conn = []" "seg_flags stray = FinAck"
      "seg_seq_num stray \<noteq> rcv_nxt conn" "raw (seg_ack_num stray) = raw (snd_nxt conn) + 2 ^ 31"
      "seg_flags data = Ack \<or> seg_flags data = FinAck" "seg_ack_num data = snd_nxt conn"
    by (simp_all add: defs)
  have "fst (incoming_ack_update s conn stray) = s"
    by (simp add: incoming_ack_update_def defs s_def Let_def seq_simps)
      (simp add: seq_dist_def unsigned_minus_1_eq_mask mask_eq_exp_minus_1)
  with antipodal_ack_recovers [OF sel, of 0 s 1] obtain conn' where c:
    "handle_established 0 stray s conn = (Inr (Some (pure_ack conn')), conn')"
    "tcp_state conn' = Established s" "snd_una conn' = seg_ack_num stray"
    "handle_established 1 data s conn' = handle_established 1 data s (conn\<lparr>tcp_state := Established s\<rparr>)" by auto
  have "\<exists>info conn2. handle_established 1 data s (conn\<lparr>tcp_state := Established s\<rparr>) = (Inr (Some info), conn2) \<and>
      payload_bytes (si_payload info) = [0x68, 0x69]"
    by (simp add: handle_established_def incoming_ack_update_def defs s_def Let_def seq_simps
        accept_payload_def act_bind_def drain_or_ack_def drain_transmittable_def
        usize_try_from_offset_def u32_of_u16_offset_def offset_saturating_sub_def
        offset_of_nonzero_def u16_try_from_def data_payload_def)
  with c show ?thesis
    unfolding Let_def stray_def [symmetric] data_def [symmetric] s_def [symmetric] conn_def [symmetric]
    by (auto simp: stray_def)
qed

text \<open>
  C19. Blind reset protection: a reset removes a known connection exactly when its sequence number
  is RCV.NXT; 1 to 65534 past RCV.NXT it draws a challenge ACK, and anywhere else it is ignored,
  the connections unchanged in both cases. A reset is never answered by a reset, and one for an
  unknown connection is ignored.
\<close>

theorem rst_handling:
  assumes "seg_flags seg = Rst \<or> seg_flags seg = RstAck"
  shows "decide_reply random now seg conns =
    (case conn_get conns (seg_key seg) of
       None \<Rightarrow> (Inr None, conns)
     | Some conn \<Rightarrow>
         let d = seq_dist (rcv_nxt conn) (seg_seq_num seg)
         in if d = 0 then (Inr None, conn_remove (seg_key seg) conns)
            else if d < 65535 then (Inr (Some (pure_ack conn)), conns)
            else (Inr None, conns))"
proof (cases "conn_get conns (seg_key seg)")
  case None
  with assms show ?thesis by (auto simp: decide_reply_def handle_unknown_conn_def)
next
  case (Some conn)
  let ?r = "rcv_nxt conn" and ?s = "seg_seq_num seg"
  let ?e = "seq_add ?r (u32_of_u16_offset RCV_WND)"
  have e: "seq_dist ?r ?e = 65535" by (simp add: u32_of_u16_offset_def RCV_WND_def)
  have window: "precedes_or_eq ?r ?s \<and> precedes ?s ?e \<longleftrightarrow> seq_dist ?r ?s < 65535"
  proof (cases "seq_dist ?r ?s < 65535")
    case True
    with e have "seq_dist ?s ?e = 65535 - seq_dist ?r ?s"
      using seq_dist_diff [of ?r ?s ?e] by simp
    with True show ?thesis by (simp add: seq_simps)
  next
    case False
    then have "seq_dist ?e ?s = seq_dist ?r ?s - 65535"
      using seq_dist_diff [of ?r ?e ?s] e by simp
    moreover have "seq_dist ?s ?e = 4294967296 - seq_dist ?e ?s" if "?s \<noteq> ?e"
      using seq_dist_flip [of ?e ?s] that by auto
    ultimately have "\<not> (seq_dist ?r ?s \<le> 2147483648 \<and> 0 < seq_dist ?s ?e \<and> seq_dist ?s ?e \<le> 2147483648)"
      using False by (cases "?s = ?e") auto
    with False show ?thesis unfolding seq_simps by blast
  qed
  have eq: "seq_dist ?r ?s = 0 \<longleftrightarrow> ?s = ?r" by auto
  from assms Some window eq show ?thesis by (auto simp: decide_reply_def Let_def)
qed

theorem rst_handling_witness:
  "decide_reply (Inr 0) 0 \<lparr>seg_ip_pair = Ipv4AddrPair (Ipv4Addr 10 0 0 2) (Ipv4Addr 10 0 0 1),
       seg_ports = PortPair 50000 7, seg_seq_num = SeqPoint 5, seg_ack_num = SeqPoint 0,
       seg_offset_bytes = 20, seg_flags = Rst, seg_window = SeqOffset 0, seg_payload = None\<rparr>
     (connections_new \<lparr>rto_initial = 1, rto_min = 1, rto_max = 4\<rparr> 3)
   = (Inr None, connections_new \<lparr>rto_initial = 1, rto_min = 1, rto_max = 4\<rparr> 3)"
  by (subst rst_handling) simp_all

text \<open>
  C20. Connections do not interfere: a segment changes at most the table entry of its own four-tuple,
  and the configuration never.
\<close>

theorem connections_isolated:
  assumes "conns_wf conns" and "decide_reply random now seg conns = (r, conns')" and "key \<noteq> seg_key seg"
  shows "conn_get conns' key = conn_get conns key \<and> conns_wf conns' \<and>
    conn_rto_config conns' = conn_rto_config conns \<and> conn_max_retries conns' = conn_max_retries conns"
  using decide_reply_other [OF assms] .

theorem connections_isolated_witness:
  "let seg = \<lparr>seg_ip_pair = Ipv4AddrPair (Ipv4Addr 10 0 0 2) (Ipv4Addr 10 0 0 1),
         seg_ports = PortPair 50000 7, seg_seq_num = SeqPoint 100, seg_ack_num = SeqPoint 0,
         seg_offset_bytes = 20, seg_flags = Syn, seg_window = SeqOffset 1000, seg_payload = None\<rparr>;
       conns = connections_new \<lparr>rto_initial = 1, rto_min = 1, rto_max = 4\<rparr> 3
   in conn_get (snd (decide_reply (Inr 7) 0 seg conns)) ((seg_key seg)\<lparr>client_port := 1\<rparr>) = None"
proof -
  define seg :: remote_segment where "seg = \<lparr>seg_ip_pair = Ipv4AddrPair (Ipv4Addr 10 0 0 2) (Ipv4Addr 10 0 0 1),
     seg_ports = PortPair 50000 7, seg_seq_num = SeqPoint 100, seg_ack_num = SeqPoint 0,
     seg_offset_bytes = 20, seg_flags = Syn, seg_window = SeqOffset 1000, seg_payload = None\<rparr>"
  define conns where "conns = connections_new \<lparr>rto_initial = 1, rto_min = 1, rto_max = 4\<rparr> 3"
  have "conns_wf conns" "(seg_key seg)\<lparr>client_port := 1\<rparr> \<noteq> seg_key seg"
    by (simp_all add: conns_def seg_key_def seg_def)
  from connections_isolated [OF this(1) surjective_pairing this(2), of "Inr 7" 0] show ?thesis
    unfolding Let_def seg_def [symmetric] conns_def [symmetric] by (simp add: conns_def)
qed

text \<open>
  C18. The three-way handshake: a SYN on an unknown four-tuple is answered by a SYN-ACK with the
  server's initial sequence number that acknowledges the SYN, and the client's ACK of it makes the
  connection established without a reply: both streams stand one past their initial sequence number,
  nothing is pending or buffered, and the client's window is in force.
\<close>

theorem handshake_establishes:
  assumes "conn_get conns (seg_key syn) = None" and "seg_flags syn = Syn"
    and "seg_key ack = seg_key syn" and "seg_flags ack = Ack" and "seg_payload ack = None"
    and "seg_seq_num ack = SeqPoint (raw (seg_seq_num syn) + 1)" and "seg_ack_num ack = SeqPoint (isn + 1)"
  shows "\<exists>conns1 conns2.
    decide_reply (Inr isn) now syn conns = (Inr (Some \<lparr>si_seq_num = SeqPoint isn,
      si_ack_num = SeqPoint (raw (seg_seq_num syn) + 1), si_flags = SynAck, si_payload = None\<rparr>), conns1) \<and>
    decide_reply random later ack conns1 = (Inr None, conns2) \<and>
    conn_get conns2 (seg_key syn) = Some
      \<lparr>tcp_state = Established (SyncedState \<lparr>snd_wnd = seg_window ack, snd_wl1 = seg_seq_num ack,
         snd_wl2 = seg_ack_num ack\<rparr>),
       snd_nxt = SeqPoint (isn + 1), rcv_nxt = SeqPoint (raw (seg_seq_num syn) + 1),
       snd_una = SeqPoint (isn + 1), pending = [], send_buffer = []\<rparr>"
  using handshake_steps [OF assms, of now random later] assms(6) by (auto simp: established_conn_def)

theorem handshake_establishes_witness:
  "let syn = \<lparr>seg_ip_pair = Ipv4AddrPair (Ipv4Addr 10 0 0 2) (Ipv4Addr 10 0 0 1),
         seg_ports = PortPair 50000 7, seg_seq_num = SeqPoint 4294967295, seg_ack_num = SeqPoint 0,
         seg_offset_bytes = 20, seg_flags = Syn, seg_window = SeqOffset 1000, seg_payload = None\<rparr>;
       ack = syn\<lparr>seg_seq_num := SeqPoint 0, seg_ack_num := SeqPoint 8, seg_flags := Ack\<rparr>
   in \<exists>r conns1 conns2. decide_reply (Inr 7) 0 syn
        (connections_new \<lparr>rto_initial = 1, rto_min = 1, rto_max = 4\<rparr> 3) = (r, conns1) \<and>
      decide_reply (Inr 7) 1 ack conns1 = (Inr None, conns2)"
proof -
  define syn :: remote_segment where "syn = \<lparr>seg_ip_pair = Ipv4AddrPair (Ipv4Addr 10 0 0 2) (Ipv4Addr 10 0 0 1),
     seg_ports = PortPair 50000 7, seg_seq_num = SeqPoint 4294967295, seg_ack_num = SeqPoint 0,
     seg_offset_bytes = 20, seg_flags = Syn, seg_window = SeqOffset 1000, seg_payload = None\<rparr>"
  define ack where "ack = syn\<lparr>seg_seq_num := SeqPoint 0, seg_ack_num := SeqPoint 8, seg_flags := Ack\<rparr>"
  have "conn_get (connections_new \<lparr>rto_initial = 1, rto_min = 1, rto_max = 4\<rparr> 3) (seg_key syn) = None"
    "seg_flags syn = Syn" "seg_key ack = seg_key syn" "seg_flags ack = Ack" "seg_payload ack = None"
    "seg_seq_num ack = SeqPoint (raw (seg_seq_num syn) + 1)" "seg_ack_num ack = SeqPoint (7 + 1)"
    by (simp_all add: ack_def seg_key_def) (simp_all add: syn_def)
  from handshake_establishes [OF this, of 0 "Inr 7" 1] show ?thesis
    unfolding Let_def syn_def [symmetric] ack_def [symmetric] by blast
qed

end
