(* ===== verification/Echo_Stream.thy ===== *)
theory Echo_Stream
  imports Tcp_Reply
begin

text \<open>
  What a TCP connection does to its two streams: the bytes it sends are the bytes it accepted, in
  order. One reply of a connection is a stream step; \<open>streams_ok\<close> relates a connection to the stream
  accepted from its client and the stream sent to it, and every reply keeps it. The server's loop is
  tied to these streams in theory \<open>Wire_Echo\<close>.
\<close>

section \<open>Streams\<close>

text \<open>The bytes of a segment that a connection with an open send side takes into its stream.\<close>

definition accepted_data :: "conn_state \<Rightarrow> remote_segment \<Rightarrow> bytes" where
  "accepted_data conn seg =
     (if (seg_flags seg = Ack \<or> seg_flags seg = FinAck) \<and> seg_seq_num seg = rcv_nxt conn \<and>
         (case tcp_state conn of
            SynReceived _ \<Rightarrow> precedes (snd_una conn) (seg_ack_num seg) \<and>
              precedes_or_eq (seg_ack_num seg) (snd_nxt conn)
          | Established _ \<Rightarrow> seg_flags seg = FinAck \<or> \<not> precedes (snd_nxt conn) (seg_ack_num seg)
          | _ \<Rightarrow> False)
      then payload_bytes (seg_payload seg) else [])"

definition reply_data :: "send_info option \<Rightarrow> bytes" where
  "reply_data v = (case v of None \<Rightarrow> [] | Some info \<Rightarrow> payload_bytes (si_payload info))"

text \<open>Both FINs have been counted once the connection is in LAST-ACK.\<close>

definition fin_count :: "conn_state \<Rightarrow> nat" where
  "fin_count conn = (case tcp_state conn of LastAck _ \<Rightarrow> 1 | _ \<Rightarrow> 0)"

lemma reply_data_simps [simp]:
  "reply_data None = []" "reply_data (Some info) = payload_bytes (si_payload info)"
  by (simp_all add: reply_data_def)

lemma wrapping_len_u32:
  assumes "pred_option payload_ok v"
  shows "(wrapping (len_or_default v) :: u32) = of_nat (length (payload_bytes v))"
  using wrapping_len_or_default [OF assms] by (metis of_nat_unat ucast_id)

lemma raw_add_len:
  "pred_option payload_ok v \<Longrightarrow> raw (seq_add p (len_or_default v)) = raw p + of_nat (length (payload_bytes v))"
  by (simp add: seq_add_def wrapping_len_u32)

lemma raw_accept_payload:
  assumes "payload_ok p"
  shows "raw (rcv_nxt (accept_payload p conn)) = raw (rcv_nxt conn) + of_nat (length (payload_data p))"
  using raw_add_len [of "Some p" "rcv_nxt conn"] assms by (simp add: accept_payload_def len_or_default_def)

section \<open>What each handler does to the streams\<close>

text \<open>No more is in flight than the window the connection has on record, the FIN aside.\<close>

definition window_respected :: "conn_state \<Rightarrow> bool" where
  "window_respected conn \<longleftrightarrow>
     (case tcp_state conn of
        Established s \<Rightarrow> flight conn \<le> unat (wrapping (snd_wnd (window_state s)))
      | LastAck s \<Rightarrow> flight conn \<le> unat (wrapping (snd_wnd (window_state s))) + 1
      | _ \<Rightarrow> False)"

text \<open>
  A step from \<open>conn\<close> to \<open>conn'\<close> with reply \<open>v\<close> that accepts \<open>d\<close>: what is sent and what stays
  buffered is what was buffered and \<open>d\<close>, the sequence numbers advance by exactly that, and data goes
  out only as far as the window allows.
\<close>

definition stream_step :: "conn_state \<Rightarrow> bytes \<Rightarrow> send_info option \<Rightarrow> conn_state \<Rightarrow> bool" where
  "stream_step conn d v conn' \<longleftrightarrow>
     reply_data v @ send_buffer conn' = send_buffer conn @ d \<and>
     raw (rcv_nxt conn') = raw (rcv_nxt conn) + of_nat (length d) + of_nat (fin_count conn') \<and>
     raw (snd_nxt conn') = raw (snd_nxt conn) + of_nat (length (reply_data v)) + of_nat (fin_count conn') \<and>
     (\<forall>info. v = Some info \<and> si_payload info \<noteq> None \<longrightarrow>
        si_seq_num info = snd_nxt conn \<and> window_respected conn')"

text \<open>Sending what there is room for.\<close>

lemma room_sent_dist:
  assumes "window_room s conn \<noteq> 0"
  shows "seq_dist (snd_una conn) (seq_add (snd_nxt conn) (len_or_default (room_payload s conn)))
      = flight conn + window_room s conn"
    and "flight conn + window_room s conn \<le> unat (wrapping (snd_wnd (window_state s)))"
    and "flight conn + window_room s conn \<le> 65535"
proof -
  show le: "flight conn + window_room s conn \<le> unat (wrapping (snd_wnd (window_state s)))"
    using assms by (auto simp: window_room_def min_def split: if_splits)
  then show le': "flight conn + window_room s conn \<le> 65535"
    using unat_u16_less [of "wrapping (snd_wnd (window_state s))"] by linarith
  have "unat (wrapping (len_or_default (room_payload s conn) :: (u32, local_ep) seq_offset))
      = window_room s conn"
    by (subst wrapping_len_or_default [OF room_payload_ok]) simp
  with le' show "seq_dist (snd_una conn) (seq_add (snd_nxt conn) (len_or_default (room_payload s conn)))
      = flight conn + window_room s conn"
    by (subst seq_dist_seq_add) simp_all
qed

lemma transmit_stream:
  assumes "transmit now s conn = (v, conn')" and "tcp_state conn = Established s"
  shows "stream_step conn [] v conn'"
proof -
  note sel = transmit_sel [OF assms(1)]
  have "raw (snd_nxt conn') = raw (snd_nxt conn) + of_nat (window_room s conn)"
    unfolding sel(5) using raw_add_len [OF room_payload_ok] by simp
  moreover have "fin_count conn' = 0"
    using assms(2) sel(1) by (simp add: fin_count_def)
  moreover have "window_respected conn'" if "window_room s conn \<noteq> 0"
    using room_sent_dist [OF that] assms(2) sel(1,3,5) by (simp add: window_respected_def)
  moreover have "reply_data v = take (window_room s conn) (send_buffer conn)"
    using sel(6,7) room_payload_bytes [of s conn] by (cases v) auto
  moreover have "window_room s conn \<le> length (send_buffer conn)" by (simp add: window_room_def)
  ultimately show ?thesis
    using sel(2,4,6,7) by (auto simp: stream_step_def)
qed

lemma drain_or_ack_stream:
  assumes "drain_or_ack now s conn = (Inr info, conn')" and "flight conn \<le> 2147483648"
    and "tcp_state conn = Established s"
  shows "stream_step conn [] (Some info) conn'" and "tcp_state conn' = tcp_state conn"
proof -
  obtain v c where t: "transmit now s conn = (v, c)" by (cases "transmit now s conn")
  note st = transmit_stream [OF t assms(3)]
  show "stream_step conn [] (Some info) conn'"
    using assms(1,2) t st transmit_sel(6) [OF t]
    by (cases v) (auto simp: drain_or_ack_eq stream_step_def pure_ack_def)
  show "tcp_state conn' = tcp_state conn"
    using assms(1,2) t transmit_sel(1) [OF t] by (cases v) (auto simp: drain_or_ack_eq)
qed

text \<open>Accepting a payload before a step adds it to what the step accepts.\<close>

lemma stream_step_accept:
  assumes "stream_step (accept_payload p conn) [] v conn'" and "payload_ok p"
  shows "stream_step conn (payload_data p) v conn'"
  using assms by (auto simp: stream_step_def raw_accept_payload)

text \<open>A step does not depend on how the connection's acknowledgment state got where it is.\<close>

lemma stream_step_cong:
  assumes "stream_step c d v conn'" and "send_buffer c = send_buffer conn"
    and "rcv_nxt c = rcv_nxt conn" and "snd_nxt c = snd_nxt conn"
  shows "stream_step conn d v conn'"
  using assms by (auto simp: stream_step_def)

lemma passive_close_stream:
  assumes "begin_passive_close_without_close_wait now seg v s conn = (Inr info, conn')"
    and "pred_option payload_ok v" and "send_side_of (in_flight_ok 2147483648) conn"
  shows "stream_step conn (payload_bytes v) (Some info) conn'"
proof -
  define c1 where "c1 = (case v of None \<Rightarrow> conn | Some payload \<Rightarrow> accept_payload payload conn)"
  define c2 where "c2 = ack_conn (c1\<lparr>rcv_nxt := seq_add (rcv_nxt c1) REMOTE_FIN_BYTE\<rparr>) seg"
  define s2 where "s2 = ack_window s (c1\<lparr>rcv_nxt := seq_add (rcv_nxt c1) REMOTE_FIN_BYTE\<rparr>) seg"
  have c1: "send_buffer c1 = send_buffer conn @ payload_bytes v" "snd_nxt c1 = snd_nxt conn"
      "raw (rcv_nxt c1) = raw (rcv_nxt conn) + of_nat (length (payload_bytes v))"
      "send_side_of (in_flight_ok 2147483648) c1"
    using assms(2,3) by (cases v; simp add: c1_def raw_accept_payload)+
  have "send_side_of (in_flight_ok 2147483648) c2"
    unfolding c2_def using c1(4) by (intro any_peer.ack_conn_open) auto
  then have "flight c2 \<le> 2147483648" by (simp add: in_flight_ok_def)
  then have conn': "conn' = c2\<lparr>send_buffer := drop (window_room s2 c2) (send_buffer c2),
        tcp_state := LastAck (skip_close_wait s2),
        snd_nxt := seq_add (seq_add (snd_nxt c2) (len_or_default (room_payload s2 c2))) LOCAL_FIN_BYTE,
        pending := pending c2 @ [pending_new info now]\<rparr>"
      and info: "si_payload info = room_payload s2 c2" "si_seq_num info = snd_nxt c2"
    using assms(1)
    by (auto simp: begin_passive_close_without_close_wait_def c1_def [symmetric] Let_def
        incoming_ack_update_eq c2_def [symmetric] s2_def [symmetric] drain_room
        simp del: ack_conn_update)
  have window: "window_respected conn'" if "si_payload info \<noteq> None"
    using that room_sent_dist [of s2 c2]
    by (simp add: window_respected_def conn' skip_close_wait_def seq_dist_seq_add LOCAL_FIN_BYTE_def
        info room_payload_None del: not_None_eq)
  have c2: "send_buffer c2 = send_buffer conn @ payload_bytes v" "snd_nxt c2 = snd_nxt conn"
      "raw (rcv_nxt c2) = raw (rcv_nxt conn) + of_nat (length (payload_bytes v)) + 1"
    using c1 by (simp_all add: c2_def seq_add_def phantom_bytes)
  have "reply_data (Some info) @ send_buffer conn' = send_buffer c2"
    by (simp add: info room_payload_bytes conn')
  moreover have "raw (snd_nxt conn') = raw (snd_nxt conn) + of_nat (length (reply_data (Some info))) + 1"
    using raw_add_len [OF room_payload_ok, of "snd_nxt c2" s2 c2] c2(2)
    by (simp add: conn' seq_add_def phantom_bytes info)
  moreover have "raw (rcv_nxt conn') = raw (rcv_nxt c2)" "fin_count conn' = 1"
    by (simp_all add: conn' fin_count_def)
  ultimately show ?thesis
    using c2 window info(2) by (auto simp: stream_step_def)
qed

lemma stream_step_idle:
  assumes "send_buffer conn' = send_buffer conn" and "rcv_nxt conn' = rcv_nxt conn"
    and "snd_nxt conn' = snd_nxt conn" and "fin_count conn' = 0"
    and "\<And>info. v = Some info \<Longrightarrow> si_payload info = None"
  shows "stream_step conn [] v conn'"
  using assms by (cases v) (auto simp: stream_step_def)

lemma handle_established_stream:
  assumes "handle_established now seg s conn = (Inr v, conn')" and "tcp_state conn = Established s"
    and "send_side_of (in_flight_ok 2147483648) conn" and "segment_ok seg"
  shows "stream_step conn (accepted_data conn seg) v conn'"
proof -
  define s2 where "s2 = ack_window s conn seg"
  define c2 where "c2 = (ack_conn conn seg)\<lparr>tcp_state := Established s2\<rparr>"
  have c2: "tcp_state c2 = Established s2" "send_buffer c2 = send_buffer conn"
      "rcv_nxt c2 = rcv_nxt conn" "snd_nxt c2 = snd_nxt conn"
    by (simp_all add: c2_def)
  have "send_side_of (in_flight_ok 2147483648) c2"
    using any_peer.ack_conn_open [OF assms(3)] by (simp add: c2_def)
  then have fl: "flight c2 \<le> 2147483648" by (simp add: in_flight_ok_def)
  consider (ack) "seg_flags seg = Ack" "seg_payload seg = None" "\<not> precedes (snd_nxt conn) (seg_ack_num seg)"
    | (data) p where "seg_flags seg = Ack" "seg_payload seg = Some p" "seg_seq_num seg = rcv_nxt conn"
        "\<not> precedes (snd_nxt conn) (seg_ack_num seg)"
    | (fin) "seg_flags seg = FinAck" "seg_seq_num seg = rcv_nxt conn"
    | (past) "seg_flags seg = Ack" "precedes (snd_nxt conn) (seg_ack_num seg)"
    | (dup) "seg_flags seg = Ack \<and> seg_payload seg \<noteq> None \<and> \<not> precedes (snd_nxt conn) (seg_ack_num seg)
          \<or> seg_flags seg = FinAck" "seg_seq_num seg \<noteq> rcv_nxt conn"
    | (other) "seg_flags seg \<noteq> Ack" "seg_flags seg \<noteq> FinAck"
    by (cases "seg_payload seg") blast+
  then show ?thesis
  proof cases
    case ack
    obtain w c3 where t: "transmit now s2 c2 = (w, c3)" by (cases "transmit now s2 c2")
    have "handle_established now seg s conn = (Inr w, c3)"
      using ack t fl
      by (cases "window_room s2 c2 = 0")
         (simp_all add: handle_established_def incoming_ack_update_eq s2_def [symmetric]
           c2_def [symmetric] drain_room transmit_def room_payload_def split: prod.splits)
    with assms(1) have "stream_step c2 [] v conn'" using transmit_stream [OF t] c2 by simp
    moreover have "accepted_data conn seg = []" using ack by (simp add: accepted_data_def)
    ultimately show ?thesis using c2 stream_step_cong by metis
  next
    case (data p)
    then obtain info where d: "drain_or_ack now s2 (accept_payload p c2) = (Inr info, conn')" "v = Some info"
      using assms(1)
      by (auto simp: handle_established_def incoming_ack_update_eq s2_def [symmetric]
          c2_def [symmetric] act_bind_eq_Inr)
    have p: "payload_ok p" using assms(4) data by (simp add: segment_ok_def)
    have "stream_step (accept_payload p c2) [] v conn'"
      using drain_or_ack_stream(1) [OF d(1)] fl d(2) c2 by simp
    from stream_step_accept [OF this p] have "stream_step conn (payload_data p) v conn'"
      using c2 stream_step_cong by metis
    with data assms(2) show ?thesis by (simp add: accepted_data_def)
  next
    case fin
    then obtain info where "begin_passive_close_without_close_wait now seg (seg_payload seg) s conn
        = (Inr info, conn')" "v = Some info"
      using assms(1) by (auto simp: handle_established_def act_bind_eq_Inr)
    with passive_close_stream [OF this(1) _ assms(3)] assms(2,4) fin show ?thesis
      by (simp add: accepted_data_def segment_ok_def)
  next
    case past
    with assms show ?thesis
      by (auto simp: handle_established_def accepted_data_def fin_count_def pure_ack_def
          intro!: stream_step_idle)
  next
    case dup
    with assms c2 show ?thesis
      by (auto simp: handle_established_def accepted_data_def fin_count_def pure_ack_def
          incoming_ack_update_eq s2_def [symmetric] c2_def [symmetric] intro!: stream_step_idle)
  next
    case other
    with assms show ?thesis
      by (auto simp: handle_established_def accepted_data_def fin_count_def rst_def
          intro!: stream_step_idle)
  qed
qed

lemma handle_syn_rcv_stream:
  assumes "handle_syn_rcv now seg m conn = (Inr v, conn')" and "tcp_state conn = SynReceived m"
    and "syn_rcv_ok conn" and "segment_ok seg"
  shows "stream_step conn (accepted_data conn seg) v conn'"
proof -
  let ?hs = "seg_seq_num seg = rcv_nxt conn \<and> precedes (snd_una conn) (seg_ack_num seg) \<and>
    precedes_or_eq (seg_ack_num seg) (snd_nxt conn)"
  define c1 where "c1 = snd (complete_handshake seg conn m)"
  have hs: "complete_handshake seg conn m = (establish m seg, c1)"
    by (simp add: complete_handshake_def c1_def Let_def)
  have c1: "send_side_of (in_flight_ok 2147483648) c1" "tcp_state c1 = Established (establish m seg)"
      "send_buffer c1 = send_buffer conn" "rcv_nxt c1 = rcv_nxt conn" "snd_nxt c1 = snd_nxt conn" if ?hs
    using that handshake_ack [OF assms(3), of "seg_ack_num seg"]
    by (simp_all add: c1_def complete_handshake_def Let_def in_flight_ok_def)
  consider (data) p where "seg_flags seg = Ack" ?hs "seg_payload seg = Some p"
    | (ack) "seg_flags seg = Ack" ?hs "seg_payload seg = None"
    | (fin) "seg_flags seg = FinAck" ?hs
    | (other) "\<not> ((seg_flags seg = Ack \<or> seg_flags seg = FinAck) \<and> ?hs)"
    by (cases "seg_payload seg") blast+
  then show ?thesis
  proof cases
    case (data p)
    then obtain info where d: "drain_or_ack now (establish m seg) (accept_payload p c1) = (Inr info, conn')"
        "v = Some info"
      using assms(1) by (auto simp: handle_syn_rcv_def hs act_bind_eq_Inr)
    have "stream_step (accept_payload p c1) [] v conn'"
      using drain_or_ack_stream(1) [OF d(1)] d(2) c1 [OF data(2)] by (simp add: in_flight_ok_def)
    from stream_step_accept [OF this] assms(4) data have "stream_step c1 (payload_data p) v conn'"
      by (simp add: segment_ok_def)
    then have "stream_step conn (payload_data p) v conn'"
      using c1 [OF data(2)] stream_step_cong by metis
    with data assms(2) show ?thesis by (simp add: accepted_data_def)
  next
    case ack
    with assms(1,2) c1 [OF ack(2)] show ?thesis
      by (auto simp: handle_syn_rcv_def hs accepted_data_def fin_count_def intro!: stream_step_idle)
  next
    case fin
    then obtain info where "begin_passive_close_without_close_wait now seg (seg_payload seg)
        (establish m seg) c1 = (Inr info, conn')" "v = Some info"
      using assms(1) by (auto simp: handle_syn_rcv_def hs act_bind_eq_Inr)
    with passive_close_stream [OF this(1) _ c1(1) [OF fin(2)]] assms(4)
    have "stream_step c1 (payload_bytes (seg_payload seg)) v conn'" by (simp add: segment_ok_def)
    then have "stream_step conn (payload_bytes (seg_payload seg)) v conn'"
      using c1 [OF fin(2)] stream_step_cong by metis
    with fin assms(2) show ?thesis by (simp add: accepted_data_def)
  next
    case other
    then have "accepted_data conn seg = []" using assms(2) by (auto simp: accepted_data_def)
    with other assms(1,2) show ?thesis
      by (auto simp: handle_syn_rcv_def fin_count_def pure_ack_def rst_def Let_def
          intro!: stream_step_idle split: if_splits)
  qed
qed

section \<open>A connection and its streams\<close>

text \<open>After the server's active close the client may send data that is acknowledged, not echoed.\<close>

definition actively_closed :: "conn_state \<Rightarrow> bool" where
  "actively_closed conn \<longleftrightarrow>
     (case tcp_state conn of FinWait1 _ \<Rightarrow> True | FinWait2 _ \<Rightarrow> True | Closing _ \<Rightarrow> True | _ \<Rightarrow> False)"

definition streams_ok :: "u32 \<Rightarrow> u32 \<Rightarrow> conn_state \<Rightarrow> bytes \<Rightarrow> bytes \<Rightarrow> bool" where
  "streams_ok iss irs conn rcvd sent \<longleftrightarrow>
     rcvd = sent @ send_buffer conn \<and>
     (\<not> actively_closed conn \<longrightarrow>
        raw (rcv_nxt conn) = irs + 1 + of_nat (length rcvd) + of_nat (fin_count conn) \<and>
        raw (snd_nxt conn) = iss + 1 + of_nat (length sent) + of_nat (fin_count conn))"

lemma streams_ok_step:
  assumes "streams_ok iss irs conn rcvd sent" and "stream_step conn d v conn'"
    and "\<not> actively_closed conn" and "fin_count conn = 0"
  shows "streams_ok iss irs conn' (rcvd @ d) (sent @ reply_data v)"
  using assms by (auto simp: streams_ok_def stream_step_def)

lemma streams_ok_idle:
  assumes "streams_ok iss irs conn rcvd sent" and "send_buffer conn' = send_buffer conn"
    and "actively_closed conn' \<or> \<not> actively_closed conn \<and> rcv_nxt conn' = rcv_nxt conn \<and>
      snd_nxt conn' = snd_nxt conn \<and> fin_count conn' = fin_count conn"
  shows "streams_ok iss irs conn' rcvd sent"
  using assms by (auto simp: streams_ok_def)

lemma handle_known_conn_streams:
  assumes "conn_ok (in_flight_ok 2147483648) (in_flight_ok 2147483649) conn" and "segment_ok seg"
    and "handle_known_conn now seg key conn conns = (Inr v, conns')" and "conns_wf conns"
    and "conn_get conns key = Some conn" and "conn_get conns' key = Some conn'"
    and "streams_ok iss irs conn rcvd sent"
  shows "streams_ok iss irs conn' (rcvd @ accepted_data conn seg) (sent @ reply_data v)"
proof (cases "tcp_state conn")
  case (SynReceived m)
  then have h: "handle_syn_rcv now seg m conn = (Inr v, conn')"
    using assms(3,6) by (auto simp: handle_known_conn_def split: prod.splits)
  have "syn_rcv_ok conn" using assms(1) SynReceived by (simp add: conn_ok_def)
  from handle_syn_rcv_stream [OF h SynReceived this assms(2)] assms(7) SynReceived show ?thesis
    by (auto simp: actively_closed_def fin_count_def intro: streams_ok_step)
next
  case (Established s)
  then have h: "handle_established now seg s conn = (Inr v, conn')"
    using assms(3,6) by (auto simp: handle_known_conn_def split: prod.splits)
  have "send_side_of (in_flight_ok 2147483648) conn" using assms(1) Established by (simp add: conn_ok_def)
  from handle_established_stream [OF h Established this assms(2)] assms(7) Established show ?thesis
    by (auto simp: actively_closed_def fin_count_def intro: streams_ok_step)
next
  case (FinWait1 s)
  then have "accepted_data conn seg = []" by (simp add: accepted_data_def)
  with assms(3-7) FinWait1 show ?thesis
    by (auto simp: handle_known_conn_def handle_fin_wait_1_def Let_def incoming_ack_update_eq
        pure_ack_def rst_def conn_get_remove actively_closed_def
        intro!: streams_ok_idle [OF assms(7)] split: if_splits)
next
  case (FinWait2 s)
  then have "accepted_data conn seg = []" by (simp add: accepted_data_def)
  with assms(3-7) FinWait2 show ?thesis
    by (auto simp: handle_known_conn_def handle_fin_wait_2_def Let_def incoming_ack_update_eq
        pure_ack_def rst_def conn_get_remove actively_closed_def
        intro!: streams_ok_idle [OF assms(7)] split: if_splits)
next
  case (Closing s)
  then have "accepted_data conn seg = []" by (simp add: accepted_data_def)
  with assms(3-7) Closing show ?thesis
    by (auto simp: handle_known_conn_def handle_closing_def rst_def conn_get_remove split: if_splits)
next
  case (LastAck s)
  then have "accepted_data conn seg = []" by (simp add: accepted_data_def)
  with assms(3-7) LastAck show ?thesis
    by (auto simp: handle_known_conn_def handle_last_ack_def Let_def incoming_ack_update_eq
        rst_def conn_get_remove actively_closed_def fin_count_def
        intro!: streams_ok_idle [OF assms(7)] split: if_splits)
qed

lemma decide_reply_streams:
  assumes "conns_ok (in_flight_ok 2147483648) (in_flight_ok 2147483649) conns" and "segment_ok seg"
    and "conn_get conns (seg_key seg) = Some conn"
    and "decide_reply random now seg conns = (Inr v, conns')"
    and "conn_get conns' (seg_key seg) = Some conn'" and "streams_ok iss irs conn rcvd sent"
  shows "streams_ok iss irs conn' (rcvd @ accepted_data conn seg) (sent @ reply_data v)"
proof -
  have ok: "conn_ok (in_flight_ok 2147483648) (in_flight_ok 2147483649) conn" "conns_wf conns"
    using assms(1,3) by (auto simp: conns_ok_def)
  consider (rst) "seg_flags seg = Rst \<or> seg_flags seg = RstAck"
    | (syn) "seg_flags seg = Syn \<or> seg_flags seg = SynAck" "\<not> is_syn_received (tcp_state conn)"
    | (handled) "handle_known_conn now seg (seg_key seg) conn conns = (Inr v, conns')"
    using assms(3,4) by (auto simp: decide_reply_def Let_def split: if_splits)
  then show ?thesis
  proof cases
    case handled
    from handle_known_conn_streams [OF ok(1) assms(2) this ok(2) assms(3,5,6)] show ?thesis .
  next
    case rst
    with assms ok(2) show ?thesis
      by (auto simp: decide_reply_def Let_def conn_get_remove accepted_data_def pure_ack_def
          split: if_splits)
  next
    case syn
    with assms ok(2) show ?thesis
      by (auto simp: decide_reply_def Let_def accepted_data_def pure_ack_def split: if_splits)
  qed
qed

text \<open>A reply that carries data comes from a connection with an open send side and is a stream step of it.\<close>

lemma data_reply_step:
  assumes "conns_ok (in_flight_ok 2147483648) (in_flight_ok 2147483649) conns" and "segment_ok seg"
    and "conn_get conns (seg_key seg) = Some conn"
    and "decide_reply random now seg conns = (Inr (Some info), conns')" and "si_payload info \<noteq> None"
  shows "\<not> actively_closed conn \<and> fin_count conn = 0 \<and>
    (\<exists>d conn'. stream_step conn d (Some info) conn' \<and> conn_get conns' (seg_key seg) = Some conn')"
proof -
  have ok: "conn_ok (in_flight_ok 2147483648) (in_flight_ok 2147483649) conn" "conns_wf conns"
    using assms(1,3) by (auto simp: conns_ok_def)
  have known: "handle_known_conn now seg (seg_key seg) conn conns = (Inr (Some info), conns')"
    using assms(3-5) by (auto simp: decide_reply_def Let_def pure_ack_def split: if_splits)
  show ?thesis
  proof (cases "tcp_state conn")
    case (SynReceived m)
    obtain r conn' where h: "handle_syn_rcv now seg m conn = (r, conn')"
      by (cases "handle_syn_rcv now seg m conn")
    then have "r = Inr (Some info)" "conns' = conn_set (seg_key seg) conn' conns"
      using known SynReceived by (auto simp: handle_known_conn_def)
    moreover have "syn_rcv_ok conn" using ok(1) SynReceived by (simp add: conn_ok_def)
    ultimately show ?thesis using handle_syn_rcv_stream [OF _ SynReceived _ assms(2)] h SynReceived
      by (fastforce simp: actively_closed_def fin_count_def)
  next
    case (Established s)
    obtain r conn' where h: "handle_established now seg s conn = (r, conn')"
      by (cases "handle_established now seg s conn")
    then have "r = Inr (Some info)" "conns' = conn_set (seg_key seg) conn' conns"
      using known Established by (auto simp: handle_known_conn_def)
    moreover have "send_side_of (in_flight_ok 2147483648) conn" using ok(1) Established by (simp add: conn_ok_def)
    ultimately show ?thesis using handle_established_stream [OF _ Established _ assms(2)] h Established
      by (fastforce simp: actively_closed_def fin_count_def)
  qed (use known assms(5) in \<open>auto simp: handle_known_conn_def handle_fin_wait_1_def handle_fin_wait_2_def
      handle_closing_def handle_last_ack_def Let_def pure_ack_def rst_def incoming_ack_update_eq
      split: if_splits\<close>)
qed

section \<open>A concrete exchange\<close>

text \<open>A client at 10.0.0.2:50000 that sends \<open>hi\<close> with the last segment of the handshake.\<close>

definition demo_cfg :: rto_config where
  "demo_cfg = \<lparr>rto_initial = 1, rto_min = 1, rto_max = 4\<rparr>"

definition demo_syn :: remote_segment where
  "demo_syn = \<lparr>seg_ip_pair = Ipv4AddrPair (Ipv4Addr 10 0 0 2) (Ipv4Addr 10 0 0 1),
     seg_ports = PortPair 50000 7, seg_seq_num = SeqPoint 100, seg_ack_num = SeqPoint 0,
     seg_offset_bytes = 20, seg_flags = Syn, seg_window = SeqOffset 1000, seg_payload = None\<rparr>"

definition demo_data :: remote_segment where
  "demo_data = demo_syn\<lparr>seg_seq_num := SeqPoint 101, seg_ack_num := SeqPoint 8, seg_flags := Ack,
     seg_payload := Some \<lparr>payload_data = [0x68, 0x69], payload_len = 2\<rparr>\<rparr>"

lemma demo_keys [simp]: "seg_key demo_data = seg_key demo_syn"
  by (simp add: demo_data_def seg_key_def)

lemma demo_segments_ok: "segment_ok demo_syn" "segment_ok demo_data"
  by (simp_all add: segment_ok_def demo_syn_def demo_data_def payload_ok_def)

lemma demo_steps:
  "\<exists>r conns1 info conns2 conn1.
     decide_reply (Inr 7) 0 demo_syn (connections_new demo_cfg 3) = (r, conns1) \<and>
     conn_get conns1 (seg_key demo_syn) = Some conn1 \<and> accepted_data conn1 demo_data = [0x68, 0x69] \<and>
     decide_reply (Inr 7) 1 demo_data conns1 = (Inr (Some info), conns2) \<and>
     conn_get conns2 (seg_key demo_syn) \<noteq> None \<and>
     si_payload info = Some \<lparr>payload_data = [0x68, 0x69], payload_len = 2\<rparr>"
proof -
  have d: "precedes (SeqPoint 7 :: local_ep seq_point) (SeqPoint 8)"
      "precedes_or_eq (SeqPoint 8 :: local_ep seq_point) (SeqPoint 8)"
      "offset_past (SeqPoint 8 :: local_ep seq_point) (SeqPoint 8) = Some (SeqOffset 0)"
    by (simp_all add: seq_simps) (simp add: seq_dist_def)
  show ?thesis
    by (simp add: decide_reply_def handle_unknown_conn_def from_syn_ack_def insert_syn_rcv_eq Let_def
        demo_syn_def demo_data_def seq_add_def phantom_bytes d accepted_data_def
        handle_known_conn_def handle_syn_rcv_def complete_handshake_def establish_def seg_key_def
        accept_payload_def act_bind_def drain_or_ack_def drain_transmittable_def
        usize_try_from_offset_def u32_of_u16_offset_def offset_saturating_sub_def
        offset_of_nonzero_def u16_try_from_def data_payload_def)
qed

section \<open>Properties\<close>

text \<open>
  C8. Flow control: whenever the reply to a segment carries data, the connection it leaves has no
  more sequence numbers in flight than the window it has on record from the client (one more for the
  FIN that a passive close adds), and the data starts where SND.NXT stood.
\<close>

theorem flow_control:
  assumes "tcp_reach (\<lambda>_ _. True) cfg retries conns" and "segment_ok seg"
    and "conn_get conns (seg_key seg) = Some conn"
    and "decide_reply random now seg conns = (Inr (Some info), conns')" and "si_payload info \<noteq> None"
  shows "\<exists>conn'. conn_get conns' (seg_key seg) = Some conn' \<and> si_seq_num info = snd_nxt conn \<and>
    (case tcp_state conn' of
       Established s \<Rightarrow> seq_dist (snd_una conn') (snd_nxt conn') \<le> unat (wrapping (snd_wnd (window_state s)))
     | LastAck s \<Rightarrow> seq_dist (snd_una conn') (snd_nxt conn') \<le> unat (wrapping (snd_wnd (window_state s))) + 1
     | _ \<Rightarrow> False)"
  using data_reply_step [OF tcp_reach_any [OF assms(1)] assms(2-5)] assms(5)
  by (fastforce simp: stream_step_def window_respected_def)

theorem flow_control_witness:
  "\<exists>conns conn info conns' conn'. tcp_reach (\<lambda>_ _. True) demo_cfg 3 conns \<and> segment_ok demo_data \<and>
     conn_get conns (seg_key demo_data) = Some conn \<and>
     decide_reply (Inr 7) 1 demo_data conns = (Inr (Some info), conns') \<and> si_payload info \<noteq> None \<and>
     conn_get conns' (seg_key demo_data) = Some conn' \<and> si_seq_num info = snd_nxt conn"
proof -
  obtain r conns1 info conns2 conn1 where steps:
    "decide_reply (Inr 7) 0 demo_syn (connections_new demo_cfg 3) = (r, conns1)"
    "conn_get conns1 (seg_key demo_syn) = Some conn1"
    "decide_reply (Inr 7) 1 demo_data conns1 = (Inr (Some info), conns2)"
    "si_payload info = Some \<lparr>payload_data = [0x68, 0x69], payload_len = 2\<rparr>"
    using demo_steps by blast
  have reach: "tcp_reach (\<lambda>_ _. True) demo_cfg 3 conns1"
    by (rule tcp_reach.reach_segment [OF tcp_reach.reach_new TrueI steps(1)])
  have data: "conn_get conns1 (seg_key demo_data) = Some conn1" "si_payload info \<noteq> None"
    using steps(2,4) by simp_all
  from flow_control [OF reach demo_segments_ok(2) data(1) steps(3) data(2)] reach demo_segments_ok(2) data steps(3)
  show ?thesis by blast
qed

end
