(* ===== verification/Router.thy ===== *)
theory Router
  imports Udp Icmp_Echo Echo_Stream
begin

text \<open>
  Static dispatch over the protocols (\<open>src/protocol/router.rs\<close>): parsing a payload by its protocol,
  creating the reply, and the router as an encoder itself. The part of \<open>Encode\<close> that addresses a
  packet extends the encoder interface.
\<close>

datatype ('s, 'p) protocol_router =
    RouterIcmp "'s icmp_echo_msg"
  | RouterTcp "('s, 'p) tcp_segment"
  | RouterUdp "'s udp_datagram"

type_synonym remote_router = "(remote_ep, local_ep) protocol_router"
type_synonym local_router = "(local_ep, remote_ep) protocol_router"

fun router_parse :: "bytes \<Rightarrow> protocol \<Rightarrow> remote_ep ipv4_addr_pair \<Rightarrow> remote_router result" where
  "router_parse data Icmp ip_pair = result_map RouterIcmp (icmp_parse data ip_pair)"
| "router_parse data Tcp ip_pair = result_map RouterTcp (tcp_parse data ip_pair)"
| "router_parse data Udp ip_pair = result_map RouterUdp (udp_parse data ip_pair)"

fun router_create_reply ::
    "u32 result \<Rightarrow> instant \<Rightarrow> remote_router \<Rightarrow> (tcp_connections, local_router option) action" where
  "router_create_reply random now (RouterIcmp msg) = act_return (Some (RouterIcmp (icmp_create_reply msg)))"
| "router_create_reply random now (RouterTcp seg) =
     act_bind (tcp_create_reply random now seg) (\<lambda>reply. act_return (map_option RouterTcp reply))"
| "router_create_reply random now (RouterUdp dgram) = act_return (Some (RouterUdp (udp_create_reply dgram)))"

fun router_write_into :: "local_router \<Rightarrow> (bytes, u16) action" where
  "router_write_into (RouterIcmp msg) = icmp_write_into msg"
| "router_write_into (RouterTcp seg) = tcp_write_into seg"
| "router_write_into (RouterUdp dgram) = udp_write_into dgram"

fun router_proto :: "('s, 'p) protocol_router \<Rightarrow> protocol" where
  "router_proto (RouterIcmp msg) = Icmp"
| "router_proto (RouterTcp seg) = Tcp"
| "router_proto (RouterUdp dgram) = Udp"

fun router_get_ip_pair :: "('s, 'p) protocol_router \<Rightarrow> 's ipv4_addr_pair" where
  "router_get_ip_pair (RouterIcmp msg) = icmp_ip_pair msg"
| "router_get_ip_pair (RouterTcp seg) = seg_ip_pair seg"
| "router_get_ip_pair (RouterUdp dgram) = udp_ip_pair dgram"

section \<open>The router as an encoder\<close>

fun router_wire :: "local_router \<Rightarrow> bytes" where
  "router_wire (RouterIcmp msg) = icmp_wire msg"
| "router_wire (RouterTcp seg) = tcp_wire seg"
| "router_wire (RouterUdp dgram) = udp_wire dgram"

fun router_ok :: "local_router \<Rightarrow> bool" where
  "router_ok (RouterTcp seg) = segment_ok seg"
| "router_ok _ = True"

interpretation router_enc: encoder router_write_into router_wire router_ok
proof
  fix m :: local_router and buf :: bytes
  assume "router_ok m" "length (router_wire m) \<le> length buf" "length buf \<le> ETHERNET_MTU"
  then show "router_write_into m buf
      = (Inr (of_nat (length (router_wire m))), router_wire m @ drop (length (router_wire m)) buf)"
    by (cases m) (simp_all only: router_write_into.simps router_wire.simps router_ok.simps
        icmp_enc.write_into_fits tcp_enc.write_into_fits udp_enc.write_into_fits)
next
  fix m :: local_router and buf :: bytes
  assume "router_ok m" "length buf < length (router_wire m)"
  then show "\<exists>e buf'. router_write_into m buf = (Inl e, buf') \<and> e \<noteq> Panicked \<and> length buf' = length buf"
    by (cases m) (simp_all only: router_write_into.simps router_wire.simps router_ok.simps
        icmp_enc.write_into_too_long tcp_enc.write_into_too_long udp_enc.write_into_too_long)
qed

section \<open>Replies\<close>

lemma router_parse_Inr:
  assumes "router_parse data protocol ip_pair = Inr router"
  shows "router_get_ip_pair router = ip_pair" and "router_proto router = protocol"
    and "\<And>seg. router = RouterTcp seg \<Longrightarrow> segment_ok seg"
proof -
  have "router_get_ip_pair router = ip_pair \<and> router_proto router = protocol \<and>
    (\<forall>seg. router = RouterTcp seg \<longrightarrow> segment_ok seg)"
  proof (cases protocol)
    case Icmp
    with assms icmp_parse_Inr show ?thesis by (fastforce simp: result_map_eq_Inr)
  next
    case Tcp
    with assms tcp_inner_parse_Inr(1,4) show ?thesis
      by (fastforce simp: result_map_eq_Inr tcp_parse_def)
  next
    case Udp
    with assms show ?thesis
      by (auto simp: result_map_eq_Inr udp_parse_def Let_def result_bind_eq_Inr split: if_splits)
  qed
  then show "router_get_ip_pair router = ip_pair" "router_proto router = protocol"
    "\<And>seg. router = RouterTcp seg \<Longrightarrow> segment_ok seg" by simp_all
qed

lemma tcp_create_reply_swapped:
  assumes "tcp_create_reply random now seg conns = (Inr (Some reply), conns')"
  shows "seg_ip_pair reply = ip_swapped (seg_ip_pair seg)" and "seg_ports reply = ports_swapped (seg_ports seg)"
  using assms by (auto simp: tcp_create_reply_def act_bind_eq_Inr from_pairs_and_info_def)

lemma router_create_reply_swapped:
  assumes "router_create_reply random now router conns = (Inr (Some reply), conns')"
  shows "router_get_ip_pair reply = ip_swapped (router_get_ip_pair router)"
    and "router_proto reply = router_proto router"
  using assms
  by (cases router; auto simp: act_bind_eq_Inr icmp_create_reply_def dest: tcp_create_reply_swapped)+

lemma router_create_reply_ok:
  assumes "conns_ok (in_flight_ok 2147483648) (in_flight_ok 2147483649) conns"
    and "router_create_reply random now router conns = (r, conns')"
  shows "conns_ok (in_flight_ok 2147483648) (in_flight_ok 2147483649) conns'"
    and "r = Inr (Some reply) \<Longrightarrow> router_ok reply"
proof -
  have "conns_ok (in_flight_ok 2147483648) (in_flight_ok 2147483649) conns' \<and>
      (r = Inr (Some reply) \<longrightarrow> router_ok reply)"
  proof (cases router)
    case (RouterTcp seg)
    with assms any_peer.tcp_create_reply_ok [OF assms(1), of seg random now] show ?thesis
      by (auto simp: act_bind_def split: prod.splits sum.splits)
  qed (use assms in auto)
  then show "conns_ok (in_flight_ok 2147483648) (in_flight_ok 2147483649) conns'"
    "r = Inr (Some reply) \<Longrightarrow> router_ok reply" by simp_all
qed

end
