(* ===== verification/Display.thy ===== *)
theory Display
  imports Router
begin

text \<open>
  What the server prints of packets: the number and payload formatting of
  \<open>src/protocol/display.rs\<close> and the \<open>Display\<close> implementations of the headers. Rust strings are UTF-8
  byte strings; so are the \<open>string\<close>s here. \<open>escape_debug\<close> of the Rust library depends on Unicode
  tables and is a parameter.
\<close>

section \<open>Numbers\<close>

definition digit :: "nat \<Rightarrow> char" where
  "digit d = char_of (48 + d)"

fun dec :: "nat \<Rightarrow> string" where
  "dec n = (if n < 10 then [digit n] else dec (n div 10) @ [digit (n mod 10)])"

declare dec.simps [simp del]

text \<open>\<open>{:0w}\<close>\<close>

definition zero_padded :: "nat \<Rightarrow> string \<Rightarrow> string" where
  "zero_padded w s = replicate (w - length s) (digit 0) @ s"

definition hex_digit :: "nat \<Rightarrow> char" where
  "hex_digit d = (if d < 10 then char_of (48 + d) else char_of (87 + d))"

text \<open>\<open>{b:02x}\<close>\<close>

definition hex02 :: "u8 \<Rightarrow> string" where
  "hex02 b = [hex_digit (unat b div 16), hex_digit (unat b mod 16)]"

fun thousands_separated :: "nat \<Rightarrow> string" where
  "thousands_separated n =
     (if n div 1000 = 0 then dec (n mod 1000)
      else thousands_separated (n div 1000) @ '','' @ zero_padded 3 (dec (n mod 1000)))"

declare thousands_separated.simps [simp del]

section \<open>Payloads\<close>

text \<open>\<open>str::from_utf8\<close> succeeds: one well-formed sequence after another.\<close>

definition is_cont :: "u8 \<Rightarrow> bool" where
  "is_cont b \<longleftrightarrow> 0x80 \<le> b \<and> b \<le> 0xBF"

fun is_utf8 :: "bytes \<Rightarrow> bool" where
  "is_utf8 [] = True"
| "is_utf8 (b # bs) =
     (if b < 0x80 then is_utf8 bs
      else if 0xC2 \<le> b \<and> b \<le> 0xDF then
        (case bs of c # cs \<Rightarrow> is_cont c \<and> is_utf8 cs | _ \<Rightarrow> False)
      else if 0xE0 \<le> b \<and> b \<le> 0xEF then
        (case bs of c # d # ds \<Rightarrow>
           (if b = 0xE0 then 0xA0 \<le> c \<and> c \<le> 0xBF else if b = 0xED then 0x80 \<le> c \<and> c \<le> 0x9F else is_cont c)
             \<and> is_cont d \<and> is_utf8 ds
         | _ \<Rightarrow> False)
      else if 0xF0 \<le> b \<and> b \<le> 0xF4 then
        (case bs of c # d # e # es \<Rightarrow>
           (if b = 0xF0 then 0x90 \<le> c \<and> c \<le> 0xBF else if b = 0xF4 then 0x80 \<le> c \<and> c \<le> 0x8F else is_cont c)
             \<and> is_cont d \<and> is_cont e \<and> is_utf8 es
         | _ \<Rightarrow> False)
      else False)"

record pretty_payload =
  pp_data :: bytes
  pp_include_content :: bool

definition hex_dump :: "bytes \<Rightarrow> string" where
  "hex_dump data = concat (map (\<lambda>(i, b).
     (if length data \<le> 16 \<or> i mod 16 \<noteq> 0 then CHR '' '' else char_of (10 :: nat)) # hex02 b)
     (List.enumerate 0 data))"

definition fmt_pretty_payload :: "(bytes \<Rightarrow> string) \<Rightarrow> pretty_payload \<Rightarrow> string" where
  "fmt_pretty_payload escape_debug p =
     (if is_utf8 (pp_data p) then
        if pp_data p = [] then ''<no payload>''
        else dec (length (pp_data p)) @ ''-byte UTF-8 payload'' @
          (if pp_include_content p then '': '' @ escape_debug (pp_data p) else [])
      else
        dec (length (pp_data p)) @ ''-byte non-UTF-8 payload'' @
          (if pp_include_content p then '':'' @ hex_dump (pp_data p) else []))"

section \<open>Headers\<close>

fun fmt_ipv4_addr :: "ipv4_addr \<Rightarrow> string" where
  "fmt_ipv4_addr (Ipv4Addr a b c d) =
     dec (unat a) @ ''.'' @ dec (unat b) @ ''.'' @ dec (unat c) @ ''.'' @ dec (unat d)"

definition fmt_ipv4_addr_pair :: "'s ipv4_addr_pair \<Rightarrow> string" where
  "fmt_ipv4_addr_pair p = fmt_ipv4_addr (ip_src p) @ '' -> '' @ fmt_ipv4_addr (ip_dst p)"

definition fmt_port_pair :: "'s port_pair \<Rightarrow> string" where
  "fmt_port_pair p = dec (unat (port_src p)) @ '' -> '' @ dec (unat (port_dst p))"

fun fmt_protocol :: "protocol \<Rightarrow> string" where
  "fmt_protocol Icmp = ''ICMP''"
| "fmt_protocol Tcp = ''TCP''"
| "fmt_protocol Udp = ''UDP''"

definition fmt_ipv4_header :: "'s ipv4_header \<Rightarrow> string" where
  "fmt_ipv4_header h =
     ''IPv4 | '' @ dec (unat (total_len h)) @ '' bytes total | '' @ fmt_protocol (hdr_protocol h)
       @ '' | '' @ fmt_ipv4_addr_pair (hdr_ip_pair h)"

fun fmt_tcp_flags :: "tcp_flags \<Rightarrow> string" where
  "fmt_tcp_flags Syn = ''SYN''"
| "fmt_tcp_flags SynAck = ''SYN-ACK''"
| "fmt_tcp_flags Ack = ''ACK''"
| "fmt_tcp_flags FinAck = ''FIN-ACK''"
| "fmt_tcp_flags Rst = ''RST''"
| "fmt_tcp_flags RstAck = ''RST-ACK''"

definition fmt_seq_point :: "'s seq_point \<Rightarrow> string" where
  "fmt_seq_point p = thousands_separated (unat (raw p))"

definition fmt_seq_offset :: "('a::len word, 's) seq_offset \<Rightarrow> string" where
  "fmt_seq_offset v = thousands_separated (unat (wrapping v))"

definition fmt_tcp_segment :: "('s, 'p) tcp_segment \<Rightarrow> string" where
  "fmt_tcp_segment seg =
     ''TCP | '' @ fmt_port_pair (seg_ports seg) @ '' | seq='' @ fmt_seq_point (seg_seq_num seg)
       @ '' ack='' @ fmt_seq_point (seg_ack_num seg) @ '' win='' @ fmt_seq_offset (seg_window seg)
       @ '' | '' @ fmt_tcp_flags (seg_flags seg)"

definition fmt_udp_datagram :: "'s udp_datagram \<Rightarrow> string" where
  "fmt_udp_datagram d = ''UDP | '' @ fmt_port_pair (udp_ports d)"

definition fmt_icmp_echo_msg :: "'s icmp_echo_msg \<Rightarrow> string" where
  "fmt_icmp_echo_msg m =
     ''ICMP | type='' @ dec (unat (icmp_type m)) @ '' code='' @ dec (unat ICMP_CODE_ECHO) @ '' (''
       @ (if icmp_type m = ICMP_TYPE_ECHO_REQUEST then ''Echo Request''
          else if icmp_type m = ICMP_TYPE_ECHO_REPLY then ''Echo Reply''
          else ''unknown type'')
       @ '') | identifier='' @ thousands_separated (unat (icmp_identifier m))
       @ '' sequence='' @ thousands_separated (unat (icmp_sequence m))"

fun fmt_router :: "('s, 'p) protocol_router \<Rightarrow> string" where
  "fmt_router (RouterIcmp msg) = fmt_icmp_echo_msg msg"
| "fmt_router (RouterTcp seg) = fmt_tcp_segment seg"
| "fmt_router (RouterUdp dgram) = fmt_udp_datagram dgram"

text \<open>The \<open>pretty_payload\<close> methods.\<close>

definition icmp_pretty_payload :: "'s icmp_echo_msg \<Rightarrow> bool \<Rightarrow> pretty_payload" where
  "icmp_pretty_payload m include_content =
     \<lparr>pp_data = icmp_payload m, pp_include_content = include_content\<rparr>"

definition udp_pretty_payload :: "'s udp_datagram \<Rightarrow> bool \<Rightarrow> pretty_payload" where
  "udp_pretty_payload d include_content =
     \<lparr>pp_data = udp_payload d, pp_include_content = include_content\<rparr>"

definition tcp_pretty_payload :: "('s, 'p) tcp_segment \<Rightarrow> bool \<Rightarrow> pretty_payload" where
  "tcp_pretty_payload seg include_content =
     \<lparr>pp_data = (case seg_payload seg of None \<Rightarrow> [] | Some p \<Rightarrow> payload_data p),
      pp_include_content = include_content\<rparr>"

fun router_pretty_payload :: "('s, 'p) protocol_router \<Rightarrow> bool \<Rightarrow> pretty_payload" where
  "router_pretty_payload (RouterIcmp msg) include_content = icmp_pretty_payload msg include_content"
| "router_pretty_payload (RouterTcp seg) include_content = tcp_pretty_payload seg include_content"
| "router_pretty_payload (RouterUdp dgram) include_content = udp_pretty_payload dgram include_content"

section \<open>Facts about numbers\<close>

lemma dec_step: "n \<ge> 10 \<Longrightarrow> dec n = dec (n div 10) @ [digit (n mod 10)]"
  by (simp add: dec.simps [of n])

lemma dec_small: "n < 10 \<Longrightarrow> dec n = [digit n]"
  by (simp add: dec.simps)

lemma replicate_one_two: "replicate (Suc 0) c = [c]" "replicate 2 c = [c, c]"
  by (simp_all add: numeral_2_eq_2)

lemma mod_mult_div: "0 < a \<Longrightarrow> (n :: nat) mod (a * b) div a = n div a mod b"
  by (simp add: mod_mult2_eq)

lemma zero_padded_dec3:
  assumes "n < 1000"
  shows "zero_padded 3 (dec n) = [digit (n div 100), digit (n div 10 mod 10), digit (n mod 10)]"
proof -
  consider "n < 10" | "10 \<le> n" "n < 100" | "100 \<le> n" by linarith
  then show ?thesis
  proof cases
    case 1
    then have "dec n = [digit n]" by (rule dec_small)
    with 1 show ?thesis by (simp add: zero_padded_def replicate_one_two)
  next
    case 2
    then have "dec n = [digit (n div 10), digit (n mod 10)]"
      using dec_step [of n] dec_small [of "n div 10"] by simp
    moreover have "n div 100 = 0" "n div 10 mod 10 = n div 10" using 2 by simp_all
    ultimately show ?thesis by (simp only: zero_padded_def) (simp add: replicate_one_two)
  next
    case 3
    then have "dec n = [digit (n div 100), digit (n div 10 mod 10), digit (n mod 10)]"
      using assms dec_step [of n] dec_step [of "n div 10"] dec_small [of "n div 10 div 10"]
      by (simp add: div_mult2_eq [symmetric])
    then show ?thesis by (simp add: zero_padded_def)
  qed
qed

lemma dec_thousands:
  assumes "1000 \<le> n"
  shows "dec n = dec (n div 1000) @ zero_padded 3 (dec (n mod 1000))"
proof -
  have "dec n = dec (n div 10 div 10 div 10) @ [digit (n div 10 div 10 mod 10), digit (n div 10 mod 10), digit (n mod 10)]"
    using assms dec_step [of n] dec_step [of "n div 10"] dec_step [of "n div 10 div 10"] by simp
  moreover have "n div 10 div 10 mod 10 = n mod 1000 div 100"
    using mod_mult_div [of 100 n 10] by (simp add: div_mult2_eq [symmetric])
  moreover have "n div 10 mod 10 = n mod 1000 div 10 mod 10"
    using mod_mult_div [of 10 n 100] by (simp add: mod_mod_cancel)
  moreover have "n mod 10 = n mod 1000 mod 10" "n div 10 div 10 div 10 = n div 1000"
    by (simp_all add: mod_mod_cancel div_mult2_eq [symmetric])
  ultimately show ?thesis by (simp add: zero_padded_dec3)
qed

lemma digit_not_comma: "d < 10 \<Longrightarrow> digit d \<noteq> CHR '',''"
proof
  assume "d < 10" "digit d = CHR '',''"
  then have "of_char (char_of (48 + d) :: char) = (44 :: nat)" by (simp add: digit_def)
  with \<open>d < 10\<close> show False by (simp add: of_char_of)
qed

lemma dec_no_comma: "CHR '','' \<notin> set (dec n)"
proof (induction n rule: dec.induct)
  case (1 n)
  show ?case
  proof (cases "n < 10")
    case True
    then show ?thesis using digit_not_comma [of n] by (auto simp: dec_small)
  next
    case False
    then show ?thesis using 1 digit_not_comma [of "n mod 10"] by (auto simp: dec_step)
  qed
qed

lemma length_dec_bound: "n < 1000 \<Longrightarrow> length (dec n) \<le> 3"
  using zero_padded_dec3 [of n] by (auto simp: zero_padded_def dest: arg_cong [of _ _ length])

section \<open>Properties\<close>

text \<open>
  Thousands separators are faithful and well placed: without its commas the text is the plain
  decimal numeral, and, counting from the right, the commas are exactly every fourth character.
\<close>

lemma thousands_separated_correct:
  "filter (\<lambda>c. c \<noteq> CHR '','') (thousands_separated n) = dec n \<and>
   (\<forall>i < length (thousands_separated n).
      rev (thousands_separated n) ! i = CHR '','' \<longleftrightarrow> i mod 4 = 3)"
proof (induction n rule: thousands_separated.induct)
  case (1 n)
  show ?case
  proof (cases "n div 1000 = 0")
    case True
    then have n: "thousands_separated n = dec n" "n < 1000"
      by (simp_all add: thousands_separated.simps [of n] div_eq_0_iff)
    have "rev (dec n) ! i \<noteq> CHR '',''" if "i < length (dec n)" for i
      using that dec_no_comma [of n] nth_mem [of i "rev (dec n)"] by auto
    moreover have "filter (\<lambda>c. c \<noteq> CHR '','') (dec n) = dec n"
      using dec_no_comma [of n] by (auto simp: filter_id_conv)
    ultimately show ?thesis using n length_dec_bound [of n] by auto
  next
    case False
    let ?t = "thousands_separated (n div 1000)" and ?r = "n mod 1000"
    let ?z = "zero_padded 3 (dec ?r)"
    have t: "thousands_separated n = ?t @ '','' @ ?z"
      using False by (simp add: thousands_separated.simps [of n])
    have z: "?z = [digit (?r div 100), digit (?r div 10 mod 10), digit (?r mod 10)]"
      by (rule zero_padded_dec3) simp
    have d: "digit (?r div 100) \<noteq> CHR '',''" "digit (?r div 10 mod 10) \<noteq> CHR '',''"
        "digit (?r mod 10) \<noteq> CHR '',''"
      by (intro digit_not_comma, simp)+
    note IH = 1 [OF False]
    have "filter (\<lambda>c. c \<noteq> CHR '','') (thousands_separated n) = dec n"
      using IH d False by (simp add: t z dec_thousands [of n])
    moreover have "rev (thousands_separated n) ! i = CHR '','' \<longleftrightarrow> i mod 4 = 3"
      if "i < length (thousands_separated n)" for i
    proof (cases "i < 4")
      case True
      then have "i = 0 \<or> i = 1 \<or> i = 2 \<or> i = 3" by linarith
      with d show ?thesis by (auto simp: t z nth_append)
    next
      case False
      then obtain j where "i = j + 4" by (metis add.commute le_Suc_ex not_less)
      with that IH show ?thesis by (auto simp: t z)
    qed
    ultimately show ?thesis by blast
  qed
qed

lemma thousands_separated_correct_example:
  "3 < length (thousands_separated 1234) \<and> rev (thousands_separated 1234) ! 3 = CHR '',''"
proof -
  have "thousands_separated 1234 = [digit 1, CHR '',''] @ zero_padded 3 (dec 234)"
    by (simp add: thousands_separated.simps [of 1234] thousands_separated.simps [of "Suc 0"] dec_small)
  then have "3 < length (thousands_separated 1234)" by (simp add: zero_padded_dec3)
  with thousands_separated_correct [of 1234] show ?thesis by simp
qed

end
