(* ===== verification/Logger.thy ===== *)
theory Logger
  imports Display
begin

text \<open>
  The logger (\<open>src/logger.rs\<close>): the log levels, their parsing, and the text each logging function
  writes at each level. Only \<open>pkt_io\<close> can fail, at \<open>PktQuiet\<close>, when standard output cannot be
  flushed; what flushing returns is an argument.
\<close>

datatype log_level = Silent | ServerInfo | PktQuiet | PktDetails | PktFull

fun log_level_to_u8 :: "log_level \<Rightarrow> u8" where
  "log_level_to_u8 Silent = 0"
| "log_level_to_u8 ServerInfo = 1"
| "log_level_to_u8 PktQuiet = 2"
| "log_level_to_u8 PktDetails = 3"
| "log_level_to_u8 PktFull = 4"

definition log_level_default :: log_level where
  "log_level_default = PktFull"

text \<open>The derived order of the levels.\<close>

instantiation log_level :: linorder
begin

definition less_eq_log_level :: "log_level \<Rightarrow> log_level \<Rightarrow> bool" where
  "less_eq_log_level a b \<longleftrightarrow> log_level_to_u8 a \<le> log_level_to_u8 b"

definition less_log_level :: "log_level \<Rightarrow> log_level \<Rightarrow> bool" where
  "less_log_level a b \<longleftrightarrow> log_level_to_u8 a < log_level_to_u8 b"

instance
proof
  fix a b :: log_level
  show "a \<le> b \<Longrightarrow> b \<le> a \<Longrightarrow> a = b"
    by (cases a; cases b) (simp_all add: less_eq_log_level_def word_le_nat_alt)
qed (auto simp: less_eq_log_level_def less_log_level_def)

end

lemmas log_level_order = less_eq_log_level_def less_log_level_def

section \<open>Parsing a level\<close>

text \<open>The UTF-8 encodings of the characters \<open>str::trim\<close> removes (Unicode White\_Space).\<close>

definition whitespace_bytes :: "nat list list" where
  "whitespace_bytes =
     [[9], [10], [11], [12], [13], [32], [0xC2, 0x85], [0xC2, 0xA0], [0xE1, 0x9A, 0x80],
      [0xE2, 0x80, 0xA8], [0xE2, 0x80, 0xA9], [0xE2, 0x80, 0xAF], [0xE2, 0x81, 0x9F], [0xE3, 0x80, 0x80]]
     @ map (\<lambda>i. [0xE2, 0x80, 0x80 + i]) [0..<11]"

definition whitespace :: "string list" where
  "whitespace = map (map char_of) whitespace_bytes"

definition starts_with :: "string \<Rightarrow> string \<Rightarrow> bool" where
  "starts_with s w \<longleftrightarrow> take (length w) s = w"

function strip_front :: "string list \<Rightarrow> string \<Rightarrow> string" where
  "strip_front ws s =
     (case find (\<lambda>w. w \<noteq> [] \<and> starts_with s w) ws of
        None \<Rightarrow> s
      | Some w \<Rightarrow> strip_front ws (drop (length w) s))"
  by pat_completeness auto
termination
proof (relation "measure (\<lambda>(_, s). length s)", goal_cases)
  case (2 ws s w)
  then have "w \<noteq> []" "starts_with s w" by (auto simp: find_Some_iff)
  then have "s \<noteq> []" by (auto simp: starts_with_def)
  with \<open>w \<noteq> []\<close> show ?case by simp
qed simp

declare strip_front.simps [simp del]

definition trim :: "string \<Rightarrow> string" where
  "trim s = rev (strip_front (map rev whitespace) (rev (strip_front whitespace s)))"

definition log_level_from_str :: "string \<Rightarrow> log_level result" where
  "log_level_from_str s =
     (let t = trim s
      in if t = ''0'' then Inr Silent
         else if t = ''1'' then Inr ServerInfo
         else if t = ''2'' then Inr PktQuiet
         else if t = ''3'' then Inr PktDetails
         else if t = ''4'' then Inr PktFull
         else Inl InvalidLogLevel)"

lemma digit_not_whitespace: "d < 10 \<Longrightarrow> [digit d] \<notin> set whitespace"
proof
  assume "d < 10" "[digit d] \<in> set whitespace"
  then obtain k where k: "[k] \<in> set whitespace_bytes" "char_of k = digit d"
    by (auto simp: whitespace_def Cons_eq_map_conv)
  from arg_cong [OF k(2), of "of_char :: char \<Rightarrow> nat"] \<open>d < 10\<close> have "k mod 256 = 48 + d"
    by (simp add: digit_def of_char_of)
  with k(1) \<open>d < 10\<close> show False by (auto simp: whitespace_bytes_def)
qed

lemma strip_front_single: "[c] \<notin> set ws \<Longrightarrow> strip_front ws [c] = [c]"
proof -
  assume "[c] \<notin> set ws"
  then have "\<not> (w \<noteq> [] \<and> starts_with [c] w)" if "w \<in> set ws" for w
    using that by (cases w) (auto simp: starts_with_def)
  then have "find (\<lambda>w. w \<noteq> [] \<and> starts_with [c] w) ws = None" by (auto simp: find_None_iff)
  then show ?thesis by (subst strip_front.simps) simp
qed

lemma trim_digit: "d < 10 \<Longrightarrow> trim [digit d] = [digit d]"
proof -
  assume "d < 10"
  then have "[digit d] \<notin> set whitespace" by (rule digit_not_whitespace)
  moreover have "[digit d] \<in> set (map rev ws) \<longleftrightarrow> [digit d] \<in> set ws" for ws
    by (auto simp: image_iff)
  ultimately show ?thesis by (simp add: trim_def strip_front_single del: set_map)
qed

lemma log_level_from_str_dec: "log_level_from_str (dec (unat (log_level_to_u8 level))) = Inr level"
proof -
  have chars: "digit 0 = CHR ''0''" "digit 1 = CHR ''1''" "digit (Suc 0) = CHR ''1''" "digit 2 = CHR ''2''"
      "digit 3 = CHR ''3''" "digit 4 = CHR ''4''"
    by (simp_all add: digit_def char_of_def bit_0)
  have "trim [digit 0] = [digit 0]" "trim [digit 1] = [digit 1]" "trim [digit 2] = [digit 2]"
      "trim [digit 3] = [digit 3]" "trim [digit 4] = [digit 4]"
    by (simp_all only: trim_digit)
  then show ?thesis by (cases level) (simp_all add: dec_small log_level_from_str_def Let_def chars)
qed

section \<open>What is written\<close>

definition newline :: string where
  "newline = [char_of (10 :: nat)]"

text \<open>The arrows of \<open>Endpoint::INDICATOR\<close>, in UTF-8.\<close>

definition local_indicator :: string where
  "local_indicator = map (char_of :: nat \<Rightarrow> char) [0xE2, 0x86, 0x91]"

definition remote_indicator :: string where
  "remote_indicator = map (char_of :: nat \<Rightarrow> char) [0xE2, 0x86, 0x93]"

record logger =
  log_lvl :: log_level
  log_birth :: instant

definition fmt_timestamp :: "instant \<Rightarrow> instant \<Rightarrow> string" where
  "fmt_timestamp now birth =
     (let elapsed = saturating_duration_since now birth;
          secs = elapsed div NANOS_PER_SEC;
          mins = secs div 60; sub_min_secs = secs mod 60;
          hrs = mins div 60; sub_hr_mins = mins mod 60
      in zero_padded 2 (dec hrs) @ '':'' @ zero_padded 2 (dec sub_hr_mins) @ '':''
           @ zero_padded 2 (dec sub_min_secs) @ ''.''
           @ zero_padded 3 (dec (elapsed mod NANOS_PER_SEC div 10 ^ 6)))"

fun divider_text :: "log_level \<Rightarrow> string" where
  "divider_text Silent = []"
| "divider_text ServerInfo = []"
| "divider_text PktQuiet = '' ''"
| "divider_text PktDetails = newline @ replicate 80 CHR ''='' @ newline @ newline"
| "divider_text PktFull = newline @ replicate 80 CHR ''='' @ newline @ newline"

definition server_newline_text :: "log_level \<Rightarrow> string" where
  "server_newline_text level = (if level \<ge> ServerInfo then newline else [])"

definition server_info_text :: "instant \<Rightarrow> logger \<Rightarrow> string \<Rightarrow> string" where
  "server_info_text now lg msg =
     (if log_lvl lg \<ge> ServerInfo
      then ''['' @ fmt_timestamp now (log_birth lg) @ ''] '' @ msg @ newline else [])"

text \<open>
  \<open>pkt_io\<close> writes the text below and returns the result below: only at \<open>PktQuiet\<close>, where no newline
  is printed, does it flush. \<open>payload\<close> is the payload's text without and with its content.
\<close>

definition pkt_io_text ::
    "instant \<Rightarrow> logger \<Rightarrow> string \<Rightarrow> string \<Rightarrow> string \<Rightarrow> (bool \<Rightarrow> string) \<Rightarrow> string" where
  "pkt_io_text now lg indicator hdr proto payload =
     (case log_lvl lg of
        Silent \<Rightarrow> []
      | ServerInfo \<Rightarrow> []
      | PktQuiet \<Rightarrow> indicator
      | level \<Rightarrow> fmt_timestamp now (log_birth lg) @ newline @ hdr @ newline @ proto @ newline
                 @ payload (level = PktFull) @ newline)"

definition pkt_io_result :: "log_level \<Rightarrow> unit result \<Rightarrow> unit result" where
  "pkt_io_result level flushed =
     (case level of PktQuiet \<Rightarrow> flushed | _ \<Rightarrow> Inr ())"

definition pkt_extra_text :: "log_level \<Rightarrow> string \<Rightarrow> string" where
  "pkt_extra_text level msg = (if level \<ge> PktDetails then msg @ newline else [])"

definition pkt_err_text :: "instant \<Rightarrow> logger \<Rightarrow> string \<Rightarrow> string" where
  "pkt_err_text now lg msg =
     (if log_lvl lg \<ge> PktDetails
      then ''['' @ fmt_timestamp now (log_birth lg) @ ''] '' @ msg @ newline else [])"

section \<open>The meaning of the levels\<close>

text \<open>
  The levels mean what their documentation says: at \<open>Silent\<close> nothing is written by any logging
  function, and only \<open>PktQuiet\<close> can make logging fail; at \<open>ServerInfo\<close> nothing is written about
  packets but the server's own messages are; the content of payloads is written at \<open>PktFull\<close> only.
\<close>

lemma log_levels_documented:
  "(log_lvl lg = Silent \<longrightarrow> divider_text (log_lvl lg) = [] \<and> server_newline_text (log_lvl lg) = [] \<and>
      server_info_text now lg msg = [] \<and> pkt_io_text now lg ind hdr proto pl = [] \<and>
      pkt_extra_text (log_lvl lg) msg = [] \<and> pkt_err_text now lg msg = []) \<and>
   (log_lvl lg = ServerInfo \<longrightarrow> divider_text (log_lvl lg) = [] \<and>
      pkt_io_text now lg ind hdr proto pl = [] \<and> pkt_extra_text (log_lvl lg) msg = [] \<and>
      pkt_err_text now lg msg = [] \<and> server_info_text now lg msg \<noteq> []) \<and>
   (log_lvl lg \<noteq> PktQuiet \<longrightarrow> pkt_io_result (log_lvl lg) fl = Inr ()) \<and>
   (log_lvl lg \<noteq> PktFull \<and> pl False = pl' False \<longrightarrow>
      pkt_io_text now lg ind hdr proto pl = pkt_io_text now lg ind hdr proto pl')"
  by (cases "log_lvl lg")
     (simp_all add: server_newline_text_def server_info_text_def pkt_io_text_def pkt_io_result_def pkt_extra_text_def
       pkt_err_text_def log_level_order word_le_nat_alt)

end
