(* ===== verification/Config.thy ===== *)
theory Config
  imports Logger
begin

text \<open>
  Loading the configuration from environment variables (\<open>src/config.rs\<close>). The environment is a
  function from names to what \<open>env::var\<close> returns; \<open>debug\<close> is \<open>cfg!(debug_assertions)\<close>. Rust's
  parsing of unsigned integers is written out: an optional plus sign, then at least one digit, and
  no overflow at any digit.
\<close>

record config =
  tun_name :: string
  initial_rto :: duration
  max_retries :: u8
  grace_period :: duration
  log_level :: log_level

datatype env_var = NotPresent | NotUnicode | Value string

type_synonym environment = "string \<Rightarrow> env_var"

definition digit_value :: "char \<Rightarrow> nat option" where
  "digit_value c =
     (let n = (of_char c :: nat) in if 48 \<le> n \<and> n \<le> 57 then Some (n - 48) else None)"

text \<open>The loop of \<open>from_str_radix\<close>: multiply and add, both checked against the type's maximum.\<close>

fun parse_digits :: "nat \<Rightarrow> nat \<Rightarrow> string \<Rightarrow> nat result" where
  "parse_digits limit acc [] = Inr acc"
| "parse_digits limit acc (c # cs) =
     (case digit_value c of
        None \<Rightarrow> Inl InvalidNumber
      | Some d \<Rightarrow>
          if limit < acc * 10 then Inl InvalidNumber
          else if limit < acc * 10 + d then Inl InvalidNumber
          else parse_digits limit (acc * 10 + d) cs)"

fun parse_uint :: "nat \<Rightarrow> string \<Rightarrow> nat result" where
  "parse_uint limit [] = Inl InvalidNumber"
| "parse_uint limit (c # cs) =
     (if c = CHR ''+'' then if cs = [] then Inl InvalidNumber else parse_digits limit 0 cs
      else parse_digits limit 0 (c # cs))"

definition parse_u64 :: "string \<Rightarrow> u64 result" where
  "parse_u64 s = result_map of_nat (parse_uint (2 ^ 64 - 1) s)"

definition parse_u8 :: "string \<Rightarrow> u8 result" where
  "parse_u8 s = result_map of_nat (parse_uint 255 s)"

definition get_env_or_else ::
    "environment \<Rightarrow> (string \<Rightarrow> 'a result) \<Rightarrow> 'a \<Rightarrow> string \<Rightarrow> 'a result" where
  "get_env_or_else env parse dflt key =
     (case env key of
        NotPresent \<Rightarrow> Inr dflt
      | NotUnicode \<Rightarrow> Inl (EnvNotUnicode key)
      | Value val \<Rightarrow> result_map_err (EnvUnparsable key) (parse val))"

definition config_load :: "bool \<Rightarrow> environment \<Rightarrow> config result" where
  "config_load debug env =
     result_bind (get_env_or_else env Inr ''tun0'' ''TYPENET_TUN_NAME'') (\<lambda>name.
     result_bind (get_env_or_else env parse_u64 (if debug then 250 else 1000) ''TYPENET_INIT_RTO_MILLIS'')
       (\<lambda>millis.
     result_bind (get_env_or_else env parse_u8 15 ''TYPENET_MAX_RETRANSMITS'') (\<lambda>retries.
     result_bind (get_env_or_else env parse_u64 (if debug then 5 else 60) ''TYPENET_GRACE_SECS'') (\<lambda>secs.
     result_bind (get_env_or_else env log_level_from_str log_level_default ''TYPENET_LOG_LEVEL'') (\<lambda>level.
     Inr \<lparr>tun_name = name, initial_rto = duration_from_millis millis, max_retries = retries,
          grace_period = duration_from_secs secs, log_level = level\<rparr>)))))"

section \<open>Numbers\<close>

lemma digit_value_digit: "d < 10 \<Longrightarrow> digit_value (digit d) = Some d"
  by (simp add: digit_value_def digit_def of_char_of)

lemma parse_digits_append:
  "parse_digits limit acc (xs @ ys) = result_bind (parse_digits limit acc xs) (\<lambda>n. parse_digits limit n ys)"
  by (induction xs arbitrary: acc) (auto split: option.splits)

lemma parse_digits_one:
  "d < 10 \<Longrightarrow> parse_digits limit q [digit d] =
     (if q * 10 + d \<le> limit then Inr (q * 10 + d) else Inl InvalidNumber)"
  by (simp add: digit_value_digit)

lemma parse_digits_dec: "parse_digits limit 0 (dec n) = (if n \<le> limit then Inr n else Inl InvalidNumber)"
proof (induction n rule: dec.induct)
  case (1 n)
  show ?case
  proof (cases "n < 10")
    case True
    then show ?thesis using parse_digits_one [of n limit 0] by (simp only: dec_small) simp
  next
    case False
    then have d: "dec n = dec (n div 10) @ [digit (n mod 10)]" using dec_step [of n] by simp
    have n: "n div 10 * 10 + n mod 10 = n" by simp
    have one: "parse_digits limit (n div 10) [digit (n mod 10)] = (if n \<le> limit then Inr n else Inl InvalidNumber)"
      using parse_digits_one [of "n mod 10" limit "n div 10"] by (simp only: n)
    have le: "n div 10 \<le> n" by simp
    show ?thesis
    proof (cases "n div 10 \<le> limit")
      case True
      with 1 [OF False] one show ?thesis by (simp only: d parse_digits_append if_True result_bind_simps)
    next
      case over: False
      with le have "\<not> n \<le> limit" by linarith
      with 1 [OF False] over show ?thesis
        by (simp only: d parse_digits_append if_False result_bind_simps)
    qed
  qed
qed

lemma digit_not_plus: "d < 10 \<Longrightarrow> digit d \<noteq> CHR ''+''"
  using digit_value_digit [of d] by (auto simp: digit_value_def)

lemma dec_head: "\<exists>d ds. d < 10 \<and> dec n = digit d # ds"
proof (induction n rule: dec.induct)
  case (1 n)
  then show ?case by (cases "n < 10") (auto simp: dec_small dec_step)
qed

lemma parse_uint_dec: "parse_uint limit (dec n) = (if n \<le> limit then Inr n else Inl InvalidNumber)"
proof -
  obtain d ds where "d < 10" "dec n = digit d # ds" using dec_head by blast
  then show ?thesis using parse_digits_dec [of limit n] digit_not_plus [of d] by simp
qed

lemma parse_u64_dec: "parse_u64 (dec (unat w)) = Inr w"
  using unsigned_less [of w, where 'a = nat] by (simp add: parse_u64_def parse_uint_dec)

lemma parse_u8_dec: "parse_u8 (dec (unat w)) = Inr w"
  using unsigned_less [of w, where 'a = nat] by (simp add: parse_u8_def parse_uint_dec)

section \<open>Properties\<close>

text \<open>The environment in which every variable is set to the text of a value.\<close>

definition env_of :: "string \<Rightarrow> u64 \<Rightarrow> u8 \<Rightarrow> u64 \<Rightarrow> log_level \<Rightarrow> environment" where
  "env_of name millis retries secs level = (\<lambda>_. NotPresent)
     (''TYPENET_TUN_NAME'' := Value name,
      ''TYPENET_INIT_RTO_MILLIS'' := Value (dec (unat millis)),
      ''TYPENET_MAX_RETRANSMITS'' := Value (dec (unat retries)),
      ''TYPENET_GRACE_SECS'' := Value (dec (unat secs)),
      ''TYPENET_LOG_LEVEL'' := Value (dec (unat (log_level_to_u8 level))))"

definition blamed :: "environment \<Rightarrow> error \<Rightarrow> string \<Rightarrow> bool" where
  "blamed env e key \<longleftrightarrow> env key = NotUnicode \<and> e = EnvNotUnicode key \<or>
     (\<exists>val e'. env key = Value val \<and> e = EnvUnparsable key e')"

lemma get_env_Inl: "get_env_or_else env parse dflt key = Inl e \<Longrightarrow> blamed env e key"
  by (auto simp: blamed_def get_env_or_else_def result_map_err_eq_Inl split: env_var.splits)

lemma config_load_Inl:
  assumes "config_load debug env = Inl e"
  shows "blamed env e ''TYPENET_TUN_NAME'' \<or> blamed env e ''TYPENET_INIT_RTO_MILLIS'' \<or>
    blamed env e ''TYPENET_MAX_RETRANSMITS'' \<or> blamed env e ''TYPENET_GRACE_SECS'' \<or>
    blamed env e ''TYPENET_LOG_LEVEL''"
  using assms unfolding config_load_def result_bind_eq_Inl
  by (elim disjE exE conjE) (drule get_env_Inl, blast | simp)+

text \<open>
  C39. Loading the configuration: with nothing set it gives the documented defaults; setting every
  variable to the decimal text of a value gives exactly those values, over the whole range of their
  types; and loading fails only for a variable that is set and is not Unicode or does not parse,
  which the error names.
\<close>

theorem config_load_correct:
  "config_load debug (\<lambda>_. NotPresent) = Inr \<lparr>tun_name = ''tun0'',
     initial_rto = (if debug then 250 else 1000) * 10 ^ 6, max_retries = 15,
     grace_period = (if debug then 5 else 60) * 10 ^ 9, log_level = PktFull\<rparr> \<and>
   config_load debug (env_of name millis retries secs level) = Inr \<lparr>tun_name = name,
     initial_rto = unat millis * 10 ^ 6, max_retries = retries,
     grace_period = unat secs * 10 ^ 9, log_level = level\<rparr> \<and>
   (config_load debug env = Inl e \<longrightarrow>
     (\<exists>key \<in> {''TYPENET_TUN_NAME'', ''TYPENET_INIT_RTO_MILLIS'', ''TYPENET_MAX_RETRANSMITS'',
               ''TYPENET_GRACE_SECS'', ''TYPENET_LOG_LEVEL''}.
        env key = NotUnicode \<and> e = EnvNotUnicode key \<or>
        (\<exists>val e'. env key = Value val \<and> e = EnvUnparsable key e')))"
proof (intro conjI impI)
  show "config_load debug (\<lambda>_. NotPresent) = Inr \<lparr>tun_name = ''tun0'',
     initial_rto = (if debug then 250 else 1000) * 10 ^ 6, max_retries = 15,
     grace_period = (if debug then 5 else 60) * 10 ^ 9, log_level = PktFull\<rparr>"
    by (simp add: config_load_def get_env_or_else_def duration_from_millis_def duration_from_secs_def
        NANOS_PER_SEC_def log_level_default_def)
  show "config_load debug (env_of name millis retries secs level) = Inr \<lparr>tun_name = name,
     initial_rto = unat millis * 10 ^ 6, max_retries = retries,
     grace_period = unat secs * 10 ^ 9, log_level = level\<rparr>"
    by (simp add: config_load_def get_env_or_else_def env_of_def parse_u64_dec parse_u8_dec
        log_level_from_str_dec duration_from_millis_def duration_from_secs_def NANOS_PER_SEC_def)
  assume "config_load debug env = Inl e"
  then show "\<exists>key \<in> {''TYPENET_TUN_NAME'', ''TYPENET_INIT_RTO_MILLIS'', ''TYPENET_MAX_RETRANSMITS'',
               ''TYPENET_GRACE_SECS'', ''TYPENET_LOG_LEVEL''}.
        env key = NotUnicode \<and> e = EnvNotUnicode key \<or>
        (\<exists>val e'. env key = Value val \<and> e = EnvUnparsable key e')"
    using config_load_Inl [of debug env e] unfolding blamed_def bex_simps by (simp only: simp_thms)
qed

theorem config_load_correct_witness:
  "config_load True (\<lambda>_. NotUnicode) = Inl (EnvNotUnicode ''TYPENET_TUN_NAME'') \<and>
   (\<exists>key. EnvNotUnicode ''TYPENET_TUN_NAME'' = EnvNotUnicode key)"
proof -
  have fails: "config_load True (\<lambda>_. NotUnicode) = Inl (EnvNotUnicode ''TYPENET_TUN_NAME'')"
    by (simp add: config_load_def get_env_or_else_def)
  with config_load_correct [of True "''x''" 0 0 0 Silent "\<lambda>_. NotUnicode" "EnvNotUnicode ''TYPENET_TUN_NAME''"]
  show ?thesis by blast
qed

end
