(* ===== verification/Sys.thy ===== *)
theory Sys
  imports Try_Ops
begin

text \<open>
  The thin wrappers over the operating system that the server relies on: \<open>poll::readable\<close>
  (\<open>src/sys/poll.rs\<close>), \<open>random_u32\<close> (\<open>src/sys.rs\<close>) and the shutdown signal
  (\<open>src/sys/shutdown_signal.rs\<close>). The system calls are arguments: \<open>libc_poll\<close> maps the timeout in
  milliseconds to the return value and the kind of error \<open>errno\<close> says; reading the random device
  gives four bytes or an error; installing the handler depends on the results of two calls.
\<close>

type_synonym 'a io = "io_error_kind + 'a"

definition io_result :: "'a io \<Rightarrow> 'a result" where
  "io_result r = (case r of Inl k \<Rightarrow> Inl (IoError k) | Inr x \<Rightarrow> Inr x)"

lemma io_result_simps [simp]: "io_result (Inl k) = Inl (IoError k)" "io_result (Inr x) = Inr x"
  by (simp_all add: io_result_def)

definition C_INT_MAX :: int where
  "C_INT_MAX = 2 ^ 31 - 1"

definition as_millis :: "duration \<Rightarrow> nat" where
  "as_millis d = d div 10 ^ 6"

text \<open>The timeout argument: \<open>-1\<close> blocks indefinitely; a duration beyond \<open>c_int\<close> becomes its maximum.\<close>

definition poll_timeout_ms :: "duration option \<Rightarrow> int" where
  "poll_timeout_ms timeout =
     (case timeout of
        None \<Rightarrow> -1
      | Some d \<Rightarrow> if int (as_millis d) \<le> C_INT_MAX then int (as_millis d) else C_INT_MAX)"

definition readable :: "(int \<Rightarrow> int \<times> io_error_kind) \<Rightarrow> duration option \<Rightarrow> bool io" where
  "readable libc_poll timeout =
     (let (n, errno) = libc_poll (poll_timeout_ms timeout)
      in if n < 0 then Inl errno else if n = 0 then Inr False else Inr True)"

text \<open>\<open>u32::from_ne_bytes\<close>: both supported architectures are little-endian.\<close>

definition random_u32 :: "(u8 \<times> u8 \<times> u8 \<times> u8) io \<Rightarrow> u32 io" where
  "random_u32 urandom =
     (case urandom of Inl k \<Rightarrow> Inl k | Inr (a, b, c, d) \<Rightarrow> Inr (from_be_bytes [d, c, b, a]))"

text \<open>
  The shutdown flag is a static \<open>AtomicBool\<close> that only the signal handler stores to. \<open>install\<close> makes
  two system calls with the given results; \<open>errno\<close> is what \<open>last_os_error\<close> reads after a failed one.
\<close>

definition SHUTDOWN_init :: bool where
  "SHUTDOWN_init = False"

definition shutdown_signal_handler :: "bool \<Rightarrow> bool" where
  "shutdown_signal_handler flag = True"

definition shutdown_load :: "bool \<Rightarrow> bool" where
  "shutdown_load flag = flag"

definition shutdown_install :: "int \<Rightarrow> int \<Rightarrow> io_error_kind \<Rightarrow> unit io" where
  "shutdown_install sigemptyset sigaction errno =
     (if sigemptyset \<noteq> 0 then Inl errno else if sigaction \<noteq> 0 then Inl errno else Inr ())"

section \<open>Properties\<close>

text \<open>
  C40. The wait asked of \<open>poll()\<close> is never longer than the timeout, is short of it by less than a
  millisecond unless the timeout exceeds the range of \<open>c_int\<close>, and is indefinite exactly without a
  timeout. It is zero, so that \<open>poll()\<close> does not wait at all, exactly when less than a millisecond
  is left.
\<close>

theorem poll_wait_bounds:
  "(poll_timeout_ms timeout = -1 \<longleftrightarrow> timeout = None) \<and>
   (timeout = Some d \<longrightarrow>
      0 \<le> poll_timeout_ms timeout \<and> poll_timeout_ms timeout \<le> C_INT_MAX \<and>
      poll_timeout_ms timeout * 10 ^ 6 \<le> int d \<and>
      (poll_timeout_ms timeout < C_INT_MAX \<longrightarrow> int d < (poll_timeout_ms timeout + 1) * 10 ^ 6) \<and>
      (poll_timeout_ms timeout = 0 \<longleftrightarrow> d < 10 ^ 6))"
proof (cases timeout)
  case (Some e)
  define q where "q = e div 10 ^ 6"
  have q: "q * 10 ^ 6 \<le> e" "e < (q + 1) * 10 ^ 6" "q = 0 \<longleftrightarrow> e < 10 ^ 6"
    unfolding q_def by auto
  have t: "poll_timeout_ms (Some e) = (if q \<le> 2147483647 then int q else 2147483647)"
    by (simp add: poll_timeout_ms_def as_millis_def q_def C_INT_MAX_def)
  let ?p = "poll_timeout_ms (Some e)"
  have "0 \<le> ?p \<and> ?p \<le> C_INT_MAX \<and> ?p * 10 ^ 6 \<le> int e \<and>
      (?p < C_INT_MAX \<longrightarrow> int e < (?p + 1) * 10 ^ 6) \<and> (?p = 0 \<longleftrightarrow> e < 10 ^ 6)"
    using q unfolding t C_INT_MAX_def by auto
  then show ?thesis unfolding Some by fastforce
qed (simp add: poll_timeout_ms_def)

theorem poll_wait_bounds_witness:
  "poll_timeout_ms (Some 999999) = 0 \<and> poll_timeout_ms (Some 1000000) \<noteq> 0"
  using poll_wait_bounds [of "Some 999999" 999999] poll_wait_bounds [of "Some 1000000" 1000000] by simp

end
