(* ===== verification/Server.thy ===== *)
theory Server
  imports Config Sys
begin

text \<open>
  The server (\<open>src/server.rs\<close>): its state, the loop over \<open>poll\<close>, \<open>read\<close> and \<open>write_all\<close>, the
  reaction to the shutdown signal, and sending a packet. What the outside answers during one
  iteration of the loop (results of system calls, readings of the clock, the shutdown flag) is a
  \<open>tick\<close>; a run is driven by a list of them. The device is the list of packets written to it. The
  log is the list of logging calls, rendered separately by the functions of the logger.
\<close>

section \<open>State\<close>

definition TCP_RTO_MIN :: duration where
  "TCP_RTO_MIN = duration_from_millis 200"

definition TCP_RTO_MAX :: duration where
  "TCP_RTO_MAX = duration_from_secs (2 * 60)"

datatype shutdown_decision =
    AlreadyDraining duration
  | BeganDraining "local_segment list" instant
  | NoConnections

record parsed_exchange =
  ex_ipv4_hdr :: "remote_ep ipv4_header"
  ex_incoming_router :: remote_router
  ex_reply_router :: "local_router option"

text \<open>One constructor per logging function, with what it is asked to print.\<close>

datatype log_call =
    LogDivider
  | LogServerNewline
  | LogServerInfo string
  | LogPktReceived "remote_ep ipv4_header" remote_router
  | LogPktSent "local_ep ipv4_header" local_router
  | LogPktExtra string
  | LogPktErr error

record server =
  write_buf :: bytes
  read_buf :: bytes
  srv_connections :: tcp_connections
  srv_logger :: logger
  dev_out :: "bytes list"
  srv_log :: "log_call list"
  shutdown_grace_period :: duration
  shutdown_deadline :: "instant option"

text \<open>
  What the outside answers in one iteration: the clock when polling, later in the loop body, inside
  the connection table's operations and in \<open>time_due\<close>'s fallback; \<open>poll_readable\<close>;
  the shutdown flag; the bytes read; the random source; and the results of writing to the device and of
  flushing standard output, by the number of packets written and of logging calls made before.
\<close>

record tick =
  t_poll_at :: instant
  t_now :: instant
  t_conn_now :: instant
  t_fallback :: instant
  t_poll :: "duration option \<Rightarrow> bool io"
  t_shutdown :: bool
  t_read :: "bytes io"
  t_urandom :: "(u8 \<times> u8 \<times> u8 \<times> u8) io"
  t_write :: "nat \<Rightarrow> unit io"
  t_flush :: "nat \<Rightarrow> unit io"

section \<open>Logging\<close>

definition log_to :: "log_call \<Rightarrow> (server, unit) action" where
  "log_to call s = (Inr (), s\<lparr>srv_log := srv_log s @ [call]\<rparr>)"

text \<open>\<open>pkt_io\<close>, the only logging function that can fail.\<close>

definition log_pkt_io :: "tick \<Rightarrow> log_call \<Rightarrow> (server, unit) action" where
  "log_pkt_io t call s =
     (pkt_io_result (log_lvl (srv_logger s)) (io_result (t_flush t (length (srv_log s)))),
      s\<lparr>srv_log := srv_log s @ [call]\<rparr>)"

definition render_pkt_io :: "(bytes \<Rightarrow> string) \<Rightarrow> instant \<Rightarrow> logger \<Rightarrow> string \<Rightarrow> 's ipv4_header \<Rightarrow>
    ('s, 'p) protocol_router \<Rightarrow> string" where
  "render_pkt_io escape_debug now lg indicator hdr router =
     pkt_io_text now lg indicator (fmt_ipv4_header hdr) (fmt_router router)
       (\<lambda>include_content. fmt_pretty_payload escape_debug (router_pretty_payload router include_content))"

fun render :: "(bytes \<Rightarrow> string) \<Rightarrow> (error \<Rightarrow> string) \<Rightarrow> instant \<Rightarrow> logger \<Rightarrow> log_call \<Rightarrow> string" where
  "render esc msg now lg LogDivider = divider_text (log_lvl lg)"
| "render esc msg now lg LogServerNewline = server_newline_text (log_lvl lg)"
| "render esc msg now lg (LogServerInfo s) = server_info_text now lg s"
| "render esc msg now lg (LogPktReceived hdr r) = render_pkt_io esc now lg remote_indicator hdr r"
| "render esc msg now lg (LogPktSent hdr r) = render_pkt_io esc now lg local_indicator hdr r"
| "render esc msg now lg (LogPktExtra s) = pkt_extra_text (log_lvl lg) s"
| "render esc msg now lg (LogPktErr e) = pkt_err_text now lg (msg e)"

section \<open>Sending\<close>

definition REPLY_HDR_LEN :: usize where
  "REPLY_HDR_LEN = IPV4_HDR_MIN_LEN"

text \<open>The device writes of \<open>send_pkt\<close>.\<close>

definition device_write_all :: "tick \<Rightarrow> bytes \<Rightarrow> (server, unit) action" where
  "device_write_all t pkt s =
     (case t_write t (length (dev_out s)) of
        Inl k \<Rightarrow> (Inl (IoError k), s)
      | Inr _ \<Rightarrow> (Inr (), s\<lparr>dev_out := dev_out s @ [pkt]\<rparr>))"

text \<open>
  Writing through \<open>&mut self.write_buf[REPLY_HDR_LEN..]\<close>: the writer gets the rest of the buffer.
\<close>

definition write_behind_header :: "(bytes, 'a) action \<Rightarrow> (server, 'a) action" where
  "write_behind_header w s =
     (let (r, rest) = w (drop REPLY_HDR_LEN (write_buf s))
      in (r, s\<lparr>write_buf := take REPLY_HDR_LEN (write_buf s) @ rest\<rparr>))"

text \<open>
  \<open>send_pkt\<close> takes anything that implements \<open>Encode\<close>: a router, or a TCP segment, whose methods are
  those the router dispatches to, so a segment is sent as its router variant.
\<close>

definition send_pkt :: "tick \<Rightarrow> local_router \<Rightarrow> (server, unit) action" where
  "send_pkt t outgoing =
     act_bind (write_behind_header (router_write_into outgoing)) (\<lambda>proto_len.
     act_bind (act_lift (ipv4_try_new (router_proto outgoing) (router_get_ip_pair outgoing) proto_len))
       (\<lambda>ipv4_hdr.
     act_bind (\<lambda>s. (Inr (), s\<lparr>write_buf := ipv4_write_into ipv4_hdr (write_buf s)\<rparr>)) (\<lambda>_.
     act_bind (act_read (\<lambda>s. try_get_range (write_buf s) 0 (unat (total_len ipv4_hdr)))) (\<lambda>pkt.
     act_bind (device_write_all t pkt) (\<lambda>_.
     log_pkt_io t (LogPktSent ipv4_hdr outgoing))))))"

section \<open>Decisions\<close>

definition poll_timeout :: "instant \<Rightarrow> instant \<Rightarrow> server \<Rightarrow> duration option" where
  "poll_timeout now fallback s =
     (let deadlines = List.map_filter id
            [shutdown_deadline s, next_retransmit_deadline fallback (srv_connections s)]
      in if deadlines = [] then None
         else Some (saturating_duration_since (Min (set deadlines)) now))"

definition grace_period_elapsed :: "instant \<Rightarrow> server \<Rightarrow> bool" where
  "grace_period_elapsed now s \<longleftrightarrow>
     (case shutdown_deadline s of None \<Rightarrow> False | Some deadline \<Rightarrow> deadline \<le> now)"

definition shutting_down_and_no_connections_closing :: "server \<Rightarrow> bool" where
  "shutting_down_and_no_connections_closing s \<longleftrightarrow>
     shutdown_deadline s \<noteq> None \<and> \<not> closing_in_progress (srv_connections s)"

definition decide_shutdown :: "instant \<Rightarrow> instant \<Rightarrow> (server, shutdown_decision) action" where
  "decide_shutdown now conn_now s =
     (case shutdown_deadline s of
        Some deadline \<Rightarrow> (Inr (AlreadyDraining (saturating_duration_since deadline now)), s)
      | None \<Rightarrow>
          let (to_send, conns) = close_established conn_now (srv_connections s);
              s = s\<lparr>srv_connections := conns\<rparr>
          in if closing_in_progress conns then
               (result_map (BeganDraining to_send) (try_add_instant now (shutdown_grace_period s)), s)
             else (Inr NoConnections, s))"

definition parse_incoming ::
    "u32 result \<Rightarrow> instant \<Rightarrow> bytes \<Rightarrow> (server, parsed_exchange) action" where
  "parse_incoming random conn_now data s =
     (case result_map_err SkippingPacket (ipv4_parse data) of
        Inl e \<Rightarrow> (Inl e, s)
      | Inr (ipv4_hdr, ipv4_payload) \<Rightarrow>
     (case result_map_err SkippingPacket
             (router_parse ipv4_payload (hdr_protocol ipv4_hdr) (hdr_ip_pair ipv4_hdr)) of
        Inl e \<Rightarrow> (Inl e, s)
      | Inr incoming_router \<Rightarrow>
          let (r, conns) = router_create_reply random conn_now incoming_router (srv_connections s);
              s = s\<lparr>srv_connections := conns\<rparr>
          in (result_map (\<lambda>reply. \<lparr>ex_ipv4_hdr = ipv4_hdr, ex_incoming_router = incoming_router,
                                   ex_reply_router = reply\<rparr>)
                (result_map_err ErrorCreatingReply r), s)))"

section \<open>The loop\<close>

text \<open>The two loops over segments to send: retransmissions, and the FINs of the active close.\<close>

fun send_retransmissions :: "tick \<Rightarrow> local_segment list \<Rightarrow> (server, unit) action" where
  "send_retransmissions t [] = act_return ()"
| "send_retransmissions t (seg # segs) =
     act_bind (log_to (LogPktExtra '' ==== Packet sent (retransmission) ====''))
       (\<lambda>_. act_bind (send_pkt t (RouterTcp seg))
       (\<lambda>_. act_bind (log_to LogDivider) (\<lambda>_. send_retransmissions t segs)))"

fun send_fins :: "tick \<Rightarrow> local_segment list \<Rightarrow> (server, unit) action" where
  "send_fins t [] = act_return ()"
| "send_fins t (seg # segs) =
     act_bind (log_to (LogPktExtra '' ==== Packet sent ====''))
       (\<lambda>_. act_bind (send_pkt t (RouterTcp seg)) (\<lambda>_. send_fins t segs))"

definition fmt_time_left :: "duration \<Rightarrow> string" where
  "fmt_time_left d = ''Draining connections, '' @ dec (d div NANOS_PER_SEC) @ ''.''
     @ zero_padded 3 (dec (d mod NANOS_PER_SEC div 10 ^ 6)) @ ''s left''"

text \<open>\<open>True\<close>: proceed to shutdown immediately.\<close>

definition handle_shutdown_interrupt :: "tick \<Rightarrow> (server, bool) action" where
  "handle_shutdown_interrupt t =
     act_bind (log_to LogServerNewline) (\<lambda>_.
     act_bind (decide_shutdown (t_now t) (t_conn_now t)) (\<lambda>decision.
     case decision of
       AlreadyDraining time_left \<Rightarrow>
         act_bind (log_to (LogServerInfo (fmt_time_left time_left))) (\<lambda>_. act_return False)
     | BeganDraining to_send deadline \<Rightarrow>
         act_bind (log_to (LogServerInfo ''Shutdown signal received, closing established connections...''))
           (\<lambda>_. act_bind (log_to LogDivider)
           (\<lambda>_. act_bind (send_fins t to_send)
           (\<lambda>_. act_bind (log_to LogDivider)
           (\<lambda>_. act_bind (\<lambda>s. (Inr (), s\<lparr>shutdown_deadline := Some deadline\<rparr>)) (\<lambda>_. act_return False)))))
     | NoConnections \<Rightarrow>
         act_bind (log_to (LogServerInfo ''Shutdown signal received with no established connections, exiting''))
           (\<lambda>_. act_return True)))"

text \<open>\<open>(shutdown_check)() && handle_shutdown_interrupt(..)?\<close>\<close>

definition interrupted :: "tick \<Rightarrow> (server, bool) action" where
  "interrupted t = (if t_shutdown t then handle_shutdown_interrupt t else act_return False)"

text \<open>\<open>device.read\<close> fills the front of the read buffer; what does not fit is not there.\<close>

definition fill_read_buf :: "bytes \<Rightarrow> server \<Rightarrow> server" where
  "fill_read_buf data s =
     s\<lparr>read_buf := take (length (read_buf s)) (data @ drop (length data) (read_buf s))\<rparr>"

definition handle_packet :: "tick \<Rightarrow> bytes \<Rightarrow> (server, unit) action" where
  "handle_packet t data s =
     (case parse_incoming (io_result (random_u32 (t_urandom t))) (t_conn_now t) data s of
        (Inl e, s) \<Rightarrow> log_to (LogPktErr e) s
      | (Inr exchange, s) \<Rightarrow>
          act_bind (log_to (LogPktExtra '' ==== Packet received ===='')) (\<lambda>_.
          act_bind (log_pkt_io t (LogPktReceived (ex_ipv4_hdr exchange) (ex_incoming_router exchange))) (\<lambda>_.
          case ex_reply_router exchange of
            None \<Rightarrow> log_to (LogPktExtra (newline @ ''<no reply>''))
          | Some reply \<Rightarrow>
              act_bind (log_to (LogPktExtra (newline @ '' ==== Packet sent ===='')))
                (\<lambda>_. send_pkt t reply))) s)"

text \<open>The body of the loop; \<open>True\<close> is \<open>break Ok(())\<close>, an error is \<open>break Err(..)\<close> or \<open>?\<close>.\<close>

definition loop_body :: "tick \<Rightarrow> (server, bool) action" where
  "loop_body t s =
     (case t_poll t (poll_timeout (t_poll_at t) (t_fallback t) s) of
        Inl Interrupted \<Rightarrow> interrupted t s
      | Inl k \<Rightarrow> (Inl (IoError k), s)
      | Inr False \<Rightarrow>
          if grace_period_elapsed (t_now t) s then
            act_bind (log_to LogServerNewline) (\<lambda>_.
            act_bind (log_to (LogServerInfo (''Grace period elapsed with ''
              @ dec (connections_len (srv_connections s)) @ '' remaining connection(s), exiting''))) (\<lambda>_.
            act_return True)) s
          else
            let (segs, conns) = make_retransmissions (t_conn_now t) (t_fallback t) (srv_connections s)
            in act_bind (send_retransmissions t segs) (\<lambda>_. act_return False) (s\<lparr>srv_connections := conns\<rparr>)
      | Inr True \<Rightarrow>
     (case t_read t of
        Inl Interrupted \<Rightarrow> interrupted t s
      | Inl k \<Rightarrow> (Inl (IoError k), s)
      | Inr bytes \<Rightarrow>
          act_bind (act_read (\<lambda>s. try_get_range (read_buf s) 0 (length bytes))) (\<lambda>data.
          act_bind (handle_packet t data) (\<lambda>_.
          act_bind (log_to LogDivider) (\<lambda>_ s.
          if shutting_down_and_no_connections_closing s then
            act_bind (log_to LogServerNewline) (\<lambda>_.
            act_bind (log_to (LogServerInfo ''All connections closed within grace period, exiting'')) (\<lambda>_.
            act_return True)) s
          else (Inr False, s)))) (fill_read_buf bytes s)))"

text \<open>
  The loop: \<open>Inr True\<close> when it has broken out with \<open>Ok\<close>, \<open>Inr False\<close> when it is still running
  after the given ticks.
\<close>

fun run_loop :: "tick list \<Rightarrow> (server, bool) action" where
  "run_loop [] = act_return False"
| "run_loop (t # ts) = act_bind (loop_body t) (\<lambda>stop. if stop then act_return True else run_loop ts)"

definition server_new :: "config \<Rightarrow> instant \<Rightarrow> server" where
  "server_new cfg birth =
     \<lparr>write_buf = replicate ETHERNET_MTU 0,
      read_buf = replicate ETHERNET_MTU 0,
      srv_connections = connections_new
        \<lparr>rto_initial = initial_rto cfg, rto_min = TCP_RTO_MIN, rto_max = TCP_RTO_MAX\<rparr> (max_retries cfg),
      srv_logger = \<lparr>log_lvl = log_level cfg, log_birth = birth\<rparr>,
      dev_out = [],
      srv_log = [LogServerInfo (''Waiting for packets on TUN device '' @ tun_name cfg @ '' (Ctrl+C to stop)'')],
      shutdown_grace_period = grace_period cfg,
      shutdown_deadline = None\<rparr>"

definition server_run :: "config \<Rightarrow> instant \<Rightarrow> tick list \<Rightarrow> bool result \<times> server" where
  "server_run cfg birth ticks =
     act_bind (log_to LogDivider) (\<lambda>_. run_loop ticks) (server_new cfg birth)"

end
