(* ===== verification/Server_Inv.thy ===== *)
theory Server_Inv
  imports Server
begin

text \<open>
  The invariant of the server and what every run of it promises: only well-formed packets leave it,
  nothing panics, and a packet that cannot be parsed or answered does not stop it.
\<close>

section \<open>Sending a packet\<close>

definition reply_hdr :: "local_router \<Rightarrow> local_ep ipv4_header" where
  "reply_hdr out = \<lparr>total_len = of_nat (20 + length (router_wire out)), hdr_protocol = router_proto out,
     hdr_ip_pair = router_get_ip_pair out\<rparr>"

definition packet_of :: "local_router \<Rightarrow> bytes" where
  "packet_of out = ipv4_hdr_bytes (reply_hdr out) @ router_wire out"

lemma length_packet_of [simp]: "length (packet_of out) = 20 + length (router_wire out)"
  by (simp add: packet_of_def)

lemma unat_reply_len:
  "length (router_wire out) \<le> 1480 \<Longrightarrow> unat (total_len (reply_hdr out)) = 20 + length (router_wire out)"
  by (simp add: reply_hdr_def unsigned_of_nat take_bit_nat_eq_self del: of_nat_add)

lemma try_new_reply_hdr:
  "length (router_wire out) \<le> 1480 \<Longrightarrow>
   ipv4_try_new (router_proto out) (router_get_ip_pair out) (of_nat (length (router_wire out)))
     = Inr (reply_hdr out)"
  by (simp add: ipv4_try_new_def inner_try_new_def try_add_u16_def IPV4_HDR_MIN_LEN_def reply_hdr_def
      unsigned_of_nat take_bit_nat_eq_self)

lemma send_pkt_eq:
  assumes "router_ok out" and "length (write_buf s) = ETHERNET_MTU" and "length (router_wire out) \<le> 1480"
  shows "send_pkt t out s =
    (let s = s\<lparr>write_buf := packet_of out @ drop (20 + length (router_wire out)) (write_buf s)\<rparr>
     in case t_write t (length (dev_out s)) of
          Inl k \<Rightarrow> (Inl (IoError k), s)
        | Inr _ \<Rightarrow>
           (pkt_io_result (log_lvl (srv_logger s)) (io_result (t_flush t (length (srv_log s)))),
            s\<lparr>dev_out := dev_out s @ [packet_of out],
              srv_log := srv_log s @ [LogPktSent (reply_hdr out) out]\<rparr>))"
proof -
  let ?w = "router_wire out"
  define buf where "buf = packet_of out @ drop (20 + length ?w) (write_buf s)"
  have len: "length (write_buf s) = 1500" using assms(2) by (simp add: ETHERNET_MTU_def)
  have w: "router_write_into out (drop 20 (write_buf s))
      = (Inr (of_nat (length ?w)), ?w @ drop (length ?w) (drop 20 (write_buf s)))"
    using assms len by (intro router_enc.write_into_fits) (simp_all add: ETHERNET_MTU_def)
  have hdr: "ipv4_write_into (reply_hdr out) (take 20 (write_buf s) @ ?w @ drop (length ?w + 20) (write_buf s)) = buf"
    using len assms(3)
    by (simp add: ipv4_write_into_def inner_write_into_eq buf_def packet_of_def add.commute)
  have pkt: "try_get_range buf 0 (unat (total_len (reply_hdr out))) = Inr (packet_of out)"
    using len assms(3) by (simp add: unat_reply_len buf_def try_get_range_def)
  have "send_pkt t out s = act_bind (device_write_all t (packet_of out))
      (\<lambda>_. log_pkt_io t (LogPktSent (reply_hdr out) out)) (s\<lparr>write_buf := buf\<rparr>)"
    using assms(3) len hdr pkt
    by (simp add: send_pkt_def act_bind_def write_behind_header_def REPLY_HDR_LEN_def IPV4_HDR_MIN_LEN_def
        w try_new_reply_hdr del: drop_append)
  then show ?thesis
    by (auto simp: device_write_all_def log_pkt_io_def act_bind_def buf_def Let_def split: sum.splits)
qed

lemma send_pkt_fits:
  assumes "router_ok out" and "length (write_buf s) = ETHERNET_MTU" and "length (router_wire out) \<le> 1480"
  shows "\<exists>buf. length buf = ETHERNET_MTU \<and> send_pkt t out s =
    (case t_write t (length (dev_out s)) of
       Inl k \<Rightarrow> (Inl (IoError k), s\<lparr>write_buf := buf\<rparr>)
     | Inr _ \<Rightarrow>
        (pkt_io_result (log_lvl (srv_logger s)) (io_result (t_flush t (length (srv_log s)))),
         s\<lparr>write_buf := buf, dev_out := dev_out s @ [packet_of out],
           srv_log := srv_log s @ [LogPktSent (reply_hdr out) out]\<rparr>))"
  unfolding send_pkt_eq [OF assms] Let_def
  by (rule exI [of _ "packet_of out @ drop (20 + length (router_wire out)) (write_buf s)"])
     (use assms(2,3) in \<open>simp add: ETHERNET_MTU_def split: sum.split\<close>)

lemma send_pkt_too_long:
  assumes "router_ok out" and "length (write_buf s) = ETHERNET_MTU" and "1480 < length (router_wire out)"
  shows "\<exists>e buf. length buf = ETHERNET_MTU \<and> e \<noteq> Panicked \<and> send_pkt t out s = (Inl e, s\<lparr>write_buf := buf\<rparr>)"
proof -
  have len: "length (write_buf s) = 1500" using assms(2) by (simp add: ETHERNET_MTU_def)
  have "length (drop 20 (write_buf s)) < length (router_wire out)" using len assms(3) by simp
  from router_enc.write_into_too_long [OF assms(1) this]
  obtain e buf' where e: "router_write_into out (drop 20 (write_buf s)) = (Inl e, buf')" "e \<noteq> Panicked"
      "length buf' = length (drop 20 (write_buf s))" by blast
  have "send_pkt t out s = (Inl e, s\<lparr>write_buf := take 20 (write_buf s) @ buf'\<rparr>)"
    by (simp add: send_pkt_def act_bind_def write_behind_header_def REPLY_HDR_LEN_def IPV4_HDR_MIN_LEN_def e)
  moreover have "length (take 20 (write_buf s) @ buf') = ETHERNET_MTU"
    using e(3) len by (simp add: ETHERNET_MTU_def)
  ultimately show ?thesis using e(2) by blast
qed

section \<open>The invariant\<close>

text \<open>
  The connection table of a server is one that arriving segments, retransmissions and the active
  close can produce, under the retransmission settings the server was given. A packet the server may
  write: an IPv4 header of 20 bytes whose total length is the packet's, that
  verifies, followed by the wire format of a message of the protocol and addresses it names.
\<close>

definition packet_ok :: "bytes \<Rightarrow> bool" where
  "packet_ok pkt \<longleftrightarrow> length pkt \<le> ETHERNET_MTU \<and>
     (\<exists>out. router_ok out \<and> pkt = packet_of out)"

definition server_rto :: "config \<Rightarrow> rto_config" where
  "server_rto cfg = \<lparr>rto_initial = initial_rto cfg, rto_min = TCP_RTO_MIN, rto_max = TCP_RTO_MAX\<rparr>"

definition server_ok :: "config \<Rightarrow> server \<Rightarrow> bool" where
  "server_ok cfg s \<longleftrightarrow>
     length (write_buf s) = ETHERNET_MTU \<and> length (read_buf s) = ETHERNET_MTU \<and>
     tcp_reach (\<lambda>_ _. True) (server_rto cfg) (max_retries cfg) (srv_connections s) \<and>
     shutdown_grace_period s = grace_period cfg \<and> log_lvl (srv_logger s) = log_level cfg \<and>
     list_all packet_ok (dev_out s)"

lemma server_ok_new: "server_ok cfg (server_new cfg birth)"
  by (simp add: server_ok_def server_new_def server_rto_def tcp_reach.reach_new)

lemma server_ok_conns:
  "server_ok cfg s \<Longrightarrow> conns_ok (in_flight_ok 2147483648) (in_flight_ok 2147483649) (srv_connections s)"
  unfolding server_ok_def using tcp_reach_any by blast

lemma safely_log_to [safely_intros]: "safely (server_ok cfg) (log_to call)"
  by (simp add: safely_def log_to_def server_ok_def)

lemma pkt_io_result_io: "\<exists>r'. pkt_io_result level (io_result r) = io_result r'"
  unfolding pkt_io_result_def by (cases level) (auto intro: exI [of _ "Inr ()"] simp: io_result_def)

lemma io_result_not_panicked [simp]: "io_result r \<noteq> Inl Panicked"
  by (cases r) simp_all

lemma pkt_io_result_not_panicked [simp]: "pkt_io_result level (io_result r) \<noteq> Inl Panicked"
  using pkt_io_result_io [of level r] by (metis io_result_not_panicked)

lemma safely_log_pkt_io [safely_intros]: "safely (server_ok cfg) (log_pkt_io t call)"
  by (simp add: safely_def log_pkt_io_def server_ok_def)

lemma safely_send_pkt [safely_intros]:
  assumes "router_ok out"
  shows "safely (server_ok cfg) (send_pkt t out)"
proof (rule safelyI)
  fix s assume s: "server_ok cfg s"
  then have len: "length (write_buf s) = ETHERNET_MTU" by (simp add: server_ok_def)
  show "server_ok cfg (snd (send_pkt t out s)) \<and> fst (send_pkt t out s) \<noteq> Inl Panicked"
  proof (cases "length (router_wire out) \<le> 1480")
    case True
    then have "packet_ok (packet_of out)" using assms by (auto simp: packet_ok_def ETHERNET_MTU_def)
    with s send_pkt_fits [OF assms len True, of t] show ?thesis
      by (cases "t_write t (length (dev_out s))") (auto simp: server_ok_def)
  next
    case False
    with send_pkt_too_long [OF assms len, of t] s show ?thesis by (auto simp: server_ok_def)
  qed
qed

lemma safely_send_retransmissions:
  "list_all segment_ok segs \<Longrightarrow> safely (server_ok cfg) (send_retransmissions t segs)"
  by (induction segs) (auto intro!: safely_intros)

lemma safely_send_fins: "list_all segment_ok segs \<Longrightarrow> safely (server_ok cfg) (send_fins t segs)"
  by (induction segs) (auto intro!: safely_intros)

lemma server_ok_connections:
  "server_ok cfg s \<Longrightarrow> tcp_reach (\<lambda>_ _. True) (server_rto cfg) (max_retries cfg) conns \<Longrightarrow> server_ok cfg (s\<lparr>srv_connections := conns\<rparr>)"
  by (simp add: server_ok_def)

lemma server_ok_deadline [simp]: "server_ok cfg (s\<lparr>shutdown_deadline := d\<rparr>) \<longleftrightarrow> server_ok cfg s"
  by (simp add: server_ok_def)

lemma server_ok_fill_read_buf [simp]: "server_ok cfg s \<Longrightarrow> server_ok cfg (fill_read_buf data s)"
  by (simp add: server_ok_def fill_read_buf_def min_def)

lemma decide_shutdown_ok:
  assumes "server_ok cfg s" and "decide_shutdown now conn_now s = (r, s')"
  shows "server_ok cfg s'" and "r \<noteq> Inl Panicked"
    and "r = Inr (BeganDraining segs deadline) \<Longrightarrow> list_all segment_ok segs"
proof -
  have conns: "conns_ok (in_flight_ok 2147483648) (in_flight_ok 2147483649) (srv_connections s)"
    using assms(1) by (rule server_ok_conns)
  have reach: "tcp_reach (\<lambda>_ _. True) (server_rto cfg) (max_retries cfg) (srv_connections s)" using assms(1) by (simp add: server_ok_def)
  note close = any_peer.close_established_ok(2) [OF conns, of conn_now] tcp_reach.reach_close [OF reach, of conn_now]
  have "server_ok cfg s' \<and> r \<noteq> Inl Panicked \<and> (r = Inr (BeganDraining segs deadline) \<longrightarrow> list_all segment_ok segs)"
    using assms close
    by (auto simp: decide_shutdown_def Let_def list_all_iff try_add_instant_def ok_or_def result_map_def
        split: option.splits prod.splits if_splits sum.splits intro: server_ok_connections)
  then show "server_ok cfg s'" "r \<noteq> Inl Panicked"
    "r = Inr (BeganDraining segs deadline) \<Longrightarrow> list_all segment_ok segs" by simp_all
qed

lemma safely_decide_shutdown: "safely (server_ok cfg) (decide_shutdown now conn_now)"
proof (rule safelyI)
  fix s assume "server_ok cfg s"
  moreover obtain r s' where "decide_shutdown now conn_now s = (r, s')" by fastforce
  ultimately show "server_ok cfg (snd (decide_shutdown now conn_now s)) \<and>
      fst (decide_shutdown now conn_now s) \<noteq> Inl Panicked"
    using decide_shutdown_ok by simp
qed

lemma safely_set_deadline [safely_intros]:
  "safely (server_ok cfg) (\<lambda>s. (Inr (), s\<lparr>shutdown_deadline := d\<rparr>))"
  by (simp add: safely_def)

lemma safely_handle_shutdown_interrupt: "safely (server_ok cfg) (handle_shutdown_interrupt t)"
  unfolding handle_shutdown_interrupt_def
proof (intro safely_bind_result [OF safely_log_to] safely_bind_result [OF safely_decide_shutdown])
  fix s decision s'
  assume ok: "server_ok cfg s" "decide_shutdown (t_now t) (t_conn_now t) s = (Inr decision, s')"
  note segs = decide_shutdown_ok(3) [OF ok]
  show "safely (server_ok cfg) (case decision of
       AlreadyDraining time_left \<Rightarrow>
         act_bind (log_to (LogServerInfo (fmt_time_left time_left))) (\<lambda>_. act_return False)
     | BeganDraining to_send deadline \<Rightarrow>
         act_bind (log_to (LogServerInfo ''Shutdown signal received, closing established connections...''))
           (\<lambda>_. act_bind (log_to LogDivider)
           (\<lambda>_. act_bind (send_fins t to_send)
           (\<lambda>_. act_bind (log_to LogDivider)
           (\<lambda>_. act_bind (\<lambda>s. (Inr (), s\<lparr>shutdown_deadline := Some deadline\<rparr>)) (\<lambda>_. act_return False)))))
     | NoConnections \<Rightarrow>
         act_bind (log_to (LogServerInfo ''Shutdown signal received with no established connections, exiting''))
           (\<lambda>_. act_return True))"
    using segs by (cases decision) (auto intro!: safely_intros safely_send_fins)
qed

lemma safely_interrupted: "safely (server_ok cfg) (interrupted t)"
  by (auto simp: interrupted_def intro: safely_handle_shutdown_interrupt safely_intros)

lemma router_create_reply_reach:
  assumes "tcp_reach (\<lambda>_ _. True) (server_rto cfg) (max_retries cfg) conns" and "router_create_reply random now router conns = (r, conns')"
  shows "tcp_reach (\<lambda>_ _. True) (server_rto cfg) (max_retries cfg) conns'"
proof (cases router)
  case (RouterTcp seg)
  obtain v c where d: "decide_reply random now seg conns = (v, c)" by fastforce
  with RouterTcp assms(2) have "conns' = c"
    by (cases v) (auto simp: tcp_create_reply_def act_bind_def)
  with tcp_reach.reach_segment [OF assms(1) _ d] show ?thesis by simp
qed (use assms in auto)

lemma parse_incoming_ok:
  assumes "server_ok cfg s" and "parse_incoming random now data s = (r, s')"
  shows "server_ok cfg s'"
    and "r = Inr ex \<Longrightarrow> ex_reply_router ex = Some reply \<Longrightarrow> router_ok reply"
proof -
  have conns: "conns_ok (in_flight_ok 2147483648) (in_flight_ok 2147483649) (srv_connections s)"
    using assms(1) by (rule server_ok_conns)
  have reach: "tcp_reach (\<lambda>_ _. True) (server_rto cfg) (max_retries cfg) (srv_connections s)" using assms(1) by (simp add: server_ok_def)
  have "server_ok cfg s' \<and> (r = Inr ex \<longrightarrow> ex_reply_router ex = Some reply \<longrightarrow> router_ok reply)"
    using assms
    by (auto simp: parse_incoming_def Let_def result_map_eq_Inr result_map_err_eq_Inr
        split: sum.splits prod.splits
        intro: server_ok_connections router_create_reply_reach [OF reach]) (use router_create_reply_ok(2) [OF conns] in blast)
  then show "server_ok cfg s'" "r = Inr ex \<Longrightarrow> ex_reply_router ex = Some reply \<Longrightarrow> router_ok reply"
    by simp_all
qed

lemma safely_handle_packet [safely_intros]: "safely (server_ok cfg) (handle_packet t data)"
proof (rule safelyI)
  fix s assume s: "server_ok cfg s"
  obtain r s' where p: "parse_incoming (io_result (random_u32 (t_urandom t))) (t_conn_now t) data s = (r, s')"
    by fastforce
  note ok = parse_incoming_ok [OF s p]
  show "server_ok cfg (snd (handle_packet t data s)) \<and> fst (handle_packet t data s) \<noteq> Inl Panicked"
  proof (cases r)
    case (Inl e)
    with p ok(1) safelyD [OF safely_log_to] show ?thesis by (simp add: handle_packet_def)
  next
    case (Inr ex)
    have "safely (server_ok cfg) (act_bind (log_to (LogPktExtra '' ==== Packet received ===='')) (\<lambda>_.
          act_bind (log_pkt_io t (LogPktReceived (ex_ipv4_hdr ex) (ex_incoming_router ex))) (\<lambda>_.
          case ex_reply_router ex of
            None \<Rightarrow> log_to (LogPktExtra (newline @ ''<no reply>''))
          | Some reply \<Rightarrow>
              act_bind (log_to (LogPktExtra (newline @ '' ==== Packet sent ===='')))
                (\<lambda>_. send_pkt t reply))))"
      using ok(2) [OF Inr] by (auto intro!: safely_intros split: option.splits)
    from safelyD [OF this ok(1)] p Inr show ?thesis by (simp add: handle_packet_def)
  qed
qed

lemma safely_read_packet [safely_intros]:
  "safely (server_ok cfg) (act_read (\<lambda>s. try_get_range (read_buf s) i j))"
  by (simp add: safely_def try_get_range_def)

lemma safely_loop_body: "safely (server_ok cfg) (loop_body t)"
proof (rule safelyI)
  fix s assume s: "server_ok cfg s"
  have conns: "conns_ok (in_flight_ok 2147483648) (in_flight_ok 2147483649) (srv_connections s)"
    using s by (rule server_ok_conns)
  obtain segs conns' where m: "make_retransmissions (t_conn_now t) (t_fallback t) (srv_connections s) = (segs, conns')"
    by fastforce
  have "tcp_reach (\<lambda>_ _. True) (server_rto cfg) (max_retries cfg) (srv_connections s)" using s by (simp add: server_ok_def)
  note re = tcp_reach.reach_retransmit [OF this m] any_peer.make_retransmissions_ok(2) [OF conns m]
  have resend: "safely (server_ok cfg) (act_bind (send_retransmissions t segs) (\<lambda>_. act_return False))"
    using re(2) by (auto intro!: safely_intros safely_send_retransmissions simp: list_all_iff)
  have stop: "safely (server_ok cfg) (act_bind (log_to LogServerNewline) (\<lambda>_.
            act_bind (log_to (LogServerInfo msg)) (\<lambda>_. act_return True)))" for msg
    by (intro safely_intros)
  have finish: "safely (server_ok cfg) (\<lambda>s. if shutting_down_and_no_connections_closing s
      then act_bind (log_to LogServerNewline) (\<lambda>_. act_bind (log_to (LogServerInfo msg)) (\<lambda>_. act_return True)) s
      else (Inr False, s))" for msg
    using stop [of msg] by (simp add: safely_def)
  have packet: "safely (server_ok cfg) (act_bind (act_read (\<lambda>s. try_get_range (read_buf s) 0 len)) (\<lambda>data.
          act_bind (handle_packet t data) (\<lambda>_.
          act_bind (log_to LogDivider) (\<lambda>_ s.
          if shutting_down_and_no_connections_closing s then
            act_bind (log_to LogServerNewline) (\<lambda>_.
            act_bind (log_to (LogServerInfo msg)) (\<lambda>_. act_return True)) s
          else (Inr False, s)))))" for len msg
    by (intro safely_intros finish)
  note D = safelyD [OF resend server_ok_connections [OF s re(1)]] safelyD [OF stop s]
    safelyD [OF safely_interrupted s] safelyD [OF packet server_ok_fill_read_buf [OF s]]
  show "server_ok cfg (snd (loop_body t s)) \<and> fst (loop_body t s) \<noteq> Inl Panicked"
    unfolding loop_body_def m Let_def prod.case
    using D s by (auto split: sum.splits io_error_kind.splits bool.splits)
qed

lemma safely_run_loop: "safely (server_ok cfg) (run_loop ts)"
proof (induction ts)
  case (Cons t ts)
  then show ?case by (auto intro!: safely_intros safely_loop_body)
qed (simp add: safely_def)

lemma server_run_safe:
  "server_ok cfg (snd (server_run cfg birth ts))" "fst (server_run cfg birth ts) \<noteq> Inl Panicked"
proof -
  have "safely (server_ok cfg) (act_bind (log_to LogDivider) (\<lambda>_. run_loop ts))"
    by (intro safely_intros safely_run_loop)
  from safelyD [OF this server_ok_new]
  show "server_ok cfg (snd (server_run cfg birth ts))" "fst (server_run cfg birth ts) \<noteq> Inl Panicked"
    by (simp_all add: server_run_def)
qed

section \<open>Well-formed packets\<close>

lemma packet_of_parses: "inner_parse (packet_of out) = Inr (reply_hdr out, router_wire out)"
  by (simp add: packet_of_def inner_parse_hdr_bytes)

definition checksum_verifies :: "local_ep ipv4_header \<Rightarrow> bytes \<Rightarrow> bool" where
  "checksum_verifies hdr payload \<longleftrightarrow>
     (case hdr_protocol hdr of
        Icmp \<Rightarrow> calculate payload = 0
      | protocol \<Rightarrow> pseudo_hdr_cksum payload (hdr_ip_pair hdr) protocol = Inr 0)"

lemma router_wire_verifies:
  assumes "length (router_wire out) \<le> 1480"
  shows "checksum_verifies (reply_hdr out) (router_wire out)"
proof (cases out)
  case (RouterIcmp m)
  with assms show ?thesis
    by (auto simp: checksum_verifies_def reply_hdr_def ETHERNET_MTU_def intro!: icmp_wire_verifies)
next
  case (RouterTcp seg)
  with assms show ?thesis
    by (auto simp: checksum_verifies_def reply_hdr_def ETHERNET_MTU_def intro!: tcp_wire_verifies)
next
  case (RouterUdp d)
  with assms show ?thesis
    by (auto simp: checksum_verifies_def reply_hdr_def ETHERNET_MTU_def intro!: udp_wire_verifies)
qed

section \<open>One packet\<close>

lemma fill_read_buf_sel [simp]:
  "srv_connections (fill_read_buf data s) = srv_connections s" "dev_out (fill_read_buf data s) = dev_out s"
  "srv_log (fill_read_buf data s) = srv_log s" "write_buf (fill_read_buf data s) = write_buf s"
  "srv_logger (fill_read_buf data s) = srv_logger s"
  "shutdown_deadline (fill_read_buf data s) = shutdown_deadline s"
  by (simp_all add: fill_read_buf_def)

lemma parse_incoming_fill:
  "parse_incoming random now data (fill_read_buf bs s) =
     (fst (parse_incoming random now data s), fill_read_buf bs (snd (parse_incoming random now data s)))"
  by (simp add: parse_incoming_def fill_read_buf_def Let_def split: sum.split prod.split)

lemma read_filled:
  "length (read_buf s) = ETHERNET_MTU \<Longrightarrow> length bs \<le> ETHERNET_MTU \<Longrightarrow>
     try_get_range (read_buf (fill_read_buf bs s)) 0 (length bs) = Inr bs"
  by (simp add: fill_read_buf_def try_get_range_def)

text \<open>The end of an iteration that read a packet.\<close>

definition after_packet :: "(server, bool) action" where
  "after_packet = act_bind (log_to LogDivider) (\<lambda>_ s.
     if shutting_down_and_no_connections_closing s then
       act_bind (log_to LogServerNewline) (\<lambda>_.
       act_bind (log_to (LogServerInfo ''All connections closed within grace period, exiting'')) (\<lambda>_.
       act_return True)) s
     else (Inr False, s))"

lemma loop_body_packet:
  assumes "server_ok cfg s" and "t_poll t (poll_timeout (t_poll_at t) (t_fallback t) s) = Inr True"
    and "t_read t = Inr bs" and "length bs \<le> ETHERNET_MTU"
  shows "loop_body t s = act_bind (handle_packet t bs) (\<lambda>_. after_packet) (fill_read_buf bs s)"
proof -
  have "length (read_buf s) = ETHERNET_MTU" using assms(1) by (simp add: server_ok_def)
  from read_filled [OF this assms(4)] assms(2,3) show ?thesis
    by (simp add: loop_body_def after_packet_def act_bind_def)
qed

lemma after_packet_total:
  "\<exists>s'. after_packet s = (Inr (shutting_down_and_no_connections_closing s), s') \<and> dev_out s' = dev_out s \<and>
     srv_connections s' = srv_connections s \<and>
     (\<not> shutting_down_and_no_connections_closing s \<longrightarrow> s' = s\<lparr>srv_log := srv_log s @ [LogDivider]\<rparr>)"
proof -
  have "shutting_down_and_no_connections_closing (s\<lparr>srv_log := l\<rparr>) = shutting_down_and_no_connections_closing s" for l
    by (simp add: shutting_down_and_no_connections_closing_def)
  then show ?thesis by (simp add: after_packet_def act_bind_def log_to_def)
qed

lemma parse_incoming_Inl:
  assumes "server_ok cfg s" and "parse_incoming random now data s = (Inl e, s')"
  shows "s' = s"
proof -
  have conns: "conns_ok (in_flight_ok 2147483648) (in_flight_ok 2147483649) (srv_connections s)"
    using assms(1) by (rule server_ok_conns)
  have unchanged: "conns' = srv_connections s"
    if "router_create_reply random now router (srv_connections s) = (Inl e', conns')" for router e' conns'
  proof (cases router)
    case (RouterTcp seg)
    with that any_peer.tcp_create_reply_ok [OF conns, of seg random now] show ?thesis
      by (auto simp: act_bind_def split: prod.splits sum.splits)
  qed (use that in auto)
  show ?thesis
    using assms(2)
    by (auto simp: parse_incoming_def Let_def result_map_eq_Inl result_map_err_eq_Inl
        split: sum.splits prod.splits dest!: unchanged)
qed

lemma parse_incoming_frame:
  "parse_incoming random now data s = (r, s') \<Longrightarrow> \<exists>conns. s' = s\<lparr>srv_connections := conns\<rparr>"
  by (auto simp: parse_incoming_def Let_def split: sum.splits prod.splits) (rule exI [of _ "srv_connections s"], simp)+

definition io_works :: "tick \<Rightarrow> bool" where
  "io_works t \<longleftrightarrow> (\<forall>n. t_write t n = Inr ()) \<and> (\<forall>n. t_flush t n = Inr ())"

lemma pkt_io_result_Inr [simp]: "pkt_io_result level (Inr ()) = Inr ()"
  by (simp add: pkt_io_result_def split: log_level.splits)

lemma handle_packet_reply:
  assumes "server_ok cfg s" and "io_works t"
    and "parse_incoming (io_result (random_u32 (t_urandom t))) (t_conn_now t) bs s = (Inr ex, s1)"
    and "ex_reply_router ex = Some reply" and "length (router_wire reply) \<le> 1480"
  shows "\<exists>s'. handle_packet t bs s = (Inr (), s') \<and> dev_out s' = dev_out s @ [packet_of reply] \<and>
    srv_connections s' = srv_connections s1 \<and> shutdown_deadline s' = shutdown_deadline s"
proof -
  obtain conns where s1: "s1 = s\<lparr>srv_connections := conns\<rparr>" using parse_incoming_frame [OF assms(3)] by blast
  define s2 where "s2 = s1\<lparr>srv_log := srv_log s @ [LogPktExtra '' ==== Packet received ====''] @
      [LogPktReceived (ex_ipv4_hdr ex) (ex_incoming_router ex)] @ [LogPktExtra (newline @ '' ==== Packet sent ====''  )]\<rparr>"
  have ok: "router_ok reply" "length (write_buf s2) = ETHERNET_MTU"
    using parse_incoming_ok [OF assms(1,3)] assms(1,4) by (simp_all add: s2_def s1 server_ok_def)
  have "handle_packet t bs s = send_pkt t reply s2"
    using assms(2,3,4)
    by (simp add: handle_packet_def act_bind_def log_to_def log_pkt_io_def io_works_def s2_def s1)
  with send_pkt_fits [OF ok assms(5), of t] assms(2) show ?thesis
    by (auto simp: io_works_def s2_def s1)
qed

lemma handle_packet_Inl:
  assumes "server_ok cfg s" and "io_works t" and "handle_packet t bs s = (Inl e, s')"
  shows "\<exists>ex s1 reply.
    parse_incoming (io_result (random_u32 (t_urandom t))) (t_conn_now t) bs s = (Inr ex, s1) \<and>
    ex_reply_router ex = Some reply \<and> 1480 < length (router_wire reply)"
proof -
  obtain r s1 where p: "parse_incoming (io_result (random_u32 (t_urandom t))) (t_conn_now t) bs s = (r, s1)"
    by fastforce
  show ?thesis
  proof (cases r)
    case (Inl e')
    with p assms(3) show ?thesis by (simp add: handle_packet_def log_to_def)
  next
    case (Inr ex)
    show ?thesis
    proof (cases "ex_reply_router ex")
      case None
      with p Inr assms(2,3) show ?thesis
        by (simp add: handle_packet_def log_to_def log_pkt_io_def act_bind_def io_works_def)
    next
      case (Some reply)
      with p Inr assms handle_packet_reply [OF assms(1,2) p [unfolded Inr] Some] show ?thesis
        by (auto simp: not_le [symmetric])
    qed
  qed
qed

lemma router_reply_length:
  assumes "router_parse data protocol ip_pair = Inr router"
    and "router_create_reply random now router conns = (Inr (Some reply), conns')" and "protocol \<noteq> Tcp"
  shows "length (router_wire reply) = length data"
proof (cases protocol)
  case Icmp
  with assms(1) obtain m where m: "router = RouterIcmp m" "icmp_parse data ip_pair = Inr m"
    by (auto simp: result_map_eq_Inr)
  have "length (icmp_tail m) = length data - 4" "8 \<le> length data" using icmp_parse_Inr [OF m(2)] by simp_all
  with m(1) assms(2) show ?thesis by (auto simp: icmp_create_reply_def)
next
  case Udp
  with assms(1) obtain d where d: "router = RouterUdp d" "udp_parse data ip_pair = Inr d"
    by (auto simp: result_map_eq_Inr)
  then have "8 \<le> length data" "udp_payload d = drop 8 data"
    by (auto simp: udp_parse_def UDP_HDR_LEN_def Let_def result_bind_eq_Inr split: if_splits)
  with d(1) assms(2) show ?thesis by auto
qed (use assms(3) in simp)

lemma parse_incoming_reply:
  assumes "parse_incoming random now data s = (Inr ex, s1)" and "ex_reply_router ex = Some reply"
  shows "\<exists>payload conns. ipv4_parse data = Inr (ex_ipv4_hdr ex, payload) \<and>
    router_parse payload (hdr_protocol (ex_ipv4_hdr ex)) (hdr_ip_pair (ex_ipv4_hdr ex)) = Inr (ex_incoming_router ex) \<and>
    router_create_reply random now (ex_incoming_router ex) (srv_connections s) = (Inr (Some reply), conns)"
  using assms
  by (auto simp: parse_incoming_def Let_def result_map_eq_Inr result_map_err_eq_Inr
      split: sum.splits prod.splits)

lemma handle_packet_too_long:
  assumes "server_ok cfg s"
    and "parse_incoming (io_result (random_u32 (t_urandom t))) (t_conn_now t) bs s = (Inr ex, s1)"
    and "ex_reply_router ex = Some reply" and "1480 < length (router_wire reply)"
  shows "\<exists>e s'. handle_packet t bs s = (Inl e, s') \<and> dev_out s' = dev_out s"
proof -
  obtain conns where s1: "s1 = s\<lparr>srv_connections := conns\<rparr>" using parse_incoming_frame [OF assms(2)] by blast
  define s2 where "s2 = s1\<lparr>srv_log := srv_log s @ [LogPktExtra '' ==== Packet received ====''] @
      [LogPktReceived (ex_ipv4_hdr ex) (ex_incoming_router ex)] @ [LogPktExtra (newline @ '' ==== Packet sent ====''  )]\<rparr>"
  have ok: "router_ok reply" "length (write_buf s2) = ETHERNET_MTU"
    using parse_incoming_ok [OF assms(1,2)] assms(1,3) by (simp_all add: s2_def s1 server_ok_def)
  from send_pkt_too_long [OF ok assms(4), of t] obtain e buf where
    send: "send_pkt t reply s2 = (Inl e, s2\<lparr>write_buf := buf\<rparr>)" by blast
  have "(\<exists>e s'. handle_packet t bs s = (Inl e, s') \<and> dev_out s' = dev_out s) \<or>
      handle_packet t bs s = send_pkt t reply s2"
    using assms(2,3)
    by (simp add: handle_packet_def act_bind_def log_to_def log_pkt_io_def s2_def s1 split: sum.splits)
  with send show ?thesis by (auto simp: s2_def s1)
qed

lemma loop_body_too_long:
  assumes "server_ok cfg s" and "t_poll t (poll_timeout (t_poll_at t) (t_fallback t) s) = Inr True"
    and "t_read t = Inr bs" and "length bs \<le> ETHERNET_MTU"
    and "parse_incoming (io_result (random_u32 (t_urandom t))) (t_conn_now t) bs s = (Inr ex, s1)"
    and "ex_reply_router ex = Some reply" and "1480 < length (router_wire reply)"
  shows "\<exists>e s'. loop_body t s = (Inl e, s') \<and> dev_out s' = dev_out s"
proof -
  have "parse_incoming (io_result (random_u32 (t_urandom t))) (t_conn_now t) bs (fill_read_buf bs s)
      = (Inr ex, fill_read_buf bs s1)" by (simp add: parse_incoming_fill assms(5))
  from handle_packet_too_long [OF server_ok_fill_read_buf [OF assms(1)] this assms(6,7)]
  show ?thesis using loop_body_packet [OF assms(1-4)] by auto
qed

text \<open>An iteration in which a packet is read, answered and the reply sent, and one without a reply.\<close>

lemma loop_body_reply:
  assumes "server_ok cfg s" and "io_works t" and "t_poll t (poll_timeout (t_poll_at t) (t_fallback t) s) = Inr True"
    and "t_read t = Inr bs" and "length bs \<le> ETHERNET_MTU"
    and "parse_incoming (io_result (random_u32 (t_urandom t))) (t_conn_now t) bs s = (Inr ex, s1)"
    and "ex_reply_router ex = Some reply" and "length (router_wire reply) \<le> 1480"
  shows "\<exists>stop s'. loop_body t s = (Inr stop, s') \<and> dev_out s' = dev_out s @ [packet_of reply] \<and>
    srv_connections s' = srv_connections s1 \<and>
    (shutdown_deadline s = None \<longrightarrow> \<not> stop \<and> shutdown_deadline s' = None)"
proof -
  have "parse_incoming (io_result (random_u32 (t_urandom t))) (t_conn_now t) bs (fill_read_buf bs s)
      = (Inr ex, fill_read_buf bs s1)" by (simp add: parse_incoming_fill assms(6))
  from handle_packet_reply [OF server_ok_fill_read_buf [OF assms(1)] assms(2) this assms(7,8)]
  obtain s2 where h: "handle_packet t bs (fill_read_buf bs s) = (Inr (), s2)"
    "dev_out s2 = dev_out s @ [packet_of reply]" "srv_connections s2 = srv_connections s1"
    "shutdown_deadline s2 = shutdown_deadline s" by auto
  have "shutdown_deadline s = None \<longrightarrow> \<not> shutting_down_and_no_connections_closing s2"
    by (simp add: h(4) shutting_down_and_no_connections_closing_def)
  with after_packet_total [of s2] h loop_body_packet [OF assms(1,3-5)] show ?thesis by auto
qed

lemma parse_incoming_tcp:
  assumes "ipv4_parse data = Inr (hdr, payload)" and "hdr_protocol hdr = Tcp"
    and "tcp_parse payload (hdr_ip_pair hdr) = Inr seg"
    and "decide_reply random now seg (srv_connections s) = (Inr v, conns')"
  shows "parse_incoming random now data s = (Inr \<lparr>ex_ipv4_hdr = hdr, ex_incoming_router = RouterTcp seg,
      ex_reply_router = map_option (\<lambda>info. RouterTcp (from_pairs_and_info (ip_swapped (seg_ip_pair seg))
        (ports_swapped (seg_ports seg)) info)) v\<rparr>, s\<lparr>srv_connections := conns'\<rparr>)"
  using assms by (simp add: parse_incoming_def tcp_create_reply_def act_bind_def option.map_comp comp_def)

text \<open>An iteration that reads a packet without a usable reply changes the read buffer and the log only.\<close>

lemma bad_packet_step:
  assumes "server_ok cfg s" and "t_poll t (poll_timeout (t_poll_at t) (t_fallback t) s) = Inr True"
    and "t_read t = Inr bs" and "length bs \<le> ETHERNET_MTU"
    and "fst (parse_incoming (io_result (random_u32 (t_urandom t))) (t_conn_now t) bs s) = Inl e"
    and "\<not> shutting_down_and_no_connections_closing s"
  shows "loop_body t s =
    (Inr False, (fill_read_buf bs s)\<lparr>srv_log := srv_log s @ [LogPktErr e, LogDivider]\<rparr>)"
proof -
  obtain s1 where "parse_incoming (io_result (random_u32 (t_urandom t))) (t_conn_now t) bs s = (Inl e, s1)"
    using assms(5) by (cases "parse_incoming (io_result (random_u32 (t_urandom t))) (t_conn_now t) bs s") auto
  with parse_incoming_Inl [OF assms(1)]
  have p: "parse_incoming (io_result (random_u32 (t_urandom t))) (t_conn_now t) bs s = (Inl e, s)" by blast
  let ?s = "(fill_read_buf bs s)\<lparr>srv_log := srv_log s @ [LogPktErr e]\<rparr>"
  have h: "handle_packet t bs (fill_read_buf bs s) = (Inr (), ?s)"
    by (simp add: handle_packet_def parse_incoming_fill p log_to_def)
  have "\<not> shutting_down_and_no_connections_closing ?s"
    using assms(6) by (simp add: shutting_down_and_no_connections_closing_def)
  with after_packet_total [of ?s] h loop_body_packet [OF assms(1-4)] show ?thesis by auto
qed

section \<open>A concrete server\<close>

lemma run_loop_snoc:
  "run_loop ts s = (Inr False, s') \<Longrightarrow> run_loop (ts @ [t]) s =
     act_bind (loop_body t) (\<lambda>stop. if stop then act_return True else act_return False) s'"
proof (induction ts arbitrary: s)
  case (Cons u ts)
  obtain r s1 where r: "loop_body u s = (r, s1)" by fastforce
  with Cons show ?case by (cases r) (auto split: if_splits)
qed (simp add: act_bind_def split: prod.split sum.split)

lemma server_run_snoc:
  assumes "server_run cfg birth ts = (Inr False, s)" and "loop_body t s = (Inr False, s')"
  shows "server_run cfg birth (ts @ [t]) = (Inr False, s')"
proof -
  have "run_loop ts (snd (log_to LogDivider (server_new cfg birth))) = (Inr False, s)"
    using assms(1) by (simp add: server_run_def log_to_def act_bind_def)
  from run_loop_snoc [OF this, of t] assms(2) show ?thesis
    by (simp add: server_run_def log_to_def act_bind_def)
qed

definition demo_config :: config where
  "demo_config = \<lparr>tun_name = ''tun0'', initial_rto = 1000000000, max_retries = 15,
     grace_period = 60000000000, log_level = Silent\<rparr>"

lemma demo_config_sel: "grace_period demo_config = 60000000000" "log_level demo_config = Silent"
  by (simp_all add: demo_config_def)

text \<open>An iteration in which everything works and the given packet is read.\<close>

definition demo_tick :: "bytes \<Rightarrow> tick" where
  "demo_tick bs = \<lparr>t_poll_at = 0, t_now = 0, t_conn_now = 0, t_fallback = 0, t_poll = \<lambda>_. Inr True,
     t_shutdown = False, t_read = Inr bs, t_urandom = Inr (7, 0, 0, 0), t_write = \<lambda>_. Inr (),
     t_flush = \<lambda>_. Inr ()\<rparr>"

lemma demo_tick_sel [simp]:
  "t_poll (demo_tick bs) d = Inr True" "t_read (demo_tick bs) = Inr bs" "t_conn_now (demo_tick bs) = 0"
  "io_result (random_u32 (t_urandom (demo_tick bs))) = Inr 7" "io_works (demo_tick bs)"
  "t_write (demo_tick bs) n = Inr ()" "t_flush (demo_tick bs) n = Inr ()"
  by (simp_all add: demo_tick_def random_u32_def from_be_bytes_def io_works_def)

definition demo_packet :: "remote_segment \<Rightarrow> bytes" where
  "demo_packet seg = ipv4_hdr_bytes \<lparr>total_len = 0, hdr_protocol = Tcp, hdr_ip_pair = seg_ip_pair seg\<rparr>
     @ tcp_wire seg"

lemma demo_packet_parses:
  assumes "segment_ok seg" and "length (payload_bytes (seg_payload seg)) \<le> 1460" and "seg_offset_bytes seg = 20"
  shows "ipv4_parse (demo_packet seg) =
      Inr (\<lparr>total_len = 0, hdr_protocol = Tcp, hdr_ip_pair = seg_ip_pair seg\<rparr>, tcp_wire seg)"
    and "tcp_parse (tcp_wire seg) (seg_ip_pair seg) = Inr seg"
    and "length (demo_packet seg) \<le> ETHERNET_MTU"
  using assms tcp_parse_wire [of seg]
  by (simp_all add: demo_packet_def ipv4_parse_def inner_parse_hdr_bytes tcp_parse_def ETHERNET_MTU_def
      TCP_HDR_MIN_LEN_def)

lemma demo_start:
  "\<exists>s. server_run demo_config 0 [] = (Inr False, s) \<and> shutdown_deadline s = None \<and> dev_out s = [] \<and>
     conn_table (srv_connections s) = []"
  by (simp add: server_run_def log_to_def act_bind_def server_new_def connections_new_def)

lemma demo_step:
  assumes "server_run demo_config 0 ts = (Inr False, s)" and "shutdown_deadline s = None"
    and "segment_ok seg" and "length (payload_bytes (seg_payload seg)) \<le> 1460" and "seg_offset_bytes seg = 20"
    and "decide_reply (Inr 7) 0 seg (srv_connections s) = (Inr (Some info), conns')"
    and "length (payload_bytes (si_payload info)) \<le> 1460"
  shows "\<exists>s'. server_run demo_config 0 (ts @ [demo_tick (demo_packet seg)]) = (Inr False, s') \<and>
    shutdown_deadline s' = None \<and> srv_connections s' = conns'"
proof -
  have ok: "server_ok demo_config s"
    using server_run_safe(1) [of demo_config 0 ts] assms(1) by simp
  note parses = demo_packet_parses [OF assms(3-5)]
  have p: "parse_incoming (Inr 7) 0 (demo_packet seg) s = (Inr \<lparr>ex_ipv4_hdr =
      \<lparr>total_len = 0, hdr_protocol = Tcp, hdr_ip_pair = seg_ip_pair seg\<rparr>, ex_incoming_router = RouterTcp seg,
      ex_reply_router = Some (RouterTcp (from_pairs_and_info (ip_swapped (seg_ip_pair seg))
        (ports_swapped (seg_ports seg)) info))\<rparr>, s\<lparr>srv_connections := conns'\<rparr>)"
    using parse_incoming_tcp [OF parses(1) _ _ assms(6)] parses(2) by simp
  have "\<exists>stop s'. loop_body (demo_tick (demo_packet seg)) s = (Inr stop, s') \<and>
      srv_connections s' = conns' \<and> \<not> stop \<and> shutdown_deadline s' = None"
    using loop_body_reply [OF ok, of "demo_tick (demo_packet seg)" "demo_packet seg", OF _ _ _ parses(3)] p assms(2,7)
    by (fastforce simp: from_pairs_and_info_def)
  then obtain s' where "loop_body (demo_tick (demo_packet seg)) s = (Inr False, s')"
    "srv_connections s' = conns'" "shutdown_deadline s' = None" by auto
  with server_run_snoc [OF assms(1) this(1)] show ?thesis by blast
qed

text \<open>
  A client fills the buffer of its connection while its window is closed, then opens the window with
  one more byte.
\<close>

definition demo_fill :: "bytes \<Rightarrow> remote_segment" where
  "demo_fill d = demo_syn\<lparr>seg_seq_num := SeqPoint 101, seg_ack_num := SeqPoint 8, seg_flags := Ack,
     seg_window := SeqOffset 0, seg_payload := Some \<lparr>payload_data = d, payload_len = 1460\<rparr>\<rparr>"

definition demo_open :: remote_segment where
  "demo_open = demo_syn\<lparr>seg_seq_num := SeqPoint 1561, seg_ack_num := SeqPoint 8, seg_flags := Ack,
     seg_window := SeqOffset 65535, seg_payload := Some \<lparr>payload_data = [0], payload_len = 1\<rparr>\<rparr>"

lemma demo_fill_steps:
  assumes "length d = 1460" and "conn_table conns = []"
  shows "\<exists>info1 conns1 info2 conns2 info3 conns3.
    decide_reply (Inr 7) 0 demo_syn conns = (Inr (Some info1), conns1) \<and> si_payload info1 = None \<and>
    (\<exists>conn. conn_get conns1 (seg_key demo_syn) = Some conn \<and> pending conn = [pending_new info1 0]) \<and>
    decide_reply (Inr 7) 0 (demo_fill d) conns1 = (Inr (Some info2), conns2) \<and> si_payload info2 = None \<and>
    (\<exists>conn est. conn_get conns2 (seg_key demo_syn) = Some conn \<and> tcp_state conn = Established est) \<and>
    decide_reply (Inr 7) 0 demo_open conns2 = (Inr (Some info3), conns3) \<and>
    payload_bytes (si_payload info3) = d @ [0]"
proof -
  have seq: "precedes (SeqPoint 7 :: local_ep seq_point) (SeqPoint 8)"
      "precedes_or_eq (SeqPoint 8 :: local_ep seq_point) (SeqPoint 8)"
      "\<not> precedes (SeqPoint 8 :: local_ep seq_point) (SeqPoint 8)"
      "precedes (SeqPoint 101 :: remote_ep seq_point) (SeqPoint 1561)"
      "offset_past (SeqPoint 8 :: local_ep seq_point) (SeqPoint 8) = Some (SeqOffset 0)"
    by (simp_all add: seq_simps) (simp_all add: seq_dist_def)
  have none: "conn_get conns (seg_key demo_syn) = None" using assms(2) by (simp add: conn_get_def)
  have iter: "try_from_iter (d @ [0]) = Inr (Some \<lparr>payload_data = d @ [0], payload_len = 1461\<rparr>)"
    using assms(1) by (cases d) (simp_all add: u16_try_from_def)
  show ?thesis
    using none assms(1)
    by (simp add: decide_reply_def handle_unknown_conn_def from_syn_ack_def insert_syn_rcv_eq Let_def
        demo_syn_def demo_fill_def demo_open_def seq_add_def phantom_bytes seq
        handle_known_conn_def handle_syn_rcv_def handle_established_def complete_handshake_def establish_def
        seg_key_def accept_payload_def act_bind_def drain_or_ack_def drain_transmittable_def
        usize_try_from_offset_def u32_of_u16_offset_def offset_saturating_sub_def incoming_ack_update_def
        offset_of_nonzero_def data_payload_def pure_ack_def iter)
qed

lemma demo_fill_segments:
  assumes "length d = 1460"
  shows "segment_ok demo_syn" "segment_ok (demo_fill d)" "segment_ok demo_open"
    "length (payload_bytes (seg_payload demo_syn)) \<le> 1460" "length (payload_bytes (seg_payload (demo_fill d))) \<le> 1460"
    "length (payload_bytes (seg_payload demo_open)) \<le> 1460"
    "seg_offset_bytes demo_syn = 20" "seg_offset_bytes (demo_fill d) = 20" "seg_offset_bytes demo_open = 20"
  using assms by (simp_all add: segment_ok_def demo_syn_def demo_fill_def demo_open_def payload_ok_def)

lemma demo_syn_run:
  "\<exists>s conn info. server_run demo_config 0 [demo_tick (demo_packet demo_syn)] = (Inr False, s) \<and>
     conn_get (srv_connections s) (seg_key demo_syn) = Some conn \<and> pending conn = [pending_new info 0] \<and>
     shutdown_deadline s = None"
proof -
  obtain d :: bytes where d: "length d = 1460" using Ex_list_of_length by blast
  obtain s0 where s0: "server_run demo_config 0 [] = (Inr False, s0)" "shutdown_deadline s0 = None"
    "conn_table (srv_connections s0) = []" using demo_start by blast
  from demo_fill_steps [OF d s0(3)] obtain info conns conn where
    step: "decide_reply (Inr 7) 0 demo_syn (srv_connections s0) = (Inr (Some info), conns)"
    "si_payload info = None" "conn_get conns (seg_key demo_syn) = Some conn" "pending conn = [pending_new info 0]"
    by blast
  from demo_step [OF s0(1,2) demo_fill_segments(1,4,7) [OF d] step(1)] step show ?thesis by auto
qed

lemma demo_fill_run:
  assumes d: "length d = 1460"
  shows "\<exists>s conn est info conns.
    server_run demo_config 0 [demo_tick (demo_packet demo_syn), demo_tick (demo_packet (demo_fill d))] = (Inr False, s) \<and>
    shutdown_deadline s = None \<and> shutdown_grace_period s = 60000000000 \<and>
    conn_get (srv_connections s) (seg_key demo_syn) = Some conn \<and> tcp_state conn = Established est \<and>
    decide_reply (Inr 7) 0 demo_open (srv_connections s) = (Inr (Some info), conns) \<and>
    payload_bytes (si_payload info) = d @ [0]"
proof -
  obtain s0 where s0: "server_run demo_config 0 [] = (Inr False, s0)" "shutdown_deadline s0 = None"
    "conn_table (srv_connections s0) = []" using demo_start by blast
  note segs = demo_fill_segments [OF d]
  from demo_fill_steps [OF d s0(3)] obtain info1 conns1 info2 conns2 info3 conns3 conn est where steps:
    "decide_reply (Inr 7) 0 demo_syn (srv_connections s0) = (Inr (Some info1), conns1)" "si_payload info1 = None"
    "decide_reply (Inr 7) 0 (demo_fill d) conns1 = (Inr (Some info2), conns2)" "si_payload info2 = None"
    "decide_reply (Inr 7) 0 demo_open conns2 = (Inr (Some info3), conns3)"
    "payload_bytes (si_payload info3) = d @ [0]"
    "conn_get conns2 (seg_key demo_syn) = Some conn" "tcp_state conn = Established est" by blast
  from demo_step [OF s0(1,2) segs(1,4,7) steps(1)] steps(2) obtain s1 where s1:
    "server_run demo_config 0 [demo_tick (demo_packet demo_syn)] = (Inr False, s1)" "shutdown_deadline s1 = None"
    "srv_connections s1 = conns1" by auto
  from demo_step [OF s1(1,2) segs(2,5,8)] steps(3,4) s1(3) obtain s2 where s2:
    "server_run demo_config 0 [demo_tick (demo_packet demo_syn), demo_tick (demo_packet (demo_fill d))] = (Inr False, s2)"
    "shutdown_deadline s2 = None" "srv_connections s2 = conns2" by auto
  moreover have "shutdown_grace_period s2 = 60000000000"
    using server_run_safe(1) [of demo_config 0] s2(1) by (metis demo_config_sel(1) server_ok_def snd_conv)
  ultimately show ?thesis using steps(5-8) by blast
qed

text \<open>
  A UDP packet whose header length field is 0: the datagram is the whole packet, whose bytes 6 and 7
  say that it has no checksum.
\<close>

definition demo_short_ihl :: "bytes \<Rightarrow> bytes" where
  "demo_short_ihl d = [0x40, 0, 0, 0, 0, 0, 0, 0, 64, 17, 0x6B, 0xEB, 10, 0, 0, 2, 10, 0, 0, 1] @ d"

lemma demo_short_ihl_parses:
  "ipv4_parse (demo_short_ihl d) = Inr (\<lparr>total_len = 0, hdr_protocol = Udp,
       hdr_ip_pair = Ipv4AddrPair (Ipv4Addr 10 0 0 2) (Ipv4Addr 10 0 0 1)\<rparr>, demo_short_ihl d)"
  "udp_parse (demo_short_ihl d) ip_pair = Inr \<lparr>udp_ip_pair = ip_pair,
     udp_ports = PortPair 0x4000 0, udp_payload = drop 8 (demo_short_ihl d)\<rparr>"
proof -
  have ck: "calculate [0x40, 0, 0, 0, 0, 0, 0, 0, 64, 17, 0x6B, 0xEB, 10, 0, 0, 2, 10, 0, 0, 1] = 0"
    by code_simp
  show "ipv4_parse (demo_short_ihl d) = Inr (\<lparr>total_len = 0, hdr_protocol = Udp,
       hdr_ip_pair = Ipv4AddrPair (Ipv4Addr 10 0 0 2) (Ipv4Addr 10 0 0 1)\<rparr>, demo_short_ihl d)"
    unfolding ipv4_parse_def inner_parse_Inr_iff
    using ck by (simp add: demo_short_ihl_def from_be_bytes_def)
  show "udp_parse (demo_short_ihl d) ip_pair = Inr \<lparr>udp_ip_pair = ip_pair,
     udp_ports = PortPair 0x4000 0, udp_payload = drop 8 (demo_short_ihl d)\<rparr>"
    by (simp add: udp_parse_def UDP_HDR_LEN_def Let_def demo_short_ihl_def from_be_bytes_def)
qed

lemma demo_short_ihl_incoming:
  "parse_incoming random now (demo_short_ihl d) s =
     (Inr \<lparr>ex_ipv4_hdr = \<lparr>total_len = 0, hdr_protocol = Udp,
        hdr_ip_pair = Ipv4AddrPair (Ipv4Addr 10 0 0 2) (Ipv4Addr 10 0 0 1)\<rparr>,
      ex_incoming_router = RouterUdp \<lparr>udp_ip_pair = Ipv4AddrPair (Ipv4Addr 10 0 0 2) (Ipv4Addr 10 0 0 1),
        udp_ports = PortPair 0x4000 0, udp_payload = drop 8 (demo_short_ihl d)\<rparr>,
      ex_reply_router = Some (RouterUdp (udp_create_reply \<lparr>udp_ip_pair = Ipv4AddrPair (Ipv4Addr 10 0 0 2)
        (Ipv4Addr 10 0 0 1), udp_ports = PortPair 0x4000 0, udp_payload = drop 8 (demo_short_ihl d)\<rparr>))\<rparr>, s)"
  by (simp add: parse_incoming_def demo_short_ihl_parses)

section \<open>Properties\<close>

text \<open>
  C4. Whatever arrives and whatever the system calls return, every packet the server writes to the
  device fits the MTU, parses as an IPv4 packet with a verifying header checksum whose total length
  is exactly the number of bytes written, and its payload's protocol checksum verifies.
\<close>

theorem emitted_packets_well_formed:
  "list_all (\<lambda>pkt. length pkt \<le> ETHERNET_MTU \<and>
     (\<exists>(hdr :: local_ep ipv4_header) payload. inner_parse pkt = Inr (hdr, payload) \<and> unat (total_len hdr) = length pkt \<and>
        (case hdr_protocol hdr of
           Icmp \<Rightarrow> calculate payload = 0
         | protocol \<Rightarrow> pseudo_hdr_cksum payload (hdr_ip_pair hdr) protocol = Inr 0)))
     (dev_out (snd (server_run cfg birth ts)))"
proof -
  have "list_all packet_ok (dev_out (snd (server_run cfg birth ts)))"
    using server_run_safe(1) [of cfg birth ts] by (simp add: server_ok_def)
  then show ?thesis
  proof (rule list.pred_mono_strong)
    fix pkt assume "packet_ok pkt"
    then obtain out where pkt: "pkt = packet_of out" and len: "length pkt \<le> ETHERNET_MTU"
      by (auto simp: packet_ok_def)
    then have "length (router_wire out) \<le> 1480" by (simp add: ETHERNET_MTU_def)
    with pkt len show "length pkt \<le> ETHERNET_MTU \<and>
     (\<exists>(hdr :: local_ep ipv4_header) payload. inner_parse pkt = Inr (hdr, payload) \<and> unat (total_len hdr) = length pkt \<and>
        (case hdr_protocol hdr of
           Icmp \<Rightarrow> calculate payload = 0
         | protocol \<Rightarrow> pseudo_hdr_cksum payload (hdr_ip_pair hdr) protocol = Inr 0))"
      using packet_of_parses [of out] unat_reply_len [of out] router_wire_verifies [of out]
      unfolding checksum_verifies_def by (intro conjI exI [of _ "reply_hdr out"] exI [of _ "router_wire out"]) simp_all
  qed
qed

text \<open>
  C17. A packet that does not parse, or for which no reply can be created, does not stop the server
  and leaves no trace but one line in the log: nothing is sent, no connection changes, and the loop
  goes on (unless a shutdown was already waiting for nothing).
\<close>

theorem bad_packet_skipped:
  assumes "server_run cfg birth ts = (Inr False, s)"
    and "t_poll t (poll_timeout (t_poll_at t) (t_fallback t) s) = Inr True"
    and "t_read t = Inr bs" and "length bs \<le> ETHERNET_MTU"
    and "fst (parse_incoming (io_result (random_u32 (t_urandom t))) (t_conn_now t) bs s) = Inl e"
    and "\<not> shutting_down_and_no_connections_closing s"
  shows "\<exists>s'. loop_body t s = (Inr False, s') \<and> dev_out s' = dev_out s \<and>
    srv_connections s' = srv_connections s \<and> srv_log s' = srv_log s @ [LogPktErr e, LogDivider]"
proof -
  have "server_ok cfg s"
    using server_run_safe(1) [of cfg birth ts] assms(1) by simp
  from bad_packet_step [OF this assms(2-6)] show ?thesis by simp
qed

theorem bad_packet_skipped_witness:
  "\<exists>s s'. server_run demo_config 0 [] = (Inr False, s) \<and> loop_body (demo_tick []) s = (Inr False, s') \<and>
     srv_log s' = srv_log s @ [LogPktErr (SkippingPacket (TooShortForIpv4 0)), LogDivider]"
proof -
  obtain s where s: "server_run demo_config 0 [] = (Inr False, s)" "shutdown_deadline s = None"
    using demo_start by blast
  have "fst (parse_incoming (Inr 7) 0 [] s) = Inl (SkippingPacket (TooShortForIpv4 0))"
    by (simp add: parse_incoming_def ipv4_parse_def inner_parse_def IPV4_HDR_MIN_LEN_def)
  moreover have "\<not> shutting_down_and_no_connections_closing s"
    by (simp add: shutting_down_and_no_connections_closing_def s(2))
  ultimately show ?thesis
    using s bad_packet_skipped [OF s(1), of "demo_tick []" "[]" "SkippingPacket (TooShortForIpv4 0)"] by auto
qed

text \<open>
  C16. When the device and standard output work, an iteration of the loop that reads a packet ends the
  server with an error only if the reply to that packet does not fit the write buffer. Such a reply is
  a TCP segment, or the packet's header length field was below the minimum of 5 words. Iterations that read
  no packet, which retransmit or go on with the shutdown, are not the subject here.
\<close>

theorem only_oversized_replies_stop:
  assumes "server_run cfg birth ts = (Inr False, s)"
    and "t_poll t (poll_timeout (t_poll_at t) (t_fallback t) s) = Inr True"
    and "t_read t = Inr bs" and "length bs \<le> ETHERNET_MTU"
    and "(\<forall>n. t_write t n = Inr ()) \<and> (\<forall>n. t_flush t n = Inr ())"
    and "loop_body t s = (Inl e, s')"
  shows "\<exists>ex s1 reply.
    parse_incoming (io_result (random_u32 (t_urandom t))) (t_conn_now t) bs s = (Inr ex, s1) \<and>
    ex_reply_router ex = Some reply \<and> ETHERNET_MTU < 20 + length (router_wire reply) \<and>
    (router_proto reply = Tcp \<or> unat (bs ! 0 AND 0xF) < 5)"
proof -
  have ok: "server_ok cfg s"
    using server_run_safe(1) [of cfg birth ts] assms(1) by simp
  have io: "io_works t" using assms(5) by (simp add: io_works_def)
  have "\<exists>r s1. handle_packet t bs (fill_read_buf bs s) = (Inl r, s1)"
  proof (cases "handle_packet t bs (fill_read_buf bs s)")
    case (Pair r s1)
    with assms(6) loop_body_packet [OF ok assms(2-4)] after_packet_total [of s1] show ?thesis
      by (cases r) auto
  qed
  with handle_packet_Inl [OF server_ok_fill_read_buf [OF ok] io] obtain ex s1 reply where
    p: "parse_incoming (io_result (random_u32 (t_urandom t))) (t_conn_now t) bs (fill_read_buf bs s) = (Inr ex, s1)"
    and r: "ex_reply_router ex = Some reply" "1480 < length (router_wire reply)" by blast
  then obtain s2 where p: "parse_incoming (io_result (random_u32 (t_urandom t))) (t_conn_now t) bs s = (Inr ex, s2)"
    by (cases "parse_incoming (io_result (random_u32 (t_urandom t))) (t_conn_now t) bs s") (auto simp: parse_incoming_fill)
  from parse_incoming_reply [OF p r(1)] obtain payload conns where
    ip: "ipv4_parse bs = Inr (ex_ipv4_hdr ex, payload)"
    and rp: "router_parse payload (hdr_protocol (ex_ipv4_hdr ex)) (hdr_ip_pair (ex_ipv4_hdr ex)) = Inr (ex_incoming_router ex)"
    and cr: "router_create_reply (io_result (random_u32 (t_urandom t))) (t_conn_now t) (ex_incoming_router ex)
      (srv_connections s) = (Inr (Some reply), conns)" by blast
  have "router_proto reply = Tcp \<or> unat (bs ! 0 AND 0xF) < 5"
  proof (rule disjCI)
    assume "\<not> unat (bs ! 0 AND 0xF) < 5"
    moreover have "payload = drop (unat (bs ! 0 AND 0xF) * 4) bs"
      using ip by (simp add: ipv4_parse_def inner_parse_Inr_iff)
    ultimately have "length payload \<le> 1480" using assms(4) by (simp add: ETHERNET_MTU_def)
    with r(2) router_reply_length [OF rp cr] have "hdr_protocol (ex_ipv4_hdr ex) = Tcp" by force
    with router_parse_Inr(2) [OF rp] router_create_reply_swapped(2) [OF cr] show "router_proto reply = Tcp" by simp
  qed
  with p r show ?thesis by (auto simp: ETHERNET_MTU_def)
qed

theorem only_oversized_replies_stop_witness:
  "\<exists>d s e s' ex s1 reply. length d = 1480 \<and> server_run demo_config 0 [] = (Inr False, s) \<and>
     loop_body (demo_tick (demo_short_ihl d)) s = (Inl e, s') \<and>
     parse_incoming (Inr 7) 0 (demo_short_ihl d) s = (Inr ex, s1) \<and>
     ex_reply_router ex = Some reply \<and> ETHERNET_MTU < 20 + length (router_wire reply)"
proof -
  obtain d :: bytes where d: "length d = 1480" using Ex_list_of_length by blast
  obtain s where s: "server_run demo_config 0 [] = (Inr False, s)" using demo_start by blast
  have ok: "server_ok demo_config s"
    using server_run_safe(1) [of demo_config 0 "[]"] s by simp
  have len: "length (demo_short_ihl d) = 1500" using d by (simp add: demo_short_ihl_def)
  obtain e s' where "loop_body (demo_tick (demo_short_ihl d)) s = (Inl e, s')"
    using loop_body_too_long [OF ok, of "demo_tick (demo_short_ihl d)" "demo_short_ihl d"] len
      demo_short_ihl_incoming [of "Inr 7" 0 d s] by (fastforce simp: ETHERNET_MTU_def)
  with only_oversized_replies_stop [OF s, of "demo_tick (demo_short_ihl d)" "demo_short_ihl d"] len d s
  show ?thesis by (simp add: ETHERNET_MTU_def) blast
qed

text \<open>
  C29. TCP echo has no limit on the size of a segment but the window: when more than 1460 bytes are
  buffered and the window lets them all go, the reply does not fit the write buffer, nothing is sent,
  and the server stops with an error, whatever other connections it has.
\<close>

theorem oversized_echo_stops_server:
  assumes "server_run cfg birth ts = (Inr False, s)"
    and "t_poll t (poll_timeout (t_poll_at t) (t_fallback t) s) = Inr True"
    and "t_read t = Inr bs" and "length bs \<le> ETHERNET_MTU"
    and "ipv4_parse bs = Inr (hdr, payload)" and "hdr_protocol hdr = Tcp"
    and "tcp_parse payload (hdr_ip_pair hdr) = Inr seg"
    and "decide_reply (io_result (random_u32 (t_urandom t))) (t_conn_now t) seg (srv_connections s)
      = (Inr (Some info), conns')"
    and "1460 < length (payload_bytes (si_payload info))"
  shows "\<exists>e s'. loop_body t s = (Inl e, s') \<and> dev_out s' = dev_out s"
proof -
  have ok: "server_ok cfg s"
    using server_run_safe(1) [of cfg birth ts] assms(1) by simp
  from assms(9) show ?thesis
    by (intro loop_body_too_long [OF ok assms(2-4) parse_incoming_tcp [OF assms(5-8)]])
       (auto simp: from_pairs_and_info_def)
qed

theorem oversized_echo_stops_server_witness:
  "\<exists>d s e s'. length d = 1460 \<and>
     server_run demo_config 0 [demo_tick (demo_packet demo_syn), demo_tick (demo_packet (demo_fill d))] = (Inr False, s) \<and>
     loop_body (demo_tick (demo_packet demo_open)) s = (Inl e, s')"
proof -
  obtain d :: bytes where d: "length d = 1460" using Ex_list_of_length by blast
  from demo_fill_run [OF d] obtain s info conns where s:
    "server_run demo_config 0 [demo_tick (demo_packet demo_syn), demo_tick (demo_packet (demo_fill d))] = (Inr False, s)"
    "decide_reply (Inr 7) 0 demo_open (srv_connections s) = (Inr (Some info), conns)"
    "payload_bytes (si_payload info) = d @ [0]" by blast
  note parses = demo_packet_parses [OF demo_fill_segments(3,6,9) [OF d]]
  have "\<exists>e s'. loop_body (demo_tick (demo_packet demo_open)) s = (Inl e, s') \<and> dev_out s' = dev_out s"
    by (rule oversized_echo_stops_server [OF s(1) _ _ parses(3,1)])
       (use parses(2) s(2,3) d in simp)+
  with d s(1) show ?thesis by blast
qed

end
