(* ===== verification/Retries.thy ===== *)
theory Retries
  imports Tcp_Reply
begin

text \<open>
  How often a segment is retransmitted: replying to segments only drops pending segments or adds new
  ones, a round of retransmissions counts, and a connection with a due segment that has reached the
  configured number is given up. So no segment is ever sent more often than that.
\<close>

section \<open>Replies add fresh segments only\<close>

text \<open>
  The segments a reply may leave pending: those that were, and a new one, which then is the reply.
\<close>

abbreviation old_or_fresh :: "conn_state \<Rightarrow> send_info option \<Rightarrow> pending_segment set" where
  "old_or_fresh conn v \<equiv> set (pending conn) \<union> {p. ps_retries p = 0 \<and> v = Some (ps_send_info p)}"

definition answer :: "send_info option result \<Rightarrow> send_info option" where
  "answer r = (case r of Inl e \<Rightarrow> None | Inr v \<Rightarrow> v)"

lemma answer_simps [simp]: "answer (Inl e) = None" "answer (Inr v) = v"
  by (simp_all add: answer_def)

lemma pending_incoming_ack:
  "set (pending (snd (incoming_ack_update s conn seg))) \<subseteq> set (pending conn)"
  by (auto simp: incoming_ack_update_def Let_def)

lemma pending_drain [simp]: "pending (snd (drain_transmittable s conn)) = pending conn"
  by (simp add: drain_transmittable_def Let_def split: option.split sum.split)

lemma pending_accept [simp]: "pending (accept_payload p conn) = pending conn"
  by (simp add: accept_payload_def)

lemma pending_data [simp]:
  "pending (snd (data_payload now conn p)) = pending conn @ [pending_new (fst (data_payload now conn p)) now]"
  by (simp add: data_payload_def Let_def)

lemma fresh_drain_or_ack:
  "set (pending (snd (drain_or_ack now s conn)))
     \<subseteq> old_or_fresh conn (answer (result_map Some (fst (drain_or_ack now s conn))))"
proof -
  obtain r c where d: "drain_transmittable s conn = (r, c)" by fastforce
  have c: "pending c = pending conn" using pending_drain [of s conn] d by simp
  show ?thesis
    using pending_data [of now c] c
    by (auto simp: drain_or_ack_def d split_beta split: sum.split option.split)
qed

lemma fresh_passive_close:
  "set (pending (snd (begin_passive_close_without_close_wait now seg v s conn)))
     \<subseteq> old_or_fresh conn
         (answer (result_map Some (fst (begin_passive_close_without_close_wait now seg v s conn))))"
proof -
  let ?conn = "(case v of None \<Rightarrow> conn | Some payload \<Rightarrow> accept_payload payload conn)
    \<lparr>rcv_nxt := seq_add (rcv_nxt (case v of None \<Rightarrow> conn | Some payload \<Rightarrow> accept_payload payload conn)) REMOTE_FIN_BYTE\<rparr>"
  have p: "pending ?conn = pending conn" by (simp split: option.split)
  obtain s1 c1 where a: "incoming_ack_update s ?conn seg = (s1, c1)" by fastforce
  obtain r c2 where d: "drain_transmittable s1 c1 = (r, c2)" by fastforce
  have "set (pending c1) \<subseteq> set (pending conn)" using pending_incoming_ack [of s ?conn seg] a p by simp
  moreover have "pending c2 = pending c1" using pending_drain [of s1 c1] d by simp
  ultimately show ?thesis
    by (auto simp: begin_passive_close_without_close_wait_def Let_def a d split: sum.split)
qed

lemma fresh_act_return:
  "act_bind m (\<lambda>info. act_return (f info)) conn = (result_map f (fst (m conn)), snd (m conn))"
  by (simp add: act_bind_def result_map_def split: prod.split sum.split)

lemmas fresh_dests = fresh_drain_or_ack [THEN subsetD] fresh_passive_close [THEN subsetD]
  pending_incoming_ack [THEN subsetD]

lemma fresh_handle_syn_rcv:
  "set (pending (snd (handle_syn_rcv now seg m conn)))
     \<subseteq> old_or_fresh conn (answer (fst (handle_syn_rcv now seg m conn)))"
  by (auto simp: handle_syn_rcv_def Let_def fresh_act_return complete_handshake_def
      split: option.splits if_splits dest!: fresh_dests)

lemma fresh_handle_established:
  "set (pending (snd (handle_established now seg s conn)))
     \<subseteq> old_or_fresh conn (answer (fst (handle_established now seg s conn)))"
proof -
  obtain s1 c1 where a: "incoming_ack_update s conn seg = (s1, c1)" by fastforce
  have c1: "set (pending c1) \<subseteq> set (pending conn)" using pending_incoming_ack [of s conn seg] a by simp
  obtain r c2 where d: "drain_transmittable s1 (c1\<lparr>tcp_state := Established s1\<rparr>) = (r, c2)" by fastforce
  have c2: "pending c2 = pending c1" using pending_drain [of s1 "c1\<lparr>tcp_state := Established s1\<rparr>"] d by simp
  show ?thesis
    using c1 c2
    by (auto simp: handle_established_def Let_def a d fresh_act_return split_beta
        split: option.splits sum.splits if_splits dest!: fresh_dests)
qed

lemma pending_closing_states:
  "set (pending (snd (handle_fin_wait_1 seg s1 conn))) \<subseteq> set (pending conn)"
  "set (pending (snd (handle_fin_wait_2 seg s2 conn))) \<subseteq> set (pending conn)"
  "set (pending (snd (handle_last_ack seg s3 conn))) \<subseteq> set (pending conn)"
  by (auto simp: handle_fin_wait_1_def handle_fin_wait_2_def handle_last_ack_def Let_def split_beta
      split: if_splits dest!: fresh_dests)

lemma pending_after_reply:
  assumes "conns_wf conns" and "conn_get conns (seg_key seg) = Some conn"
    and "decide_reply random now seg conns = (r, conns')" and "conn_get conns' (seg_key seg) = Some conn'"
  shows "set (pending conn') \<subseteq> old_or_fresh conn (answer r)"
  using assms fresh_handle_syn_rcv [of now seg _ conn] fresh_handle_established [of now seg _ conn]
    pending_closing_states [of seg _ conn]
  by (fastforce simp: decide_reply_def Let_def handle_known_conn_def conn_get_remove split_beta
      split: if_splits tcp_state.splits)

section \<open>The bound\<close>

definition retries_ok :: "tcp_connections \<Rightarrow> bool" where
  "retries_ok conns \<longleftrightarrow> (\<forall>k conn. conn_get conns k = Some conn \<longrightarrow>
     (\<forall>p \<in> set (pending conn). ps_retries p \<le> conn_max_retries conns))"

lemma retries_ok_set:
  assumes "retries_ok conns" and "conn_get conns key = Some conn" and "set (pending conn') \<subseteq> old_or_fresh conn v"
  shows "retries_ok (conn_set key conn' conns)"
  using assms by (fastforce simp: retries_ok_def)

lemma retries_ok_remove: "retries_ok conns \<Longrightarrow> retries_ok (conn_remove key conns)"
  by (auto simp: retries_ok_def conn_get_def conn_remove_def delete_conv' split: if_splits)

lemma retries_ok_known:
  assumes "retries_ok conns" and "conn_get conns key = Some conn"
  shows "retries_ok (snd (handle_known_conn now seg key conn conns))"
  using assms
  by (simp add: handle_known_conn_def Let_def split_beta retries_ok_remove
      retries_ok_set [OF assms fresh_handle_syn_rcv] retries_ok_set [OF assms fresh_handle_established]
      retries_ok_set [OF assms pending_closing_states(1) [THEN subset_trans, OF Un_upper1]]
      retries_ok_set [OF assms pending_closing_states(2) [THEN subset_trans, OF Un_upper1]]
      retries_ok_set [OF assms pending_closing_states(3) [THEN subset_trans, OF Un_upper1]]
      split: tcp_state.split)

lemma retries_ok_decide:
  assumes "retries_ok conns"
  shows "retries_ok (snd (decide_reply random now seg conns))"
proof (cases "conn_get conns (seg_key seg)")
  case None
  have "retries_ok (conn_set k c conns)" if "\<forall>p \<in> set (pending c). ps_retries p = 0" for k c
    using assms that by (fastforce simp: retries_ok_def)
  with assms None show ?thesis
    by (auto simp: decide_reply_def Let_def handle_unknown_conn_def act_bind_def from_syn_ack_def
        insert_syn_rcv_eq split: tcp_flags.split sum.split)
next
  case (Some conn)
  with assms retries_ok_known [OF assms Some, of now seg] show ?thesis
    by (auto simp: decide_reply_def Let_def intro: retries_ok_remove)
qed

lemma retries_ok_retransmit:
  assumes "conns_wf conns" and "retries_ok conns" and "make_retransmissions now fallback conns = (segs, conns')"
  shows "retries_ok conns'"
proof -
  note get = make_retransmissions_get [OF assms(1,3)]
  have step: "u8_saturating_add (ps_retries p) 1 \<le> n" if "\<not> exhausted_retries p n" for p n
    using that by (simp add: exhausted_retries_def word_le_nat_alt unat_u8_saturating_add)
  show ?thesis
    unfolding retries_ok_def get(3)
  proof (intro allI impI ballI)
    fix k conn' p assume c: "conn_get conns' k = Some conn'" "p \<in> set (pending conn')"
    then obtain conn where "conn_get conns k = Some conn"
      "retransmitted_conn (conn_rto_config conns) (conn_max_retries conns) now fallback conn = Some conn'"
      by (auto simp: get(4) bind_eq_Some_conv)
    with c(2) assms(2) step show "ps_retries p \<le> conn_max_retries conns"
      by (auto simp: retransmitted_conn_def retries_ok_def list_ex_iff retransmit_info_def split: if_splits)
  qed
qed

lemma retries_ok_close: "retries_ok conns \<Longrightarrow> retries_ok (snd (close_established now conns))"
proof -
  assume ok: "retries_ok conns"
  have "set (pending (snd (close_conn now k conn))) \<subseteq> set (pending conn) \<union> {p. ps_retries p = 0}" for k conn
    by (auto simp: close_conn_def Let_def split: tcp_state.splits)
  moreover have "conn_max_retries (snd (close_established now conns)) = conn_max_retries conns"
    by (simp add: close_established_def)
  ultimately show ?thesis using ok by (fastforce simp: retries_ok_def close_established_get)
qed

lemma max_retries_decide: "frames conn_max_retries (decide_reply random now seg)"
  by (auto simp: frames_def decide_reply_def Let_def handle_unknown_conn_def handle_known_conn_def
      insert_syn_rcv_def act_bind_def split: option.split tcp_flags.split tcp_state.split prod.split sum.split)

lemma tcp_reach_retries:
  assumes "tcp_reach (\<lambda>_ _. True) rc n conns"
  shows "retries_ok conns \<and> conn_max_retries conns = n"
  using assms
proof (induction rule: tcp_reach.induct)
  case reach_new
  show ?case by (simp add: retries_ok_def) (simp add: connections_new_def)
next
  case (reach_segment conns seg random now r conns')
  then show ?case
    using retries_ok_decide [of conns random now seg] framesD [OF max_retries_decide] by fastforce
next
  case (reach_retransmit conns now fallback segs conns')
  then have "conns_wf conns" using tcp_reach_any by (auto simp: conns_ok_def)
  with reach_retransmit retries_ok_retransmit make_retransmissions_get(3) show ?case by metis
next
  case (reach_close conns now segs conns')
  then show ?case using retries_ok_close [of conns now] by (auto simp: close_established_def)
qed

end
