(* ===== verification/Shutdown.thy ===== *)
theory Shutdown
  imports Server_Inv Retries
begin

text \<open>
  How the server waits and how it ends: the poll timeout, the shutdown signal, the grace period, and
  the retransmission times of a running server; the echo of a datagram through the whole loop; and what
  the types of the state guarantee.
\<close>

section \<open>What leaves the shutdown deadline alone\<close>

lemma frames_deadline [frames_intros]:
  "frames shutdown_deadline (log_to call)"
  "frames shutdown_deadline (log_pkt_io t call)"
  "frames shutdown_deadline (write_behind_header w)"
  "frames shutdown_deadline (\<lambda>s. (r, s\<lparr>write_buf := b s\<rparr>))"
  "frames shutdown_deadline (device_write_all t pkt)"
  by (simp_all add: frames_def log_to_def log_pkt_io_def write_behind_header_def device_write_all_def
      split: prod.split sum.split)

lemma frames_send_pkt [frames_intros]: "frames shutdown_deadline (send_pkt t out)"
  unfolding send_pkt_def by (intro frames_intros)

lemma frames_send_retransmissions: "frames shutdown_deadline (send_retransmissions t segs)"
  by (induction segs) (auto simp only: send_retransmissions.simps intro!: frames_intros)

lemma frames_handle_packet: "frames shutdown_deadline (handle_packet t data)"
  unfolding frames_def
proof
  fix s
  obtain r s' where p: "parse_incoming (io_result (random_u32 (t_urandom t))) (t_conn_now t) data s = (r, s')"
    by fastforce
  from parse_incoming_frame [OF p] have d: "shutdown_deadline s' = shutdown_deadline s" by auto
  show "shutdown_deadline (snd (handle_packet t data s)) = shutdown_deadline s"
  proof (cases r)
    case (Inl e)
    with p d show ?thesis by (simp add: handle_packet_def log_to_def)
  next
    case (Inr ex)
    have "frames shutdown_deadline (act_bind (log_to (LogPktExtra '' ==== Packet received ===='')) (\<lambda>_.
          act_bind (log_pkt_io t (LogPktReceived (ex_ipv4_hdr ex) (ex_incoming_router ex))) (\<lambda>_.
          case ex_reply_router ex of
            None \<Rightarrow> log_to (LogPktExtra (newline @ ''<no reply>''))
          | Some reply \<Rightarrow>
              act_bind (log_to (LogPktExtra (newline @ '' ==== Packet sent ===='')))
                (\<lambda>_. send_pkt t reply))))"
      by (intro frames_intros) (auto intro!: frames_intros split: option.split)
    then have "shutdown_deadline (snd (handle_packet t data s)) = shutdown_deadline s'"
      using p Inr by (simp add: handle_packet_def frames_def)
    with d show ?thesis by simp
  qed
qed

text \<open>Without a shutdown in progress, \<open>m\<close> neither begins one nor ends the loop.\<close>

definition keeps_running :: "(server, bool) action \<Rightarrow> bool" where
  "keeps_running m \<longleftrightarrow>
     (\<forall>s. shutdown_deadline s = None \<longrightarrow> fst (m s) \<noteq> Inr True \<and> shutdown_deadline (snd (m s)) = None)"

lemma keeps_running_bind:
  assumes "frames shutdown_deadline m" and "\<And>x. keeps_running (k x)"
  shows "keeps_running (act_bind m k)"
  unfolding keeps_running_def
proof (intro allI impI)
  fix s :: server assume s: "shutdown_deadline s = None"
  obtain r s' where r: "m s = (r, s')" by fastforce
  have "shutdown_deadline s' = None" using framesD [OF assms(1) r] s by simp
  with r assms(2) show "fst (act_bind m k s) \<noteq> Inr True \<and> shutdown_deadline (snd (act_bind m k s)) = None"
    by (cases r) (auto simp: keeps_running_def)
qed

lemma keeps_running_return: "keeps_running (act_return False)"
  by (simp add: keeps_running_def)

lemma keeps_running_after_packet: "keeps_running after_packet"
  unfolding after_packet_def
  by (intro keeps_running_bind frames_intros)
     (simp add: keeps_running_def shutting_down_and_no_connections_closing_def)

text \<open>The shutdown flag is looked at only when a system call was interrupted.\<close>

definition notices_signal :: "tick \<Rightarrow> bool" where
  "notices_signal t \<longleftrightarrow>
     t_shutdown t \<and> ((\<exists>d. t_poll t d = Inl Interrupted) \<or> t_read t = Inl Interrupted)"

lemma loop_body_unsignalled:
  assumes "\<not> notices_signal t"
  shows "keeps_running (loop_body t)"
  unfolding keeps_running_def
proof (intro allI impI)
  fix s :: server assume s: "shutdown_deadline s = None"
  obtain segs conns where m: "make_retransmissions (t_conn_now t) (t_fallback t) (srv_connections s) = (segs, conns)"
    by fastforce
  have resend: "keeps_running (act_bind (send_retransmissions t segs) (\<lambda>_. act_return False))"
    by (intro keeps_running_bind frames_send_retransmissions keeps_running_return)
  have packet: "keeps_running (act_bind (act_read (\<lambda>s. try_get_range (read_buf s) 0 len))
      (\<lambda>data. act_bind (handle_packet t data) (\<lambda>_. after_packet)))" for len
    by (intro keeps_running_bind frames_handle_packet keeps_running_after_packet frames_pure)
  show "fst (loop_body t s) \<noteq> Inr True \<and> shutdown_deadline (snd (loop_body t s)) = None"
    using assms s resend packet
    unfolding loop_body_def after_packet_def [symmetric] keeps_running_def notices_signal_def
    by (auto simp: interrupted_def grace_period_elapsed_def m
        split: sum.splits io_error_kind.splits bool.splits)
qed

lemma run_loop_unsignalled: "\<not> list_ex notices_signal ts \<Longrightarrow> keeps_running (run_loop ts)"
proof (induction ts)
  case (Cons t ts)
  then have "keeps_running (loop_body t)" "keeps_running (run_loop ts)" by (simp_all add: loop_body_unsignalled)
  then show ?case
    by (auto simp: keeps_running_def act_bind_def split: prod.split sum.split) (metis fst_conv snd_conv)+
qed (simp add: keeps_running_def)

section \<open>Sending the FINs\<close>

lemma send_fins_eq:
  assumes "io_works t" and "length (write_buf s) = ETHERNET_MTU"
    and "list_all (\<lambda>seg. seg_payload seg = None) segs"
  shows "\<exists>s'. send_fins t segs s = (Inr (), s') \<and>
    dev_out s' = dev_out s @ map (\<lambda>seg. packet_of (RouterTcp seg)) segs \<and>
    srv_connections s' = srv_connections s \<and> shutdown_deadline s' = shutdown_deadline s"
  using assms(2,3)
proof (induction segs arbitrary: s)
  case (Cons seg segs)
  let ?s = "s\<lparr>srv_log := srv_log s @ [LogPktExtra '' ==== Packet sent ====''  ]\<rparr>"
  have "router_ok (RouterTcp seg)" "length (write_buf ?s) = ETHERNET_MTU"
      "length (router_wire (RouterTcp seg)) \<le> 1480"
    using Cons.prems by (simp_all add: segment_ok_def)
  from send_pkt_fits [OF this, of t] assms(1) obtain buf where
    send: "send_pkt t (RouterTcp seg) ?s = (Inr (), ?s\<lparr>write_buf := buf,
      dev_out := dev_out s @ [packet_of (RouterTcp seg)],
      srv_log := srv_log ?s @ [LogPktSent (reply_hdr (RouterTcp seg)) (RouterTcp seg)]\<rparr>)"
    and buf: "length buf = ETHERNET_MTU"
    by (auto simp: io_works_def)
  from Cons.IH [of "?s\<lparr>write_buf := buf, dev_out := dev_out s @ [packet_of (RouterTcp seg)],
      srv_log := srv_log ?s @ [LogPktSent (reply_hdr (RouterTcp seg)) (RouterTcp seg)]\<rparr>"] Cons.prems buf send
  show ?case by (auto simp: act_bind_def log_to_def)
qed simp

lemma close_established_no_payload:
  "list_all (\<lambda>seg. seg_payload seg = None) (fst (close_established now conns))"
  by (auto simp: list_all_iff close_established_def List.map_filter_def close_conn_def from_pairs_and_info_def
      Let_def split: tcp_state.splits)

section \<open>Waiting\<close>

lemma poll_timeout_cases:
  "poll_timeout now fallback s =
     (case (shutdown_deadline s, next_retransmit_deadline fallback (srv_connections s)) of
        (None, None) \<Rightarrow> None
      | (Some d, None) \<Rightarrow> Some (d - now)
      | (None, Some r) \<Rightarrow> Some (r - now)
      | (Some d, Some r) \<Rightarrow> Some (min d r - now))"
  by (cases "shutdown_deadline s"; cases "next_retransmit_deadline fallback (srv_connections s)")
     (simp_all add: poll_timeout_def Let_def List.map_filter_def saturating_duration_since_def)

lemma tcp_reach_config: "tcp_reach good rc n conns \<Longrightarrow> conn_rto_config conns = rc"
proof (induction rule: tcp_reach.induct)
  case reach_new
  show ?case by (simp add: connections_new_def)
next
  case (reach_segment conns seg random now r conns')
  have "frames conn_rto_config (decide_reply random now seg)"
    by (auto simp: frames_def decide_reply_def Let_def handle_unknown_conn_def handle_known_conn_def
        insert_syn_rcv_def act_bind_def split: option.split tcp_flags.split tcp_state.split prod.split sum.split)
  from framesD [OF this reach_segment.hyps(3)] reach_segment.IH show ?case by simp
next
  case (reach_retransmit conns now fallback segs conns')
  have "conn_rto_config (snd (retransmit_keys now fallback keys c)) = conn_rto_config c" for keys c
    by (induction keys arbitrary: c) (auto simp: retransmit_key_def Let_def split_beta split: option.split)
  with reach_retransmit show ?case by (metis make_retransmissions_def snd_conv)
next
  case (reach_close conns now segs conns')
  then show ?case by (auto simp: close_established_def)
qed

section \<open>The content of a reply to a datagram\<close>

lemma reply_content:
  assumes "router_parse payload protocol ip_pair = Inr router"
    and "router_create_reply random now router conns = (Inr (Some reply), conns')" and "protocol \<noteq> Tcp"
  shows "drop 8 (router_wire reply) = drop 8 payload \<and>
    (case protocol of
       Icmp \<Rightarrow> router_wire reply ! 0 = 0 \<and> drop 4 (router_wire reply) = drop 4 payload
     | _ \<Rightarrow> take 4 (router_wire reply) = drop 2 (take 4 payload) @ take 2 payload)"
proof (cases protocol)
  case Icmp
  with assms(1) obtain m where m: "router = RouterIcmp m" "icmp_parse payload ip_pair = Inr m"
    by (auto simp: result_map_eq_Inr)
  let ?r = "icmp_create_reply m"
  have "icmp_tail m = drop 4 payload" using icmp_parse_Inr [OF m(2)] by simp
  then have tail: "icmp_tail ?r = drop 4 payload" by (simp add: icmp_tail_def icmp_create_reply_def)
  have "drop 4 (icmp_wire ?r) = drop 4 payload" by (simp add: icmp_wire_def tail)
  moreover from arg_cong [OF this, of "drop 4"] have "drop 8 (icmp_wire ?r) = drop 8 payload" by simp
  moreover have "icmp_wire ?r ! 0 = 0"
    by (simp add: icmp_wire_def icmp_create_reply_def ICMP_TYPE_ECHO_REPLY_def)
  ultimately show ?thesis using Icmp m(1) assms(2) by auto
next
  case Udp
  with assms(1) obtain d where d: "router = RouterUdp d" "udp_parse payload ip_pair = Inr d"
    by (auto simp: result_map_eq_Inr)
  then have "8 \<le> length payload"
    by (auto simp: udp_parse_def UDP_HDR_LEN_def split: if_splits)
  then obtain b0 b1 b2 b3 b4 b5 b6 b7 rest
    where p: "payload = b0 # b1 # b2 # b3 # b4 # b5 # b6 # b7 # rest" by (rule length_ge_8E)
  have "udp_payload d = rest" "udp_ports d = PortPair (from_be_bytes [b0, b1]) (from_be_bytes [b2, b3])"
    using d(2) by (auto simp: p udp_parse_def UDP_HDR_LEN_def Let_def result_bind_eq_Inr split: if_splits)
  with d(1) assms(2) Udp show ?thesis
    by (auto simp: p udp_wire_def udp_fields_def ports_swapped_def)
qed (use assms(3) in simp)

lemma stops_only_on_signal:
  assumes "fst (server_run cfg birth ts) = Inr True"
  shows "list_ex notices_signal ts"
proof (rule ccontr)
  assume "\<not> list_ex notices_signal ts"
  then have "keeps_running (run_loop ts)" by (rule run_loop_unsignalled)
  with assms show False
    by (simp add: server_run_def act_bind_def log_to_def keeps_running_def server_new_def)
qed

text \<open>An iteration whose poll is interrupted by the shutdown signal.\<close>

definition signal_tick :: tick where
  "signal_tick = (demo_tick [])\<lparr>t_poll := \<lambda>_. Inl Interrupted, t_shutdown := True\<rparr>"

lemma signal_tick_sel [simp]:
  "t_poll signal_tick d = Inl Interrupted" "t_shutdown signal_tick" "io_works signal_tick"
  "t_now signal_tick = 0" "t_conn_now signal_tick = 0"
  "t_write signal_tick n = Inr ()" "t_flush signal_tick n = Inr ()"
  by (simp_all add: signal_tick_def demo_tick_def io_works_def)

lemma signal_stops_idle_server:
  assumes "\<And>d. t_poll t d = Inl Interrupted" and "t_shutdown t"
  shows "fst (server_run cfg birth [t]) = Inr True"
  using assms
  by (simp add: server_run_def act_bind_def log_to_def loop_body_def interrupted_def
      handle_shutdown_interrupt_def decide_shutdown_def server_new_def connections_new_def
      close_established_def closing_in_progress_def List.map_filter_def)

section \<open>Beginning to drain\<close>

lemma signal_begins_draining:
  assumes "server_ok cfg s" and "shutdown_deadline s = None"
    and "t_poll t (poll_timeout (t_poll_at t) (t_fallback t) s) = Inl Interrupted" and "t_shutdown t"
    and "close_established (t_conn_now t) (srv_connections s) = (fins, conns)"
    and "closing_in_progress conns" and "io_works t" and "t_now t + shutdown_grace_period s \<le> INSTANT_MAX"
  shows "\<exists>s'. loop_body t s = (Inr False, s') \<and> srv_connections s' = conns \<and>
     dev_out s' = dev_out s @ map (\<lambda>seg. packet_of (RouterTcp seg)) fins \<and>
     shutdown_deadline s' = Some (t_now t + shutdown_grace_period s)"
proof -
  have buf: "length (write_buf s) = ETHERNET_MTU" using assms(1) by (simp add: server_ok_def)
  let ?s = "s\<lparr>srv_connections := conns, srv_log := srv_log s @ [LogServerNewline, LogServerInfo
      ''Shutdown signal received, closing established connections...'', LogDivider]\<rparr>"
  have "list_all (\<lambda>seg. seg_payload seg = None) fins"
    using close_established_no_payload [of "t_conn_now t" "srv_connections s"] assms(5) by simp
  then obtain s1 where s1: "send_fins t fins ?s = (Inr (), s1)"
      "dev_out s1 = dev_out s @ map (\<lambda>seg. packet_of (RouterTcp seg)) fins" "srv_connections s1 = conns"
    using send_fins_eq [of t ?s fins] assms(7) buf by auto
  have "loop_body t s = (Inr False, s1\<lparr>srv_log := srv_log s1 @ [LogDivider],
      shutdown_deadline := Some (t_now t + shutdown_grace_period s)\<rparr>)"
    using assms(2-6,8) s1(1)
    by (simp add: loop_body_def interrupted_def handle_shutdown_interrupt_def decide_shutdown_def
        act_bind_def log_to_def try_add_instant_def instant_checked_add_def)
  with s1 show ?thesis by simp
qed

text \<open>The server with one established connection gets the signal.\<close>

lemma demo_signal_state:
  "\<exists>d s fins conns. length d = 1460 \<and>
     server_run demo_config 0 [demo_tick (demo_packet demo_syn), demo_tick (demo_packet (demo_fill d))] = (Inr False, s) \<and>
     shutdown_deadline s = None \<and> close_established 0 (srv_connections s) = (fins, conns) \<and>
     closing_in_progress conns \<and> shutdown_grace_period s = 60000000000 \<and>
     t_now signal_tick + shutdown_grace_period s \<le> INSTANT_MAX"
proof -
  obtain d :: bytes where d: "length d = 1460" using Ex_list_of_length by blast
  from demo_fill_run [OF d] obtain s conn est where s:
    "server_run demo_config 0 [demo_tick (demo_packet demo_syn), demo_tick (demo_packet (demo_fill d))] = (Inr False, s)"
    "shutdown_deadline s = None" "conn_get (srv_connections s) (seg_key demo_syn) = Some conn"
    "tcp_state conn = Established est" "shutdown_grace_period s = 60000000000" by blast
  obtain fins conns where c: "close_established 0 (srv_connections s) = (fins, conns)" by fastforce
  have "conns_ok (in_flight_ok 2147483648) (in_flight_ok 2147483649) (srv_connections s)"
    using server_run_safe(1) [of demo_config 0] s(1) by (metis server_ok_conns snd_conv)
  then have "conns_wf (srv_connections s)" by (simp add: conns_ok_def)
  moreover have "is_closing (snd (close_conn 0 (seg_key demo_syn) conn))"
    using s(4) by (simp add: close_conn_def is_closing_def Let_def)
  ultimately have "closing_in_progress conns"
    using closing_in_progress_iff [of conns] close_established_get [of 0 "srv_connections s" "seg_key demo_syn"]
      close_established_wf [of 0 "srv_connections s"] c s(3) by auto
  moreover have "t_now signal_tick + shutdown_grace_period s \<le> INSTANT_MAX"
    by (simp add: s(5) INSTANT_MAX_def NANOS_PER_SEC_def)
  ultimately show ?thesis using s(1,2,5) c d by blast
qed

section \<open>Traffic that starves the deadlines\<close>

text \<open>An iteration in which a packet is ready that does not parse, whatever the time.\<close>

definition unusable :: "tick \<Rightarrow> bool" where
  "unusable t \<longleftrightarrow> (\<forall>d. t_poll t d = Inr True) \<and>
     (\<exists>bs e. t_read t = Inr bs \<and> length bs \<le> ETHERNET_MTU \<and> ipv4_parse bs = Inl e)"

lemma unusable_step:
  assumes "server_ok cfg s" and "unusable t" and "closing_in_progress (srv_connections s)"
  shows "\<exists>s'. loop_body t s = (Inr False, s') \<and> server_ok cfg s' \<and> dev_out s' = dev_out s \<and>
    srv_connections s' = srv_connections s \<and> shutdown_deadline s' = shutdown_deadline s"
proof -
  obtain bs e where bs: "t_read t = Inr bs" "length bs \<le> ETHERNET_MTU" "ipv4_parse bs = Inl e"
    using assms(2) by (auto simp: unusable_def)
  have "fst (parse_incoming (io_result (random_u32 (t_urandom t))) (t_conn_now t) bs s) = Inl (SkippingPacket e)"
    by (simp add: parse_incoming_def bs(3))
  from bad_packet_step [OF assms(1) _ bs(1,2) this] assms(2,3)
    safelyD(1) [OF safely_loop_body assms(1), of t] show ?thesis
    by (auto simp: unusable_def shutting_down_and_no_connections_closing_def)
qed

lemma unusable_run:
  assumes "server_run cfg birth ts = (Inr False, s)" and "closing_in_progress (srv_connections s)"
    and "list_all unusable us"
  shows "\<exists>s'. server_run cfg birth (ts @ us) = (Inr False, s') \<and> dev_out s' = dev_out s \<and>
    srv_connections s' = srv_connections s \<and> shutdown_deadline s' = shutdown_deadline s"
  using assms
proof (induction us arbitrary: ts s)
  case (Cons u us)
  have "server_ok cfg s" using server_run_safe(1) [of cfg birth ts] Cons.prems(1) by simp
  with unusable_step [of cfg s u] Cons.prems(2,3) obtain s1 where s1: "loop_body u s = (Inr False, s1)"
    "dev_out s1 = dev_out s" "srv_connections s1 = srv_connections s" "shutdown_deadline s1 = shutdown_deadline s"
    by auto
  from Cons.IH [OF server_run_snoc [OF Cons.prems(1) s1(1)]] Cons.prems(2,3) s1(2-4) show ?case by simp
qed simp

section \<open>What the server prints\<close>

text \<open>At level \<open>Silent\<close> no call of the whole run prints anything.\<close>

lemma silent_run_prints_nothing:
  assumes "log_level cfg = Silent" and "call \<in> set (srv_log (snd (server_run cfg birth ts)))"
  shows "render escape_debug msg now (srv_logger (snd (server_run cfg birth ts))) call = []"
proof -
  have "log_lvl (srv_logger (snd (server_run cfg birth ts))) = Silent"
    using server_run_safe(1) [of cfg birth ts] assms(1) by (simp add: server_ok_def)
  with log_levels_documented [of "srv_logger (snd (server_run cfg birth ts))"] show ?thesis
    by (cases call) (simp_all add: render_pkt_io_def)
qed

section \<open>Properties\<close>

text \<open>
  C13. The first shutdown signal closes every established connection. If then no connection is
  closing, the server ends at once and sends nothing. Otherwise it sends the FIN of every connection
  it closed, each as a packet of its own, and goes on with the deadline set one grace period after
  the signal.
\<close>

theorem first_shutdown_signal:
  assumes "server_run cfg birth ts = (Inr False, s)" and "shutdown_deadline s = None"
    and "t_poll t (poll_timeout (t_poll_at t) (t_fallback t) s) = Inl Interrupted" and "t_shutdown t"
    and "close_established (t_conn_now t) (srv_connections s) = (fins, conns)"
  shows "(\<not> closing_in_progress conns \<longrightarrow>
      (\<exists>s'. loop_body t s = (Inr True, s') \<and> dev_out s' = dev_out s)) \<and>
    (closing_in_progress conns \<and> (\<forall>n. t_write t n = Inr ()) \<and> (\<forall>n. t_flush t n = Inr ()) \<and>
     t_now t + shutdown_grace_period s \<le> INSTANT_MAX \<longrightarrow>
      (\<exists>s'. loop_body t s = (Inr False, s') \<and> srv_connections s' = conns \<and>
         dev_out s' = dev_out s @ map (\<lambda>seg. packet_of (RouterTcp seg)) fins \<and>
         shutdown_deadline s' = Some (t_now t + shutdown_grace_period s)))"
proof (intro conjI impI; (elim conjE)?)
  assume "\<not> closing_in_progress conns"
  with assms(2-5) show "\<exists>s'. loop_body t s = (Inr True, s') \<and> dev_out s' = dev_out s"
    by (simp add: loop_body_def interrupted_def handle_shutdown_interrupt_def decide_shutdown_def
        act_bind_def log_to_def)
next
  assume "closing_in_progress conns" "\<forall>n. t_write t n = Inr ()" "\<forall>n. t_flush t n = Inr ()"
    "t_now t + shutdown_grace_period s \<le> INSTANT_MAX"
  moreover have "server_ok cfg s"
    using server_run_safe(1) [of cfg birth ts] assms(1) by simp
  ultimately show "\<exists>s'. loop_body t s = (Inr False, s') \<and> srv_connections s' = conns \<and>
         dev_out s' = dev_out s @ map (\<lambda>seg. packet_of (RouterTcp seg)) fins \<and>
         shutdown_deadline s' = Some (t_now t + shutdown_grace_period s)"
    using signal_begins_draining [OF _ assms(2-5)] by (simp add: io_works_def)
qed

theorem first_shutdown_signal_witness:
  "\<exists>d s s' fins conns. length d = 1460 \<and>
     server_run demo_config 0 [demo_tick (demo_packet demo_syn), demo_tick (demo_packet (demo_fill d))] = (Inr False, s) \<and>
     close_established 0 (srv_connections s) = (fins, conns) \<and> closing_in_progress conns \<and>
     loop_body signal_tick s = (Inr False, s') \<and> shutdown_deadline s' = Some 60000000000"
proof -
  obtain d s fins conns where s: "length d = 1460"
    "server_run demo_config 0 [demo_tick (demo_packet demo_syn), demo_tick (demo_packet (demo_fill d))] = (Inr False, s)"
    "shutdown_deadline s = None" "close_established 0 (srv_connections s) = (fins, conns)"
    "closing_in_progress conns" "shutdown_grace_period s = 60000000000"
    "t_now signal_tick + shutdown_grace_period s \<le> INSTANT_MAX" using demo_signal_state by blast
  with first_shutdown_signal [OF s(2,3), of signal_tick fins conns] show ?thesis by auto
qed

text \<open>
  C23. How long the server waits: indefinitely exactly when no shutdown is in progress and nothing is
  waiting for an acknowledgment; never past the shutdown deadline; and a wait that runs its full
  length ends with something to do, the end of the grace period or a segment to retransmit. Once the
  grace period is over, the next poll that times out ends the server and sends nothing.
\<close>

theorem wait_is_productive:
  assumes "server_run cfg birth ts = (Inr False, s)"
  shows "(poll_timeout now fallback s = None \<longleftrightarrow> shutdown_deadline s = None \<and>
      (\<forall>k conn. conn_get (srv_connections s) k = Some conn \<longrightarrow> pending conn = [])) \<and>
    (\<forall>deadline. shutdown_deadline s = Some deadline \<longrightarrow>
      (\<exists>d. poll_timeout now fallback s = Some d \<and> now + d \<le> max now deadline)) \<and>
    (\<forall>d later. poll_timeout now fallback s = Some d \<and> now + d \<le> later \<longrightarrow>
      grace_period_elapsed later s \<or>
      (\<exists>k conn p. conn_get (srv_connections s) k = Some conn \<and> p \<in> set (pending conn) \<and>
         time_due (conn_rto_config (srv_connections s)) fallback p \<le> later)) \<and>
    (t_poll t (poll_timeout (t_poll_at t) (t_fallback t) s) = Inr False \<and> grace_period_elapsed (t_now t) s \<longrightarrow>
      (\<exists>s'. loop_body t s = (Inr True, s') \<and> dev_out s' = dev_out s))"
proof -
  let ?c = "srv_connections s"
  have "server_ok cfg s" using server_run_safe(1) [of cfg birth ts] assms by simp
  then have wf: "conns_wf ?c" using server_ok_conns by (auto simp: conns_ok_def)
  have none: "next_retransmit_deadline fallback ?c = None \<longleftrightarrow>
      (\<forall>k conn. conn_get ?c k = Some conn \<longrightarrow> pending conn = [])"
    using wf by (rule next_retransmit_deadline_None)
  have due: "\<exists>k conn p. conn_get ?c k = Some conn \<and> p \<in> set (pending conn) \<and>
      time_due (conn_rto_config ?c) fallback p \<le> later"
    if "next_retransmit_deadline fallback ?c = Some r" "r \<le> later" for r later
    using next_retransmit_deadline_Some(1) [OF wf that(1)] that(2) by blast
  have "poll_timeout now fallback s = None \<longleftrightarrow> shutdown_deadline s = None \<and>
      (\<forall>k conn. conn_get ?c k = Some conn \<longrightarrow> pending conn = [])"
    unfolding none [symmetric] poll_timeout_cases by (auto split: option.splits)
  moreover have "\<exists>d. poll_timeout now fallback s = Some d \<and> now + d \<le> max now deadline"
    if "shutdown_deadline s = Some deadline" for deadline
    using that unfolding poll_timeout_cases by (auto split: option.splits)
  moreover have "grace_period_elapsed later s \<or> (\<exists>k conn p. conn_get ?c k = Some conn \<and>
      p \<in> set (pending conn) \<and> time_due (conn_rto_config ?c) fallback p \<le> later)"
    if "poll_timeout now fallback s = Some d" "now + d \<le> later" for d later
  proof -
    from that consider dl where "shutdown_deadline s = Some dl" "dl \<le> later"
      | r where "next_retransmit_deadline fallback ?c = Some r" "r \<le> later"
      unfolding poll_timeout_cases by (auto simp: min_def split: option.splits if_splits)
    then show ?thesis using due by cases (auto simp: grace_period_elapsed_def)
  qed
  moreover have "\<exists>s'. loop_body t s = (Inr True, s') \<and> dev_out s' = dev_out s"
    if "t_poll t (poll_timeout (t_poll_at t) (t_fallback t) s) = Inr False" "grace_period_elapsed (t_now t) s"
    using that by (simp add: loop_body_def act_bind_def log_to_def)
  ultimately show ?thesis by blast
qed

theorem wait_is_productive_witness:
  "\<exists>s0 s d k conn p. server_run demo_config 0 [] = (Inr False, s0) \<and> poll_timeout 5 0 s0 = None \<and>
     server_run demo_config 0 [demo_tick (demo_packet demo_syn)] = (Inr False, s) \<and> poll_timeout 5 0 s = Some d \<and>
     conn_get (srv_connections s) k = Some conn \<and> p \<in> set (pending conn) \<and>
     time_due (conn_rto_config (srv_connections s)) 0 p \<le> 5 + d"
proof -
  obtain s0 where s0: "server_run demo_config 0 [] = (Inr False, s0)" "shutdown_deadline s0 = None"
    "conn_table (srv_connections s0) = []" using demo_start by blast
  then have idle: "poll_timeout 5 0 s0 = None" using wait_is_productive [OF s0(1), of 5 0] by (auto simp: conn_get_def)
  obtain s conn info where s: "server_run demo_config 0 [demo_tick (demo_packet demo_syn)] = (Inr False, s)"
    "conn_get (srv_connections s) (seg_key demo_syn) = Some conn" "pending conn = [pending_new info 0]"
    "shutdown_deadline s = None" using demo_syn_run by blast
  then have "poll_timeout 5 0 s \<noteq> None" "\<not> grace_period_elapsed later s" for later
    using wait_is_productive [OF s(1), of 5 0] by (auto simp: grace_period_elapsed_def)
  then obtain d where "poll_timeout 5 0 s = Some d" "\<not> grace_period_elapsed (5 + d) s" by blast
  with wait_is_productive [OF s(1), of 5 0] s0(1) idle s(1) show ?thesis by blast
qed

text \<open>
  C15. Retransmission in the running server: with any configured initial timeout, a segment in flight
  that has been retransmitted \<open>n\<close> times is due the initial timeout doubled \<open>n\<close> times after it was last
  sent, but never before 200 milliseconds and never later than two minutes; and \<open>n\<close> never exceeds the
  configured number of retransmissions.
\<close>

theorem server_backoff:
  assumes "server_run cfg birth ts = (r, s)" and "initial_rto cfg = duration_from_millis ms"
    and "conn_get (srv_connections s) k = Some conn" and "p \<in> set (pending conn)"
    and "ps_last_sent_at p + 120 * 10 ^ 9 \<le> INSTANT_MAX"
  shows "time_due (conn_rto_config (srv_connections s)) fallback p = ps_last_sent_at p +
    max (200 * 10 ^ 6) (min (120 * 10 ^ 9) (unat ms * 10 ^ 6 * 2 ^ unat (ps_retries p))) \<and>
    unat (ps_retries p) \<le> unat (max_retries cfg)"
proof -
  have s: "server_ok cfg s" using server_run_safe(1) [of cfg birth ts] assms(1) by simp
  then have reach: "tcp_reach (\<lambda>_ _. True) (server_rto cfg) (max_retries cfg) (srv_connections s)"
    by (simp add: server_ok_def)
  have retries: "ps_retries p \<le> max_retries cfg"
    using tcp_reach_retries [OF reach] assms(3,4) by (auto simp: retries_ok_def)
  from s have rc: "conn_rto_config (srv_connections s) = server_rto cfg"
    using tcp_reach_config by (auto simp: server_ok_def)
  have sel: "rto_initial (server_rto cfg) = unat ms * 10 ^ 6" "rto_min (server_rto cfg) = 200 * 10 ^ 6"
      "rto_max (server_rto cfg) = 120 * 10 ^ 9"
    using assms(2) by (simp_all add: server_rto_def TCP_RTO_MIN_def TCP_RTO_MAX_def duration_from_millis_def
        duration_from_secs_def NANOS_PER_SEC_def)
  have ok: "rto_ok (server_rto cfg)" "pow_saturation_harmless (server_rto cfg)"
    unfolding rto_ok_def pow_saturation_harmless_def sel
    by (simp_all add: DURATION_MAX_def NANOS_PER_SEC_def) linarith
  have "backoff (server_rto cfg) m \<le> 120 * 10 ^ 9" for m
    using backoff_bounds [OF ok(1), of m] sel(3) by simp
  then have "ps_last_sent_at p + backoff (server_rto cfg) (unat (ps_retries p)) \<le> INSTANT_MAX"
    using assms(5) by (meson add_left_mono le_trans)
  then show ?thesis
    using retries unfolding rc time_due_eq [OF ok] by (simp add: backoff_def sel word_le_nat_alt)
qed

theorem server_backoff_witness:
  "\<exists>s conn p. server_run demo_config 0 [demo_tick (demo_packet demo_syn)] = (Inr False, s) \<and>
     conn_get (srv_connections s) (seg_key demo_syn) = Some conn \<and> p \<in> set (pending conn) \<and>
     time_due (conn_rto_config (srv_connections s)) 0 p = 1000000000"
proof -
  obtain s conn info where s: "server_run demo_config 0 [demo_tick (demo_packet demo_syn)] = (Inr False, s)"
    "conn_get (srv_connections s) (seg_key demo_syn) = Some conn" "pending conn = [pending_new info 0]"
    using demo_syn_run by blast
  have "initial_rto demo_config = duration_from_millis 1000"
    by (simp add: demo_config_def duration_from_millis_def)
  from server_backoff [OF s(1) this s(2), of "pending_new info 0" 0] s show ?thesis
    by (auto simp: INSTANT_MAX_def NANOS_PER_SEC_def)
qed

text \<open>
  C7. Echo of datagrams through the whole loop: a packet with a full IPv4 header whose UDP datagram
  or ICMP Echo Request parses is answered, as long as the device works, by exactly one packet: the
  addresses are exchanged, the protocol is the same, the payload has the same length and the same
  content after its header, for UDP with the ports exchanged, for ICMP with the type of a reply and
  the same identifier and sequence number. No TCP connection is touched.
\<close>

theorem datagram_echoed:
  assumes "server_run cfg birth ts = (Inr False, s)"
    and "t_poll t (poll_timeout (t_poll_at t) (t_fallback t) s) = Inr True"
    and "t_read t = Inr bs" and "length bs \<le> ETHERNET_MTU"
    and "(\<forall>n. t_write t n = Inr ()) \<and> (\<forall>n. t_flush t n = Inr ())"
    and "ipv4_parse bs = Inr (hdr, payload)" and "5 \<le> unat (bs ! 0 AND 0xF)" and "hdr_protocol hdr \<noteq> Tcp"
    and "router_parse payload (hdr_protocol hdr) (hdr_ip_pair hdr) = Inr router"
  shows "\<exists>stop s' pkt (hdr' :: local_ep ipv4_header) payload'.
    loop_body t s = (Inr stop, s') \<and> dev_out s' = dev_out s @ [pkt] \<and>
    srv_connections s' = srv_connections s \<and> inner_parse pkt = Inr (hdr', payload') \<and>
    hdr_ip_pair hdr' = ip_swapped (hdr_ip_pair hdr) \<and> hdr_protocol hdr' = hdr_protocol hdr \<and>
    length payload' = length payload \<and> drop 8 payload' = drop 8 payload \<and>
    (case hdr_protocol hdr of
       Icmp \<Rightarrow> payload' ! 0 = 0 \<and> drop 4 payload' = drop 4 payload
     | _ \<Rightarrow> take 4 payload' = drop 2 (take 4 payload) @ take 2 payload)"
proof -
  have ok: "server_ok cfg s" using server_run_safe(1) [of cfg birth ts] assms(1) by simp
  obtain reply where cr: "\<And>random now conns. router_create_reply random now router conns = (Inr (Some reply), conns)"
    using assms(8,9) router_parse_Inr(2) [OF assms(9)] by (cases router) auto
  note swapped = router_create_reply_swapped [OF cr]
  have len: "length (router_wire reply) = length payload" by (rule router_reply_length [OF assms(9) cr assms(8)])
  have "payload = drop (unat (bs ! 0 AND 0xF) * 4) bs"
    using assms(6) by (simp add: ipv4_parse_def inner_parse_Inr_iff)
  with assms(4,7) len have short: "length (router_wire reply) \<le> 1480" by (simp add: ETHERNET_MTU_def)
  have "parse_incoming (io_result (random_u32 (t_urandom t))) (t_conn_now t) bs s =
      (Inr \<lparr>ex_ipv4_hdr = hdr, ex_incoming_router = router, ex_reply_router = Some reply\<rparr>, s)"
    using assms(6,9) cr by (simp add: parse_incoming_def)
  from loop_body_reply [OF ok _ assms(2-4) this _ short] assms(5) obtain stop s' where
    "loop_body t s = (Inr stop, s')" "dev_out s' = dev_out s @ [packet_of reply]" "srv_connections s' = srv_connections s"
    by (auto simp: io_works_def)
  moreover have "hdr_ip_pair (reply_hdr reply) = ip_swapped (hdr_ip_pair hdr)"
      "hdr_protocol (reply_hdr reply) = hdr_protocol hdr"
    using swapped router_parse_Inr [OF assms(9)] by (simp_all add: reply_hdr_def)
  moreover note reply_content [OF assms(9) cr assms(8)]
  ultimately show ?thesis using packet_of_parses [of reply] len by blast
qed

theorem datagram_echoed_witness:
  "\<exists>s stop s' pkt (hdr' :: local_ep ipv4_header) payload'. server_run demo_config 0 [] = (Inr False, s) \<and>
     loop_body (demo_tick (ipv4_hdr_bytes (\<lparr>total_len = 30, hdr_protocol = Udp,
        hdr_ip_pair = Ipv4AddrPair (Ipv4Addr 10 0 0 2) (Ipv4Addr 10 0 0 1)\<rparr> :: remote_ep ipv4_header)
        @ [0x04, 0xD2, 0, 0x35, 0, 10, 0, 0, 0x48, 0x69])) s = (Inr stop, s') \<and>
     dev_out s' = dev_out s @ [pkt] \<and> inner_parse pkt = Inr (hdr', payload') \<and> drop 8 payload' = [0x48, 0x69]"
proof -
  let ?data = "[0x04, 0xD2, 0, 0x35, 0, 10, 0, 0, 0x48, 0x69] :: bytes"
  let ?h = "\<lparr>total_len = 30, hdr_protocol = Udp,
     hdr_ip_pair = Ipv4AddrPair (Ipv4Addr 10 0 0 2) (Ipv4Addr 10 0 0 1)\<rparr> :: remote_ep ipv4_header"
  let ?bs = "ipv4_hdr_bytes ?h @ ?data"
  obtain s where s: "server_run demo_config 0 [] = (Inr False, s)" using demo_start by blast
  have ip: "ipv4_parse ?bs = Inr (?h, ?data)" by (simp only: ipv4_parse_def inner_parse_hdr_bytes)
  have ihl: "5 \<le> unat (?bs ! 0 AND 0xF)" by (simp add: ipv4_hdr_bytes_def ipv4_fields_def)
  have rp: "router_parse ?data (hdr_protocol ?h) (hdr_ip_pair ?h) = Inr (RouterUdp
      \<lparr>udp_ip_pair = hdr_ip_pair ?h, udp_ports = PortPair 1234 53, udp_payload = [0x48, 0x69]\<rparr>)"
    by (simp add: udp_parse_def UDP_HDR_LEN_def Let_def from_be_bytes_def)
  have len: "length ?bs \<le> ETHERNET_MTU" by (simp add: ETHERNET_MTU_def)
  have tick: "t_poll (demo_tick ?bs) (poll_timeout (t_poll_at (demo_tick ?bs)) (t_fallback (demo_tick ?bs)) s) = Inr True"
      "t_read (demo_tick ?bs) = Inr ?bs"
      "(\<forall>n. t_write (demo_tick ?bs) n = Inr ()) \<and> (\<forall>n. t_flush (demo_tick ?bs) n = Inr ())"
    by (simp_all only: demo_tick_sel simp_thms)
  have "hdr_protocol ?h \<noteq> Tcp" by simp
  from datagram_echoed [OF s tick(1,2) len tick(3) ip ihl this rp]
  obtain stop s' pkt and hdr' :: "local_ep ipv4_header" and payload' where e:
    "loop_body (demo_tick ?bs) s = (Inr stop, s')" "dev_out s' = dev_out s @ [pkt]"
    "inner_parse pkt = Inr (hdr', payload')" "drop 8 payload' = drop 8 ?data" by (elim exE conjE) rule
  have "drop 8 payload' = [0x48, 0x69]" using e(4) by simp
  with s e(1-3) show ?thesis by (intro exI conjI)
qed

text \<open>
  C25. What the types of the Rust code guarantee holds of every state the server reaches: both buffers
  keep the size of the MTU, no two connections have the same key, every payload in flight has a
  length that is not zero, fits 16 bits and is the number of its bytes, and the settings are those it
  was configured with. No run ends in a panic.
\<close>

theorem server_types:
  "fst (server_run cfg birth ts) \<noteq> Inl Panicked \<and>
   length (write_buf (snd (server_run cfg birth ts))) = ETHERNET_MTU \<and>
   length (read_buf (snd (server_run cfg birth ts))) = ETHERNET_MTU \<and>
   distinct (map fst (conn_table (srv_connections (snd (server_run cfg birth ts))))) \<and>
   list_all (\<lambda>(_, conn). list_all (\<lambda>p. pred_option payload_ok (si_payload (ps_send_info p))) (pending conn))
     (conn_table (srv_connections (snd (server_run cfg birth ts)))) \<and>
   conn_rto_config (srv_connections (snd (server_run cfg birth ts))) =
     \<lparr>rto_initial = initial_rto cfg, rto_min = TCP_RTO_MIN, rto_max = TCP_RTO_MAX\<rparr> \<and>
   shutdown_grace_period (snd (server_run cfg birth ts)) = grace_period cfg \<and>
   log_lvl (srv_logger (snd (server_run cfg birth ts))) = log_level cfg"
proof -
  let ?s = "snd (server_run cfg birth ts)"
  have ok: "server_ok cfg ?s" by (rule server_run_safe(1))
  then have conns: "conns_ok (in_flight_ok 2147483648) (in_flight_ok 2147483649) (srv_connections ?s)"
    by (rule server_ok_conns)
  then have wf: "conns_wf (srv_connections ?s)" by (simp add: conns_ok_def)
  have "info_ok (ps_send_info p)" if "(k, conn) \<in> set (conn_table (srv_connections ?s))" "p \<in> set (pending conn)" for k conn p
    using that conns any_peer.conn_ok_payloads wf by (auto simp: conns_ok_def conn_get_iff)
  moreover have "conn_rto_config (srv_connections ?s) = server_rto cfg"
    using ok tcp_reach_config by (auto simp: server_ok_def)
  ultimately show ?thesis
    using server_run_safe(2) [of cfg birth ts] ok wf
    by (auto simp: server_ok_def conns_wf_def keys_distinct_def list_all_iff info_ok_def server_rto_def)
qed

text \<open>
  C32. The grace period does not bound the shutdown: the deadline, like every retransmission, is only
  looked at when \<open>poll\<close> reports that nothing can be read. As long as packets keep arriving, even such
  as are not IPv4, a draining server goes on for any number of iterations and whatever the clock
  says, retransmits nothing, and keeps its connections closing.
\<close>

theorem traffic_suspends_grace_period:
  assumes "server_run cfg birth ts = (Inr False, s)" and "shutdown_deadline s = Some deadline"
    and "closing_in_progress (srv_connections s)"
    and "\<forall>t \<in> set us. (\<forall>d. t_poll t d = Inr True) \<and>
      (\<exists>bs e. t_read t = Inr bs \<and> length bs \<le> ETHERNET_MTU \<and> ipv4_parse bs = Inl e)"
  shows "\<exists>s'. server_run cfg birth (ts @ us) = (Inr False, s') \<and> shutdown_deadline s' = Some deadline \<and>
    dev_out s' = dev_out s \<and> srv_connections s' = srv_connections s"
  using unusable_run [OF assms(1,3), of us] assms(2,4) by (auto simp: list_all_iff unusable_def)

theorem traffic_suspends_grace_period_witness:
  "\<exists>ts s s'. server_run demo_config 0 ts = (Inr False, s) \<and> shutdown_deadline s = Some 60000000000 \<and>
     server_run demo_config 0 (ts @ replicate 1000 ((demo_tick [])\<lparr>t_now := 10 ^ 15, t_poll_at := 10 ^ 15\<rparr>)) = (Inr False, s') \<and>
     shutdown_deadline s' = Some 60000000000"
proof -
  obtain d s fins conns where s: "length d = 1460"
    "server_run demo_config 0 [demo_tick (demo_packet demo_syn), demo_tick (demo_packet (demo_fill d))] = (Inr False, s)"
    "shutdown_deadline s = None" "close_established 0 (srv_connections s) = (fins, conns)"
    "closing_in_progress conns" "shutdown_grace_period s = 60000000000"
    "t_now signal_tick + shutdown_grace_period s \<le> INSTANT_MAX" using demo_signal_state by blast
  have "server_ok demo_config s" using server_run_safe(1) [of demo_config 0] s(2) by (metis snd_conv)
  from signal_begins_draining [OF this s(3), of signal_tick] s(4-7) obtain s1 where s1:
    "loop_body signal_tick s = (Inr False, s1)" "srv_connections s1 = conns"
    "shutdown_deadline s1 = Some 60000000000" by auto
  let ?late = "(demo_tick [])\<lparr>t_now := 10 ^ 15, t_poll_at := 10 ^ 15\<rparr>"
  have "\<forall>t \<in> set (replicate 1000 ?late). (\<forall>d. t_poll t d = Inr True) \<and>
      (\<exists>bs e. t_read t = Inr bs \<and> length bs \<le> ETHERNET_MTU \<and> ipv4_parse bs = Inl e)"
    by (auto simp: demo_tick_def ETHERNET_MTU_def ipv4_parse_def inner_parse_def IPV4_HDR_MIN_LEN_def)
  from traffic_suspends_grace_period [OF server_run_snoc [OF s(2) s1(1)] s1(3) _ this] s(5) s1(2)
    server_run_snoc [OF s(2) s1(1)] s1(3) show ?thesis by blast
qed

end
