(* ===== verification/Wire_Echo.thy ===== *)
theory Wire_Echo
  imports Shutdown
begin

text \<open>
  The echo of a TCP stream through the whole server. The history of a connection is read off the
  iterations of the loop: the initial sequence numbers of the SYN and its answer, and the bytes
  accepted and sent since. Whatever the loop does, the connection table agrees with these histories,
  and every byte a packet carries on the wire, sent for the first time or again, is the byte of the
  accepted stream that its sequence number names.
\<close>

section \<open>Segments of a stream\<close>

text \<open>A payload, if any, is the part of the stream \<open>sent\<close> that starts at its sequence number.\<close>

definition in_stream :: "u32 \<Rightarrow> bytes \<Rightarrow> send_info \<Rightarrow> bool" where
  "in_stream iss sent info \<longleftrightarrow>
     si_payload info = None \<or>
     (\<exists>pre post. sent = pre @ payload_bytes (si_payload info) @ post \<and>
        raw (si_seq_num info) = iss + 1 + of_nat (length pre))"

lemma in_stream_no_payload [simp]: "si_payload info = None \<Longrightarrow> in_stream iss sent info"
  by (simp add: in_stream_def)

lemma in_stream_append: "in_stream iss sent info \<Longrightarrow> in_stream iss (sent @ d) info"
  by (auto simp: in_stream_def) (metis append_assoc)

lemma in_stream_last:
  "raw (si_seq_num info) = iss + 1 + of_nat (length sent) \<Longrightarrow> in_stream iss (sent @ reply_data (Some info)) info"
  by (auto simp: in_stream_def intro: exI [of _ sent])

text \<open>A connection that agrees with the streams, down to the segments it may have to send again.\<close>

definition traced :: "u32 \<Rightarrow> u32 \<Rightarrow> bytes \<Rightarrow> bytes \<Rightarrow> conn_state \<Rightarrow> bool" where
  "traced iss irs rcvd sent conn \<longleftrightarrow> streams_ok iss irs conn rcvd sent \<and>
     (\<forall>p \<in> set (pending conn). in_stream iss sent (ps_send_info p))"

lemma traced_reply:
  assumes "conns_ok (in_flight_ok 2147483648) (in_flight_ok 2147483649) conns" and "segment_ok seg"
    and "conn_get conns (seg_key seg) = Some conn"
    and "decide_reply random now seg conns = (Inr v, conns')" and "traced iss irs rcvd sent conn"
  shows "v = Some info \<Longrightarrow> in_stream iss (sent @ reply_data v) info"
    and "v = Some info \<Longrightarrow> si_payload info \<noteq> None \<Longrightarrow> conn_get conns' (seg_key seg) \<noteq> None"
    and "conn_get conns' (seg_key seg) = Some conn' \<Longrightarrow>
      traced iss irs (rcvd @ accepted_data conn seg) (sent @ reply_data v) conn'"
proof -
  have ok: "streams_ok iss irs conn rcvd sent" "conns_wf conns"
    using assms(1,5) by (simp_all add: traced_def conns_ok_def)
  have reply: "in_stream iss (sent @ reply_data v) info \<and>
      (si_payload info \<noteq> None \<longrightarrow> conn_get conns' (seg_key seg) \<noteq> None)" if "v = Some info" for info
  proof (cases "si_payload info = None")
    case False
    with data_reply_step [OF assms(1-3)] assms(4) that obtain d conn' where
      "\<not> actively_closed conn" "fin_count conn = 0" "stream_step conn d (Some info) conn'"
      "conn_get conns' (seg_key seg) = Some conn'" by blast
    with ok(1) False that in_stream_last [of info iss sent] show ?thesis
      by (auto simp: streams_ok_def stream_step_def)
  qed simp
  then show "v = Some info \<Longrightarrow> in_stream iss (sent @ reply_data v) info"
    "v = Some info \<Longrightarrow> si_payload info \<noteq> None \<Longrightarrow> conn_get conns' (seg_key seg) \<noteq> None" by blast+
  show "traced iss irs (rcvd @ accepted_data conn seg) (sent @ reply_data v) conn'"
    if c: "conn_get conns' (seg_key seg) = Some conn'"
  proof -
    have "in_stream iss (sent @ reply_data v) (ps_send_info p)" if "p \<in> set (pending conn')" for p
    proof -
      from pending_after_reply [OF ok(2) assms(3,4) c] that
      consider "p \<in> set (pending conn)" | "v = Some (ps_send_info p)" by auto
      then show ?thesis using reply assms(5) by cases (auto simp: traced_def in_stream_append)
    qed
    with decide_reply_streams [OF assms(1-4) c ok(1)] show ?thesis by (simp add: traced_def)
  qed
qed

lemma traced_idle:
  assumes "traced iss irs rcvd sent conn" and "send_buffer conn' = send_buffer conn"
    and "actively_closed conn' \<or> \<not> actively_closed conn \<and> rcv_nxt conn' = rcv_nxt conn \<and>
      snd_nxt conn' = snd_nxt conn \<and> fin_count conn' = fin_count conn"
    and "\<And>p. p \<in> set (pending conn') \<Longrightarrow>
      si_payload (ps_send_info p) = None \<or> ps_send_info p \<in> ps_send_info ` set (pending conn)"
  shows "traced iss irs rcvd sent conn'"
proof -
  have "streams_ok iss irs conn' rcvd sent"
    using assms(1) by (intro streams_ok_idle [OF _ assms(2,3)]) (simp add: traced_def)
  moreover have "in_stream iss sent (ps_send_info p)" if "p \<in> set (pending conn')" for p
    using assms(4) [OF that] assms(1) by (force simp: traced_def)
  ultimately show ?thesis by (simp add: traced_def)
qed

lemma traced_retransmitted:
  "traced iss irs rcvd sent conn \<Longrightarrow> retransmitted_conn cfg retries now fallback conn = Some conn' \<Longrightarrow>
     traced iss irs rcvd sent conn'"
  by (erule traced_idle)
     (auto simp: retransmitted_conn_def actively_closed_def fin_count_def retransmit_info_def split: if_splits)

lemma traced_close: "traced iss irs rcvd sent conn \<Longrightarrow> traced iss irs rcvd sent (snd (close_conn now key conn))"
  by (erule traced_idle)
     (auto simp: close_conn_def actively_closed_def fin_count_def Let_def split: tcp_state.splits)

lemma traced_new:
  assumes "conn_get conns (seg_key seg) = None" and "seg_flags seg = Syn"
    and "decide_reply (Inr iss) now seg conns = (r, conns')"
  shows "\<exists>conn. conn_get conns' (seg_key seg) = Some conn \<and> traced iss (raw (seg_seq_num seg)) [] [] conn"
  using assms
  by (auto simp: decide_reply_def handle_unknown_conn_def from_syn_ack_def insert_syn_rcv_eq Let_def
      traced_def streams_ok_def actively_closed_def fin_count_def seq_add_def phantom_bytes)

section \<open>What an iteration sends\<close>

text \<open>
  \<open>emits Q m\<close>: \<open>m\<close> only appends packets in \<open>Q\<close> to the device and leaves the connections alone.
\<close>

definition emits :: "bytes set \<Rightarrow> (server, 'a) action \<Rightarrow> bool" where
  "emits Q m \<longleftrightarrow> (\<forall>s. length (write_buf s) = ETHERNET_MTU \<longrightarrow>
     length (write_buf (snd (m s))) = ETHERNET_MTU \<and> srv_connections (snd (m s)) = srv_connections s \<and>
     (\<exists>pkts. dev_out (snd (m s)) = dev_out s @ pkts \<and> set pkts \<subseteq> Q))"

named_theorems emits_intros

lemma emits_silent:
  assumes "\<And>s. write_buf (snd (m s)) = write_buf s \<and> srv_connections (snd (m s)) = srv_connections s \<and>
    dev_out (snd (m s)) = dev_out s"
  shows "emits Q m"
  using assms by (simp add: emits_def)

lemma emits_mono: "emits Q m \<Longrightarrow> Q \<subseteq> Q' \<Longrightarrow> emits Q' m"
  unfolding emits_def by (meson subset_trans)

lemma emits_atomic [emits_intros]:
  "emits Q (act_return x)" "emits Q (act_read g)" "emits Q (log_to call)" "emits Q (log_pkt_io t call)"
  "emits Q (\<lambda>s. (Inr (), s\<lparr>shutdown_deadline := d\<rparr>))"
  by (simp_all add: emits_silent log_to_def log_pkt_io_def)

lemma emits_bind [emits_intros]:
  assumes "emits Q m" and "\<And>x. emits Q (k x)"
  shows "emits Q (act_bind m k)"
  unfolding emits_def
proof (intro allI impI)
  fix s :: server assume s: "length (write_buf s) = ETHERNET_MTU"
  obtain r s1 where m: "m s = (r, s1)" by fastforce
  with assms(1) s obtain pkts where s1: "length (write_buf s1) = ETHERNET_MTU"
    "srv_connections s1 = srv_connections s" "dev_out s1 = dev_out s @ pkts" "set pkts \<subseteq> Q"
    unfolding emits_def by (metis snd_conv)
  show "length (write_buf (snd (act_bind m k s))) = ETHERNET_MTU \<and>
      srv_connections (snd (act_bind m k s)) = srv_connections s \<and>
      (\<exists>pkts. dev_out (snd (act_bind m k s)) = dev_out s @ pkts \<and> set pkts \<subseteq> Q)"
  proof (cases r)
    case (Inr x)
    with assms(2) [of x] s1(1) obtain more where "length (write_buf (snd (k x s1))) = ETHERNET_MTU"
      "srv_connections (snd (k x s1)) = srv_connections s1" "dev_out (snd (k x s1)) = dev_out s1 @ more"
      "set more \<subseteq> Q" unfolding emits_def by blast
    with m Inr s1 show ?thesis by auto
  qed (use m s1 in auto)
qed

lemma emits_send_pkt [emits_intros]:
  assumes "router_ok out" and "packet_of out \<in> Q"
  shows "emits Q (send_pkt t out)"
  unfolding emits_def
proof (intro allI impI)
  fix s :: server assume len: "length (write_buf s) = ETHERNET_MTU"
  show "length (write_buf (snd (send_pkt t out s))) = ETHERNET_MTU \<and>
      srv_connections (snd (send_pkt t out s)) = srv_connections s \<and>
      (\<exists>pkts. dev_out (snd (send_pkt t out s)) = dev_out s @ pkts \<and> set pkts \<subseteq> Q)"
  proof (cases "length (router_wire out) \<le> 1480")
    case True
    from send_pkt_fits [OF assms(1) len True, of t] assms(2) show ?thesis
      by (cases "t_write t (length (dev_out s))") auto
  next
    case False
    with send_pkt_too_long [OF assms(1) len, of t] show ?thesis by auto
  qed
qed

lemma emits_after_packet [emits_intros]: "emits Q after_packet"
  by (simp add: emits_silent after_packet_def log_to_def act_bind_def)

text \<open>The packets of TCP segments.\<close>

abbreviation tcp_packets :: "local_segment set \<Rightarrow> bytes set" where
  "tcp_packets segs \<equiv> (\<lambda>seg. packet_of (RouterTcp seg)) ` segs"

lemma emits_segments:
  "list_all segment_ok segs \<Longrightarrow> set segs \<subseteq> S \<Longrightarrow> emits (tcp_packets S) (send_retransmissions t segs)"
  "list_all segment_ok segs \<Longrightarrow> set segs \<subseteq> S \<Longrightarrow> emits (tcp_packets S) (send_fins t segs)"
  by (induction segs) (auto intro!: emits_intros)

section \<open>What an iteration does to the connections\<close>

text \<open>The TCP segment that arrives in an iteration, if any.\<close>

definition segment_in :: "bytes \<Rightarrow> remote_segment option" where
  "segment_in bs =
     (case ipv4_parse bs of
        Inr (hdr, payload) \<Rightarrow>
          (case router_parse payload (hdr_protocol hdr) (hdr_ip_pair hdr) of
             Inr (RouterTcp seg) \<Rightarrow> Some seg
           | _ \<Rightarrow> None)
      | Inl _ \<Rightarrow> None)"

definition arriving :: "tick \<Rightarrow> server \<Rightarrow> remote_segment option" where
  "arriving t s =
     (case t_poll t (poll_timeout (t_poll_at t) (t_fallback t) s) of
        Inr True \<Rightarrow>
          (case t_read t of
             Inr bs \<Rightarrow> if length bs \<le> ETHERNET_MTU then segment_in bs else None
           | Inl _ \<Rightarrow> None)
      | _ \<Rightarrow> None)"

definition new_isn :: "tick \<Rightarrow> u32 result" where
  "new_isn t = io_result (random_u32 (t_urandom t))"

text \<open>The reply to a segment on the wire: addressed to where it came from.\<close>

definition reply_segments :: "remote_segment \<Rightarrow> send_info option result \<Rightarrow> local_segment set" where
  "reply_segments seg r =
     {from_pairs_and_info (key_ip_pair (seg_key seg)) (key_ports (seg_key seg)) info | info. r = Inr (Some info)}"

text \<open>
  The possible effects of an iteration on the connections, with the TCP segments it may put on the
  wire.
\<close>

inductive effect :: "tick \<Rightarrow> tcp_connections \<Rightarrow> remote_segment option \<Rightarrow> tcp_connections \<Rightarrow> local_segment set \<Rightarrow> bool"
  for t conns where
  no_effect: "effect t conns None conns {}"
| closes: "close_established (t_conn_now t) conns = (segs, conns') \<Longrightarrow> effect t conns None conns' (set segs)"
| resends: "make_retransmissions (t_conn_now t) (t_fallback t) conns = (segs, conns') \<Longrightarrow>
    effect t conns None conns' (set segs)"
| answers: "segment_ok seg \<Longrightarrow> decide_reply (new_isn t) (t_conn_now t) seg conns = (r, conns') \<Longrightarrow>
    effect t conns (Some seg) conns' (reply_segments seg r)"

text \<open>From \<open>s\<close> to \<open>s'\<close>: an effect on the connections, and packets that carry its segments or datagrams.\<close>

definition effective :: "tick \<Rightarrow> server \<Rightarrow> remote_segment option \<Rightarrow> server \<Rightarrow> bool" where
  "effective t s arrived s' \<longleftrightarrow>
     (\<exists>segs pkts. effect t (srv_connections s) arrived (srv_connections s') segs \<and>
        dev_out s' = dev_out s @ pkts \<and>
        set pkts \<subseteq> tcp_packets segs \<union> packet_of ` {out. router_proto out \<noteq> Tcp})"

lemma effectiveI:
  assumes "effect t (srv_connections s) arrived (srv_connections s1) segs" and "dev_out s1 = dev_out s"
    and "emits (tcp_packets segs \<union> packet_of ` {out. router_proto out \<noteq> Tcp}) m"
    and "length (write_buf s1) = ETHERNET_MTU"
  shows "effective t s arrived (snd (m s1))"
  using assms unfolding effective_def emits_def by metis

lemma effective_silent:
  "emits {} m \<Longrightarrow> length (write_buf s) = ETHERNET_MTU \<Longrightarrow> effective t s None (snd (m s))"
  by (rule effectiveI [OF effect.no_effect]) (auto simp: emits_def)

lemma parse_incoming_conns:
  assumes "parse_incoming random now bs s = (r, s1)"
  shows "segment_in bs = None \<Longrightarrow> srv_connections s1 = srv_connections s \<and>
      (\<forall>ex reply. r = Inr ex \<and> ex_reply_router ex = Some reply \<longrightarrow> router_proto reply \<noteq> Tcp)"
    and "segment_in bs = Some seg \<Longrightarrow> segment_ok seg \<and>
      (\<exists>d. decide_reply random now seg (srv_connections s) = (d, srv_connections s1) \<and>
        (\<forall>ex reply. r = Inr ex \<and> ex_reply_router ex = Some reply \<longrightarrow> reply \<in> RouterTcp ` reply_segments seg d))"
proof -
  show "srv_connections s1 = srv_connections s \<and>
      (\<forall>ex reply. r = Inr ex \<and> ex_reply_router ex = Some reply \<longrightarrow> router_proto reply \<noteq> Tcp)"
    if "segment_in bs = None"
    using assms that
    by (auto simp: parse_incoming_def segment_in_def result_map_err_def
        split: sum.splits prod.splits protocol_router.splits)
next
  assume "segment_in bs = Some seg"
  then obtain hdr payload where p: "ipv4_parse bs = Inr (hdr, payload)"
      "router_parse payload (hdr_protocol hdr) (hdr_ip_pair hdr) = Inr (RouterTcp seg)"
    by (auto simp: segment_in_def split: sum.splits prod.splits protocol_router.splits)
  obtain d conns' where d: "decide_reply random now seg (srv_connections s) = (d, conns')" by fastforce
  from assms p d have "srv_connections s1 = conns' \<and>
      (\<forall>ex reply. r = Inr ex \<and> ex_reply_router ex = Some reply \<longrightarrow> reply \<in> RouterTcp ` reply_segments seg d)"
    by (cases d) (auto simp: parse_incoming_def tcp_create_reply_def act_bind_def reply_segments_def
        key_ip_pair_def key_ports_def seg_key_def ip_swapped_def ports_swapped_def)
  with d router_parse_Inr(3) [OF p(2)] show "segment_ok seg \<and>
      (\<exists>d. decide_reply random now seg (srv_connections s) = (d, srv_connections s1) \<and>
        (\<forall>ex reply. r = Inr ex \<and> ex_reply_router ex = Some reply \<longrightarrow> reply \<in> RouterTcp ` reply_segments seg d))"
    by auto
qed

lemma handle_packet_effect:
  assumes "server_ok cfg s"
  shows "effective t s (segment_in bs) (snd (act_bind (handle_packet t bs) (\<lambda>_. after_packet) s))"
proof -
  obtain r s1 where p: "parse_incoming (new_isn t) (t_conn_now t) bs s = (r, s1)" by fastforce
  note ok = parse_incoming_ok [OF assms p]
  obtain segs where segs: "effect t (srv_connections s) (segment_in bs) (srv_connections s1) segs"
    "\<And>ex reply. r = Inr ex \<Longrightarrow> ex_reply_router ex = Some reply \<Longrightarrow>
       packet_of reply \<in> tcp_packets segs \<union> packet_of ` {out. router_proto out \<noteq> Tcp}"
  proof (cases "segment_in bs")
    case None
    with that [of "{}"] parse_incoming_conns(1) [OF p] effect.no_effect show ?thesis by auto
  next
    case (Some seg)
    from parse_incoming_conns(2) [OF p Some] obtain d where "segment_ok seg"
      "decide_reply (new_isn t) (t_conn_now t) seg (srv_connections s) = (d, srv_connections s1)"
      "\<forall>ex reply. r = Inr ex \<and> ex_reply_router ex = Some reply \<longrightarrow> reply \<in> RouterTcp ` reply_segments seg d" by blast
    with Some that [of "reply_segments seg d"] effect.answers [of seg t "srv_connections s"] show ?thesis by auto
  qed
  let ?Q = "tcp_packets segs \<union> packet_of ` {out. router_proto out \<noteq> Tcp}"
  have s1: "dev_out s1 = dev_out s" "length (write_buf s1) = ETHERNET_MTU"
    using parse_incoming_frame [OF p] ok(1) by (auto simp: server_ok_def)
  show ?thesis
  proof (cases r)
    case (Inl e)
    have "emits ?Q (act_bind (log_to (LogPktErr e)) (\<lambda>_. after_packet))" by (intro emits_intros)
    from effectiveI [OF segs(1) s1(1) this s1(2)] p Inl show ?thesis
      by (simp add: handle_packet_def act_bind_def new_isn_def)
  next
    case (Inr ex)
    have "emits ?Q (act_bind (act_bind (log_to (LogPktExtra '' ==== Packet received ===='')) (\<lambda>_.
          act_bind (log_pkt_io t (LogPktReceived (ex_ipv4_hdr ex) (ex_incoming_router ex))) (\<lambda>_.
          case ex_reply_router ex of
            None \<Rightarrow> log_to (LogPktExtra (newline @ ''<no reply>''))
          | Some reply \<Rightarrow>
              act_bind (log_to (LogPktExtra (newline @ '' ==== Packet sent ===='')))
                (\<lambda>_. send_pkt t reply)))) (\<lambda>_. after_packet))"
      using ok(2) [OF Inr] segs(2) [OF Inr] by (auto intro!: emits_intros split: option.split)
    from effectiveI [OF segs(1) s1(1) this s1(2)] p Inr show ?thesis
      by (simp add: handle_packet_def act_bind_def new_isn_def)
  qed
qed

lemma shutdown_interrupt_effect:
  assumes "server_ok cfg s"
  shows "effective t s None (snd (handle_shutdown_interrupt t s))"
proof -
  define s0 where "s0 = s\<lparr>srv_log := srv_log s @ [LogServerNewline]\<rparr>"
  have s0: "server_ok cfg s0" "dev_out s0 = dev_out s" "srv_connections s0 = srv_connections s"
    using assms by (simp_all add: s0_def server_ok_def)
  obtain segs conns' where c: "close_established (t_conn_now t) (srv_connections s) = (segs, conns')" by fastforce
  note ok = any_peer.close_established_ok(2) [OF server_ok_conns [OF assms], of "t_conn_now t"]
  have len: "length (write_buf s) = ETHERNET_MTU" "length (write_buf (s0\<lparr>srv_connections := conns'\<rparr>)) = ETHERNET_MTU"
    using assms s0(1) by (simp_all add: server_ok_def)
  have closed: "effect t (srv_connections s) None (srv_connections (s0\<lparr>srv_connections := conns'\<rparr>)) (set segs)"
    using effect.closes [OF c] by simp
  have out: "dev_out (s0\<lparr>srv_connections := conns'\<rparr>) = dev_out s" by (simp add: s0(2))
  note close = effectiveI [OF closed out _ len(2)]
  have fins: "emits (tcp_packets (set segs) \<union> packet_of ` {out. router_proto out \<noteq> Tcp}) (send_fins t segs)"
    using emits_segments(2) [of segs "set segs" t] ok c by (auto simp: list_all_iff intro: emits_mono)
  show ?thesis
  proof (cases "shutdown_deadline s")
    case (Some deadline)
    then show ?thesis
      using len(1) by (auto simp: handle_shutdown_interrupt_def act_bind_def log_to_def decide_shutdown_def
          effective_def intro!: exI [of _ "{}"] effect.no_effect)
  next
    case None
    let ?draining = "\<lambda>deadline. act_bind (log_to (LogServerInfo ''Shutdown signal received, closing established connections...''))
           (\<lambda>_. act_bind (log_to LogDivider)
           (\<lambda>_. act_bind (send_fins t segs)
           (\<lambda>_. act_bind (log_to LogDivider)
           (\<lambda>_. act_bind (\<lambda>s. (Inr (), s\<lparr>shutdown_deadline := Some deadline\<rparr>)) (\<lambda>_. act_return False)))))"
    have "effective t s None (snd (?draining deadline (s0\<lparr>srv_connections := conns'\<rparr>)))" for deadline
      by (intro close emits_intros fins)
    moreover have "effective t s None (snd (act_bind (log_to (LogServerInfo msg)) (\<lambda>_. act_return True)
        (s0\<lparr>srv_connections := conns'\<rparr>)))" for msg
      by (intro close emits_intros)
    moreover have "effective t s None (snd ((act_return ()) (s0\<lparr>srv_connections := conns'\<rparr>)))"
      by (intro close emits_intros)
    ultimately show ?thesis
      using None c s0(3)
      by (cases "closing_in_progress conns'"; cases "try_add_instant (t_now t) (shutdown_grace_period s)")
         (simp_all add: handle_shutdown_interrupt_def decide_shutdown_def s0_def act_bind_def [of "log_to LogServerNewline"]
           act_bind_def [of "decide_shutdown _ _"] log_to_def [of LogServerNewline])
  qed
qed

lemma loop_body_effect:
  assumes "server_ok cfg s"
  shows "effective t s (arriving t s) (snd (loop_body t s))"
proof -
  let ?poll = "t_poll t (poll_timeout (t_poll_at t) (t_fallback t) s)"
  have len: "length (write_buf s) = ETHERNET_MTU" "length (read_buf s) = ETHERNET_MTU"
    using assms by (simp_all add: server_ok_def)
  have quiet: "effective t s None s"
    using effective_silent [OF emits_atomic(1) len(1), of t] by simp
  have intr: "effective t s None (snd (interrupted t s))"
    using shutdown_interrupt_effect [OF assms] quiet by (simp add: interrupted_def)
  consider (err) k where "?poll = Inl k" | (idle) "?poll = Inr False" | (unread) k where "?poll = Inr True" "t_read t = Inl k"
    | (long) bs where "?poll = Inr True" "t_read t = Inr bs" "ETHERNET_MTU < length bs"
    | (packet) bs where "?poll = Inr True" "t_read t = Inr bs" "length bs \<le> ETHERNET_MTU"
    by (metis sum.exhaust linorder_not_le)
  then show ?thesis
  proof cases
    case (err k)
    with quiet intr show ?thesis by (cases k) (simp_all add: loop_body_def arriving_def)
  next
    case idle
    obtain segs conns' where m: "make_retransmissions (t_conn_now t) (t_fallback t) (srv_connections s) = (segs, conns')"
      by fastforce
    have "list_all segment_ok segs"
      using any_peer.make_retransmissions_ok(2) [OF server_ok_conns [OF assms] m] by (simp add: list_all_iff)
    from emits_segments(1) [OF this subset_refl, of t]
    have "effective t s None (snd (act_bind (send_retransmissions t segs) (\<lambda>_. act_return False) (s\<lparr>srv_connections := conns'\<rparr>)))"
      using effect.resends [OF m] len(1) by (intro effectiveI [of t s None _ "set segs"] emits_intros) (auto intro: emits_mono)
    moreover have "effective t s None (snd (act_bind (log_to LogServerNewline) (\<lambda>_.
        act_bind (log_to (LogServerInfo msg)) (\<lambda>_. act_return True)) s))" for msg
      by (intro effective_silent emits_intros len)
    ultimately show ?thesis
      using idle m by (auto simp: loop_body_def arriving_def)
  next
    case (unread k)
    with quiet intr show ?thesis by (cases k) (simp_all add: loop_body_def arriving_def)
  next
    case (long bs)
    then have "snd (loop_body t s) = fill_read_buf bs s" "arriving t s = None"
      using len(2) by (simp_all add: loop_body_def arriving_def fill_read_buf_def try_get_range_def act_bind_def min_def)
    with quiet show ?thesis by (simp add: effective_def)
  next
    case (packet bs)
    from handle_packet_effect [OF server_ok_fill_read_buf [OF assms], of t bs bs]
    show ?thesis using packet loop_body_packet [OF assms packet] by (simp add: effective_def arriving_def)
  qed
qed

section \<open>Histories\<close>

record echo_history =
  h_iss :: u32
  h_irs :: u32
  h_rcvd :: bytes
  h_sent :: bytes

text \<open>
  What an arriving segment adds to the history of the connection \<open>key\<close>: a SYN begins it, later
  segments extend the accepted bytes, and their replies the bytes sent.
\<close>

definition observe ::
    "conn_key \<Rightarrow> tick \<Rightarrow> tcp_connections \<Rightarrow> remote_segment option \<Rightarrow> echo_history option \<Rightarrow> echo_history option" where
  "observe key t conns arrived h =
     (case arrived of
        None \<Rightarrow> h
      | Some seg \<Rightarrow>
          if seg_key seg \<noteq> key then h
          else
            case conn_get conns key of
              None \<Rightarrow>
                (case new_isn t of
                   Inl _ \<Rightarrow> None
                 | Inr iss \<Rightarrow>
                     if seg_flags seg = Syn
                     then Some \<lparr>h_iss = iss, h_irs = raw (seg_seq_num seg), h_rcvd = [], h_sent = []\<rparr>
                     else None)
            | Some conn \<Rightarrow>
                map_option (\<lambda>h. h\<lparr>h_rcvd := h_rcvd h @ accepted_data conn seg,
                    h_sent := h_sent h @ reply_data (answer (fst (decide_reply (new_isn t) (t_conn_now t) seg conns)))\<rparr>) h)"

fun history :: "conn_key \<Rightarrow> tick list \<Rightarrow> server \<Rightarrow> echo_history option \<Rightarrow> echo_history option" where
  "history key [] s h = h"
| "history key (t # ts) s h =
     history key ts (snd (loop_body t s)) (observe key t (srv_connections s) (arriving t s) h)"

definition server_history :: "config \<Rightarrow> instant \<Rightarrow> tick list \<Rightarrow> conn_key \<Rightarrow> echo_history option" where
  "server_history cfg birth ts key = history key ts (snd (log_to LogDivider (server_new cfg birth))) None"

definition recorded :: "tcp_connections \<Rightarrow> conn_key \<Rightarrow> echo_history option \<Rightarrow> bool" where
  "recorded conns key hist \<longleftrightarrow> (\<forall>conn. conn_get conns key = Some conn \<longrightarrow>
     (\<exists>h. hist = Some h \<and> traced (h_iss h) (h_irs h) (h_rcvd h) (h_sent h) conn))"

text \<open>The connection a segment of the server belongs to, and where its payload is in the accepted stream.\<close>

definition local_key :: "local_segment \<Rightarrow> conn_key" where
  "local_key seg =
     \<lparr>client_ip = ip_dst (seg_ip_pair seg), client_port = port_dst (seg_ports seg),
      server_ip = ip_src (seg_ip_pair seg), server_port = port_src (seg_ports seg)\<rparr>"

definition echoes :: "echo_history option \<Rightarrow> local_segment \<Rightarrow> bool" where
  "echoes hist seg \<longleftrightarrow>
     seg_payload seg = None \<or>
     (\<exists>h pre post. hist = Some h \<and> h_rcvd h = pre @ payload_bytes (seg_payload seg) @ post \<and>
        raw (seg_seq_num seg) = h_iss h + 1 + of_nat (length pre))"

lemma segment_for_key [simp]:
  "local_key (from_pairs_and_info (key_ip_pair key) (key_ports key) info) = key"
  "seg_payload (from_pairs_and_info ip_pair ports info) = si_payload info"
  "seg_seq_num (from_pairs_and_info ip_pair ports info) = si_seq_num info"
  by (simp_all add: local_key_def from_pairs_and_info_def key_ip_pair_def key_ports_def)

lemma echoes_in_stream:
  assumes "traced (h_iss h) (h_irs h) (h_rcvd h) (h_sent h) conn" and "in_stream (h_iss h) (h_sent h) info"
  shows "echoes (Some h) (from_pairs_and_info ip_pair ports info)"
proof -
  have "h_rcvd h = h_sent h @ send_buffer conn" using assms(1) by (simp add: traced_def streams_ok_def)
  with in_stream_append [OF assms(2)] show ?thesis by (simp add: echoes_def in_stream_def)
qed

lemma unknown_reply:
  assumes "conn_get conns (seg_key seg) = None" and "decide_reply random now seg conns = (r, conns')"
  shows "r = Inr (Some info) \<Longrightarrow> si_payload info = None"
    and "conn_get conns' (seg_key seg) = Some conn \<Longrightarrow>
      \<exists>iss. random = Inr iss \<and> seg_flags seg = Syn \<and> traced iss (raw (seg_seq_num seg)) [] [] conn"
proof -
  have none: "si_payload (rst seg) = None" by (simp add: rst_def)
  have "(r = Inr (Some info) \<longrightarrow> si_payload info = None) \<and> (conn_get conns' (seg_key seg) = Some conn \<longrightarrow>
      (\<exists>iss. random = Inr iss \<and> seg_flags seg = Syn \<and> traced iss (raw (seg_seq_num seg)) [] [] conn))"
  proof (cases "seg_flags seg = Syn")
    case True
    show ?thesis
    proof (cases random)
      case (Inl e)
      with assms True show ?thesis by (auto simp: decide_reply_def handle_unknown_conn_def)
    next
      case (Inr iss)
      from traced_new [OF assms(1) True assms(2) [unfolded Inr]] assms Inr True
        unknown_syn_eq [OF True, of now iss "seg_key seg" conns] show ?thesis
        by (auto simp: decide_reply_def)
    qed
  next
    case False
    with assms none show ?thesis
      by (cases "seg_flags seg") (auto simp: decide_reply_def handle_unknown_conn_def)
  qed
  then show "r = Inr (Some info) \<Longrightarrow> si_payload info = None"
    "conn_get conns' (seg_key seg) = Some conn \<Longrightarrow>
      \<exists>iss. random = Inr iss \<and> seg_flags seg = Syn \<and> traced iss (raw (seg_seq_num seg)) [] [] conn" by blast+
qed

lemma known_reply:
  assumes "conns_ok (in_flight_ok 2147483648) (in_flight_ok 2147483649) conns"
    and "conn_get conns (seg_key seg) = Some conn"
  shows "\<exists>v conns'. decide_reply random now seg conns = (Inr v, conns')"
proof -
  have "decide_reply random now seg conns = decide_reply (Inr 0) now seg conns"
    using assms(2) by (simp add: decide_reply_def)
  with any_peer.decide_reply_ok [OF assms(1), of seg "Inr 0" now] show ?thesis by auto
qed

lemma recorded_own:
  assumes "conns_ok (in_flight_ok 2147483648) (in_flight_ok 2147483649) conns" and "segment_ok seg"
    and "decide_reply (new_isn t) (t_conn_now t) seg conns = (r, conns')"
    and "recorded conns (seg_key seg) hist"
  shows "recorded conns' (seg_key seg) (observe (seg_key seg) t conns (Some seg) hist) \<and>
    (\<forall>seg' \<in> reply_segments seg r. echoes (observe (seg_key seg) t conns (Some seg) hist) seg')"
proof (cases "conn_get conns (seg_key seg)")
  case None
  from unknown_reply [OF this assms(3)] None show ?thesis
    by (fastforce simp: observe_def recorded_def reply_segments_def echoes_def)
next
  case (Some conn)
  then obtain h where h: "hist = Some h" "traced (h_iss h) (h_irs h) (h_rcvd h) (h_sent h) conn"
    using assms(4) by (auto simp: recorded_def)
  obtain v where r: "r = Inr v" using known_reply [OF assms(1) Some] assms(3) by (metis prod.inject)
  define h' where "h' = h\<lparr>h_rcvd := h_rcvd h @ accepted_data conn seg, h_sent := h_sent h @ reply_data v\<rparr>"
  have hist: "observe (seg_key seg) t conns (Some seg) hist = Some h'"
    using Some assms(3) r by (simp add: observe_def h(1) h'_def)
  note traced = traced_reply [OF assms(1,2) Some assms(3) [unfolded r] h(2)]
  have conn': "traced (h_iss h') (h_irs h') (h_rcvd h') (h_sent h') conn'"
    if "conn_get conns' (seg_key seg) = Some conn'" for conn'
    using traced(3) [OF that] by (simp add: h'_def)
  have "echoes (Some h') (from_pairs_and_info ip_pair ports info)" if "v = Some info" for ip_pair ports info
  proof (cases "si_payload info")
    case None
    then show ?thesis by (simp add: echoes_def)
  next
    case (Some p)
    with traced(2) [OF that] obtain conn' where "conn_get conns' (seg_key seg) = Some conn'" by auto
    from echoes_in_stream [OF conn' [OF this]] traced(1) [OF that] show ?thesis by (simp add: h'_def)
  qed
  with conn' show ?thesis by (auto simp: hist recorded_def reply_segments_def r)
qed

lemma recorded_resends:
  assumes "make_retransmissions now fallback conns = (segs, conns')" and "conns_wf conns"
    and "\<And>key. recorded conns key (hist key)"
  shows "recorded conns' key (hist key)" and "seg \<in> set segs \<Longrightarrow> echoes (hist (local_key seg)) seg"
proof -
  show "recorded conns' key (hist key)"
    using make_retransmissions_get(4) [OF assms(2,1), of key] assms(3) [of key] traced_retransmitted
    by (fastforce simp: recorded_def bind_eq_Some_conv)
  show "echoes (hist (local_key seg)) seg" if "seg \<in> set segs"
  proof -
    from that make_retransmissions_segments [OF assms(2), of now fallback] assms(1)
    obtain k conn p where p: "seg = from_pairs_and_info (key_ip_pair k) (key_ports k) (ps_send_info p)"
      "conn_get conns k = Some conn" "p \<in> set (pending conn)" by (auto simp: round_segments_def)
    then obtain h where "hist k = Some h" "traced (h_iss h) (h_irs h) (h_rcvd h) (h_sent h) conn"
      using assms(3) [of k] by (auto simp: recorded_def)
    with p show ?thesis by (auto simp: traced_def intro!: echoes_in_stream)
  qed
qed

lemma recorded_effect:
  assumes "effect t conns arrived conns' segs"
    and "conns_ok (in_flight_ok 2147483648) (in_flight_ok 2147483649) conns"
    and "\<And>key. recorded conns key (hist key)"
  shows "recorded conns' key (observe key t conns arrived (hist key))"
    and "seg \<in> segs \<Longrightarrow> echoes (observe (local_key seg) t conns arrived (hist (local_key seg))) seg"
proof -
  have wf: "conns_wf conns" using assms(2) by (simp add: conns_ok_def)
  have "recorded conns' key (observe key t conns arrived (hist key)) \<and>
    (seg \<in> segs \<longrightarrow> echoes (observe (local_key seg) t conns arrived (hist (local_key seg))) seg)"
    using assms(1)
  proof cases
    case no_effect
    with assms(3) show ?thesis by (simp add: observe_def)
  next
    case (closes ss)
    have "echoes h seg" if "seg \<in> set ss" for h
      using close_established_no_payload [of "t_conn_now t" conns] closes that by (simp add: list_all_iff echoes_def)
    moreover have "recorded conns' key (hist key)"
      using close_established_get [of "t_conn_now t" conns key] closes assms(3) [of key] traced_close
      by (fastforce simp: recorded_def)
    ultimately show ?thesis using closes by (simp add: observe_def)
  next
    case (resends ss)
    with recorded_resends [OF resends(3) wf assms(3)] show ?thesis by (simp add: observe_def)
  next
    case (answers seg0 r)
    note own = recorded_own [OF assms(2) answers(3,4) assms(3)]
    have "recorded conns' key (observe key t conns (Some seg0) (hist key))"
    proof (cases "key = seg_key seg0")
      case False
      with decide_reply_other [OF wf answers(4) False] assms(3) [of key] show ?thesis
        by (simp add: recorded_def observe_def)
    qed (use own in simp)
    moreover have "local_key seg = seg_key seg0" if "seg \<in> reply_segments seg0 r"
      using that by (auto simp: reply_segments_def)
    ultimately show ?thesis using own answers(1,2) by auto
  qed
  then show "recorded conns' key (observe key t conns arrived (hist key))"
    "seg \<in> segs \<Longrightarrow> echoes (observe (local_key seg) t conns arrived (hist (local_key seg))) seg" by blast+
qed

text \<open>A client that parses the packet of a segment gets the segment back.\<close>

lemma tcp_packet_parses:
  assumes "segment_ok seg" and "seg_offset_bytes seg = TCP_HDR_MIN_LEN" and "length (tcp_wire seg) \<le> 1480"
  shows "\<exists>hdr. inner_parse (packet_of (RouterTcp seg)) = Inr (hdr, tcp_wire seg) \<and> hdr_protocol hdr = Tcp \<and>
    tcp_inner_parse (tcp_wire seg) (hdr_ip_pair hdr) = Inr seg"
  using packet_of_parses [of "RouterTcp seg"] tcp_parse_wire [OF assms(1) _ assms(2)] assms(3)
  by (simp add: reply_hdr_def ETHERNET_MTU_def)

lemma effect_segment:
  assumes "effect t conns arrived conns' segs"
    and "conns_ok (in_flight_ok 2147483648) (in_flight_ok 2147483649) conns" and "seg \<in> segs"
  shows "segment_ok seg \<and> seg_offset_bytes seg = TCP_HDR_MIN_LEN"
proof -
  have wf: "conns_wf conns" using assms(2) by (simp add: conns_ok_def)
  have built: "seg_offset_bytes (from_pairs_and_info ip_pair ports info) = TCP_HDR_MIN_LEN" for ip_pair ports info
    by (simp add: from_pairs_and_info_def)
  from assms(1) show ?thesis
  proof cases
    case no_effect
    with assms(3) show ?thesis by simp
  next
    case (closes ss)
    have "\<forall>seg \<in> set ss. seg_offset_bytes seg = TCP_HDR_MIN_LEN"
      using closes(3) built by (auto simp: close_established_def List.map_filter_def close_conn_def Let_def
          split: tcp_state.splits)
    with closes any_peer.close_established_ok(2) [OF assms(2), of "t_conn_now t"] assms(3) show ?thesis by simp
  next
    case (resends ss)
    have "seg \<in> (\<Union>key. round_segments (t_conn_now t) (t_fallback t) conns key)"
      using make_retransmissions_segments [OF wf, of "t_conn_now t" "t_fallback t"] resends assms(3) by simp
    then have "seg_offset_bytes seg = TCP_HDR_MIN_LEN" by (auto simp: round_segments_def built)
    with any_peer.make_retransmissions_ok(2) [OF assms(2) resends(3)] resends(2) assms(3) show ?thesis by blast
  next
    case (answers seg0 r)
    with any_peer.decide_reply_ok [OF assms(2), of seg0 "new_isn t" "t_conn_now t"] assms(3) built show ?thesis
      by (auto simp: reply_segments_def intro!: segment_ok_from_info)
  qed
qed

lemma recorded_loop_body:
  assumes "server_ok cfg s" and "\<And>key. recorded (srv_connections s) key (hist key)"
  shows "recorded (srv_connections (snd (loop_body t s))) key
    (observe key t (srv_connections s) (arriving t s) (hist key))"
proof -
  obtain segs where "effect t (srv_connections s) (arriving t s) (srv_connections (snd (loop_body t s))) segs"
    using loop_body_effect [OF assms(1), of t] by (auto simp: effective_def)
  from recorded_effect(1) [OF this server_ok_conns [OF assms(1)] assms(2)] show ?thesis .
qed

lemma recorded_run_loop:
  assumes "server_ok cfg s" and "\<And>key. recorded (srv_connections s) key (hist key)"
    and "run_loop ts s = (Inr False, s')"
  shows "recorded (srv_connections s') key (history key ts s (hist key))"
  using assms
proof (induction ts arbitrary: s hist)
  case (Cons t ts)
  obtain r s1 where b: "loop_body t s = (r, s1)" by fastforce
  with Cons.prems(3) have run: "run_loop ts s1 = (Inr False, s')" by (cases r) (auto split: if_splits)
  have "server_ok cfg s1" using safelyD(1) [OF safely_loop_body Cons.prems(1), of t] b by simp
  from Cons.IH [OF this _ run, of "\<lambda>key. observe key t (srv_connections s) (arriving t s) (hist key)"]
    recorded_loop_body [OF Cons.prems(1,2), of t] b show ?case by simp
qed simp

lemma history_snoc:
  assumes "run_loop ts s = (Inr False, s')"
  shows "history key (ts @ [t]) s h = observe key t (srv_connections s') (arriving t s') (history key ts s h)"
  using assms
proof (induction ts arbitrary: s h)
  case (Cons u ts)
  obtain r s1 where "loop_body u s = (r, s1)" by fastforce
  with Cons show ?case by (cases r) (auto split: if_splits)
qed simp

lemma server_run_recorded:
  assumes "server_run cfg birth ts = (Inr False, s)"
  shows "recorded (srv_connections s) key (server_history cfg birth ts key)"
    and "server_history cfg birth (ts @ [t]) key =
      observe key t (srv_connections s) (arriving t s) (server_history cfg birth ts key)"
proof -
  let ?s0 = "snd (log_to LogDivider (server_new cfg birth))"
  have run: "run_loop ts ?s0 = (Inr False, s)"
    using assms by (simp add: server_run_def log_to_def act_bind_def)
  have ok: "server_ok cfg ?s0" using safelyD(1) [OF safely_log_to server_ok_new] .
  have "recorded (srv_connections ?s0) key None" for key
    by (simp add: recorded_def log_to_def server_new_def)
  from recorded_run_loop [OF ok this run, of key]
  show "recorded (srv_connections s) key (server_history cfg birth ts key)" by (simp add: server_history_def)
  from history_snoc [OF run] show "server_history cfg birth (ts @ [t]) key =
      observe key t (srv_connections s) (arriving t s) (server_history cfg birth ts key)"
    by (simp add: server_history_def)
qed

section \<open>What is recorded as sent was written\<close>

lemma send_pkt_Inr:
  assumes "router_ok out" and "length (write_buf s) = ETHERNET_MTU" and "send_pkt t out s = (Inr (), s')"
  shows "dev_out s' = dev_out s @ [packet_of out]" and "length (router_wire out) \<le> 1480"
proof -
  show fits: "length (router_wire out) \<le> 1480"
    using send_pkt_too_long [OF assms(1,2), of t] assms(3) by fastforce
  from send_pkt_fits [OF assms(1,2) fits, of t] assms(3) show "dev_out s' = dev_out s @ [packet_of out]"
    by (cases "t_write t (length (dev_out s))") auto
qed

lemma handle_packet_Inr:
  assumes "server_ok cfg s" and "handle_packet t bs s = (Inr (), s')"
    and "parse_incoming (new_isn t) (t_conn_now t) bs s = (Inr ex, s1)" and "ex_reply_router ex = Some reply"
  shows "dev_out s' = dev_out s @ [packet_of reply]" and "length (router_wire reply) \<le> 1480"
proof -
  obtain conns where s1: "s1 = s\<lparr>srv_connections := conns\<rparr>" using parse_incoming_frame [OF assms(3)] by blast
  have "router_ok reply" using parse_incoming_ok(2) [OF assms(1,3)] assms(4) by blast
  moreover obtain l where "send_pkt t reply (s1\<lparr>srv_log := l\<rparr>) = (Inr (), s')"
    using assms(2-4)
    by (auto simp: handle_packet_def new_isn_def act_bind_eq_Inr log_to_def log_pkt_io_def)
  moreover have "length (write_buf (s1\<lparr>srv_log := l\<rparr>)) = ETHERNET_MTU" for l
    using assms(1) by (simp add: s1 server_ok_def)
  ultimately show "dev_out s' = dev_out s @ [packet_of reply]" and "length (router_wire reply) \<le> 1480"
    using send_pkt_Inr [of reply "s1\<lparr>srv_log := l\<rparr>" t s'] by (auto simp: s1)
qed

lemma segment_in_Some:
  assumes "segment_in bs = Some seg"
  shows "\<exists>hdr payload. ipv4_parse bs = Inr (hdr, payload) \<and> hdr_protocol hdr = Tcp \<and>
    tcp_parse payload (hdr_ip_pair hdr) = Inr seg \<and> segment_ok seg"
proof -
  from assms obtain hdr payload where p: "ipv4_parse bs = Inr (hdr, payload)"
      "router_parse payload (hdr_protocol hdr) (hdr_ip_pair hdr) = Inr (RouterTcp seg)"
    by (auto simp: segment_in_def split: sum.splits prod.splits protocol_router.splits)
  from router_parse_Inr(2,3) [OF p(2)] p show ?thesis by (auto simp: result_map_eq_Inr)
qed

lemma reply_written:
  assumes "server_ok cfg s" and "loop_body t s = (Inr stop, s')" and "arriving t s = Some seg"
    and "decide_reply (new_isn t) (t_conn_now t) seg (srv_connections s) = (Inr (Some info), conns')"
  shows "\<exists>reply. dev_out s' = dev_out s @ [packet_of (RouterTcp reply)] \<and> length (tcp_wire reply) \<le> 1480 \<and>
    reply = from_pairs_and_info (key_ip_pair (seg_key seg)) (key_ports (seg_key seg)) info"
proof -
  obtain bs where bs: "t_poll t (poll_timeout (t_poll_at t) (t_fallback t) s) = Inr True" "t_read t = Inr bs"
      "length bs \<le> ETHERNET_MTU" "segment_in bs = Some seg"
    using assms(3) by (auto simp: arriving_def split: sum.splits bool.splits if_splits)
  let ?s = "fill_read_buf bs s"
  let ?reply = "from_pairs_and_info (ip_swapped (seg_ip_pair seg)) (ports_swapped (seg_ports seg)) info"
  from segment_in_Some [OF bs(4)] parse_incoming_tcp [of bs _ _ seg "new_isn t" "t_conn_now t" ?s "Some info" conns'] assms(4)
  obtain ex s1 where p: "parse_incoming (new_isn t) (t_conn_now t) bs ?s = (Inr ex, s1)"
      "ex_reply_router ex = Some (RouterTcp ?reply)" by auto
  from assms(2) loop_body_packet [OF assms(1) bs(1-3)]
  obtain s2 where h: "handle_packet t bs ?s = (Inr (), s2)" "after_packet s2 = (Inr stop, s')"
    by (auto simp: act_bind_eq_Inr)
  note sent = handle_packet_Inr [OF server_ok_fill_read_buf [OF assms(1)] h(1) p]
  have "dev_out s' = dev_out s2" using after_packet_total [of s2] h(2) by auto
  moreover have "key_ip_pair (seg_key seg) = ip_swapped (seg_ip_pair seg)" "key_ports (seg_key seg) = ports_swapped (seg_ports seg)"
    by (simp_all add: key_ip_pair_def key_ports_def seg_key_def ip_swapped_def ports_swapped_def)
  ultimately show ?thesis using sent by simp
qed

lemma data_reply_on_wire:
  assumes "server_ok cfg s" and "loop_body t s = (Inr stop, s')" and "arriving t s = Some seg"
    and "decide_reply (new_isn t) (t_conn_now t) seg (srv_connections s) = (Inr (Some info), conns')"
  shows "\<exists>pkt (hdr :: local_ep ipv4_header) payload reply.
    dev_out s' = dev_out s @ [pkt] \<and> inner_parse pkt = Inr (hdr, payload) \<and>
    tcp_inner_parse payload (hdr_ip_pair hdr) = Inr (reply :: local_segment) \<and> local_key reply = seg_key seg \<and>
    seg_payload reply = si_payload info \<and> seg_seq_num reply = si_seq_num info"
proof -
  from reply_written [OF assms] obtain reply where reply:
    "dev_out s' = dev_out s @ [packet_of (RouterTcp reply)]" "length (tcp_wire reply) \<le> 1480"
    "reply = from_pairs_and_info (key_ip_pair (seg_key seg)) (key_ports (seg_key seg)) info" by auto
  have "segment_ok reply" "seg_offset_bytes reply = TCP_HDR_MIN_LEN"
    using any_peer.decide_reply_ok [OF server_ok_conns [OF assms(1)], of seg "new_isn t" "t_conn_now t"] assms(4)
    by (auto simp: reply(3) intro: segment_ok_from_info) (simp add: from_pairs_and_info_def)
  from tcp_packet_parses [OF this reply(2)] obtain hdr where
    "inner_parse (packet_of (RouterTcp reply)) = Inr (hdr, tcp_wire reply)"
    "tcp_inner_parse (tcp_wire reply) (hdr_ip_pair hdr) = Inr reply" by blast
  moreover have "local_key reply = seg_key seg" "seg_payload reply = si_payload info" "seg_seq_num reply = si_seq_num info"
    by (simp_all add: reply(3))
  ultimately show ?thesis using reply(1) by blast
qed

section \<open>A concrete exchange\<close>

lemma demo_data_steps:
  assumes "conn_table conns = []"
  shows "\<exists>info1 conns1 info2 conns2 conn.
     decide_reply (Inr 7) 0 demo_syn conns = (Inr (Some info1), conns1) \<and> si_payload info1 = None \<and>
     decide_reply (Inr 7) 0 demo_data conns1 = (Inr (Some info2), conns2) \<and>
     si_payload info2 = Some \<lparr>payload_data = [0x68, 0x69], payload_len = 2\<rparr> \<and>
     conn_get conns2 (seg_key demo_syn) = Some conn \<and> send_buffer conn = []"
proof -
  have d: "precedes (SeqPoint 7 :: local_ep seq_point) (SeqPoint 8)"
      "precedes_or_eq (SeqPoint 8 :: local_ep seq_point) (SeqPoint 8)"
      "offset_past (SeqPoint 8 :: local_ep seq_point) (SeqPoint 8) = Some (SeqOffset 0)"
    by (simp_all add: seq_simps) (simp add: seq_dist_def)
  have none: "conn_get conns k = None" for k using assms by (simp add: conn_get_def)
  show ?thesis
    by (simp add: decide_reply_def handle_unknown_conn_def from_syn_ack_def insert_syn_rcv_eq Let_def
        demo_syn_def demo_data_def seq_add_def phantom_bytes d none
        handle_known_conn_def handle_syn_rcv_def complete_handshake_def establish_def seg_key_def
        accept_payload_def act_bind_def drain_or_ack_def drain_transmittable_def
        usize_try_from_offset_def u32_of_u16_offset_def offset_saturating_sub_def
        offset_of_nonzero_def u16_try_from_def data_payload_def)
qed

lemma demo_data_run:
  "\<exists>s s' ip_pair ports info conn. server_run demo_config 0 [demo_tick (demo_packet demo_syn)] = (Inr False, s) \<and>
     loop_body (demo_tick (demo_packet demo_data)) s = (Inr False, s') \<and>
     dev_out s' = dev_out s @ [packet_of (RouterTcp (from_pairs_and_info ip_pair ports info))] \<and>
     si_payload info = Some \<lparr>payload_data = [0x68, 0x69], payload_len = 2\<rparr> \<and>
     conn_get (srv_connections s') (seg_key demo_syn) = Some conn \<and> send_buffer conn = [] \<and>
     arriving (demo_tick (demo_packet demo_data)) s = Some demo_data \<and>
     fst (decide_reply (Inr 7) 0 demo_data (srv_connections s)) = Inr (Some info)"
proof -
  obtain s0 where s0: "server_run demo_config 0 [] = (Inr False, s0)" "shutdown_deadline s0 = None"
    "conn_table (srv_connections s0) = []" using demo_start by blast
  from demo_data_steps [OF s0(3)] obtain info1 conns1 info2 conns2 conn where steps:
    "decide_reply (Inr 7) 0 demo_syn (srv_connections s0) = (Inr (Some info1), conns1)" "si_payload info1 = None"
    "decide_reply (Inr 7) 0 demo_data conns1 = (Inr (Some info2), conns2)"
    "si_payload info2 = Some \<lparr>payload_data = [0x68, 0x69], payload_len = 2\<rparr>"
    "conn_get conns2 (seg_key demo_syn) = Some conn" "send_buffer conn = []" by blast
  have fits: "length (payload_bytes (seg_payload demo_syn)) \<le> 1460" "seg_offset_bytes demo_syn = 20"
      "length (payload_bytes (seg_payload demo_data)) \<le> 1460" "seg_offset_bytes demo_data = 20"
    by (simp_all add: demo_syn_def demo_data_def)
  from demo_step [OF s0(1,2) demo_segments_ok(1) fits(1,2) steps(1)] steps(2) obtain s where s:
    "server_run demo_config 0 [demo_tick (demo_packet demo_syn)] = (Inr False, s)" "shutdown_deadline s = None"
    "srv_connections s = conns1" by auto
  have ok: "server_ok demo_config s"
    using server_run_safe(1) [of demo_config 0 "[demo_tick (demo_packet demo_syn)]"] s(1) by simp
  note parses = demo_packet_parses [OF demo_segments_ok(2) fits(3,4)]
  let ?reply = "from_pairs_and_info (ip_swapped (seg_ip_pair demo_data)) (ports_swapped (seg_ports demo_data)) info2"
  have "length (router_wire (RouterTcp ?reply)) \<le> 1480" using steps(4) by (simp add: from_pairs_and_info_def)
  from loop_body_reply [OF ok, of "demo_tick (demo_packet demo_data)" "demo_packet demo_data", OF _ _ _ parses(3) _ _ this]
    parse_incoming_tcp [OF parses(1), of demo_data "Inr 7" 0 s] parses(2) steps(3) s(2,3)
  obtain s' where "loop_body (demo_tick (demo_packet demo_data)) s = (Inr False, s')"
    "dev_out s' = dev_out s @ [packet_of (RouterTcp ?reply)]" "srv_connections s' = conns2" by auto
  moreover have "arriving (demo_tick (demo_packet demo_data)) s = Some demo_data"
    using parses by (simp add: arriving_def segment_in_def result_map_def)
  ultimately show ?thesis using s(1,3) steps(3-6) by force
qed

section \<open>Properties\<close>

text \<open>
  C1. The TCP echo as a client sees it: whenever an iteration of the loop puts a TCP segment with data
  on the wire, as the reply to a segment or as a retransmission, the data is the part of the bytes
  accepted so far on that connection that the segment's sequence number names, counted from the
  initial sequence number the server chose when the connection was opened.
\<close>

theorem wire_echo:
  fixes hdr :: "local_ep ipv4_header" and seg :: local_segment
  assumes "server_run cfg birth ts = (Inr False, s)" and "loop_body t s = (r, s')"
    and "pkt \<in> set (drop (length (dev_out s)) (dev_out s'))"
    and "inner_parse pkt = Inr (hdr, payload)" and "hdr_protocol hdr = Tcp"
    and "tcp_inner_parse payload (hdr_ip_pair hdr) = Inr seg" and "seg_payload seg \<noteq> None"
  shows "\<exists>h before after. server_history cfg birth (ts @ [t]) (local_key seg) = Some h \<and>
    h_rcvd h = before @ payload_bytes (seg_payload seg) @ after \<and>
    raw (seg_seq_num seg) = h_iss h + 1 + of_nat (length before)"
proof -
  have ok: "server_ok cfg s" using server_run_safe(1) [of cfg birth ts] assms(1) by simp
  obtain segs pkts where e: "effect t (srv_connections s) (arriving t s) (srv_connections s') segs"
    "dev_out s' = dev_out s @ pkts" "set pkts \<subseteq> tcp_packets segs \<union> packet_of ` {out. router_proto out \<noteq> Tcp}"
    using loop_body_effect [OF ok, of t] assms(2) by (auto simp: effective_def)
  have "packet_ok pkt"
  proof -
    have "list_all packet_ok (dev_out s')"
      using safelyD(1) [OF safely_loop_body ok, of t] assms(2) by (simp add: server_ok_def)
    with assms(3) show ?thesis by (auto simp: list_all_iff dest: in_set_dropD)
  qed
  have "router_proto out = Tcp" if "pkt = packet_of out" for out
    using packet_of_parses [of out] assms(4,5) that by (auto simp: reply_hdr_def)
  with e(2,3) assms(3) obtain seg0 where seg0: "seg0 \<in> segs" "pkt = packet_of (RouterTcp seg0)" by auto
  have "length (tcp_wire seg0) \<le> 1480"
    using \<open>packet_ok pkt\<close> seg0(2) by (simp add: packet_ok_def ETHERNET_MTU_def)
  with effect_segment [OF e(1) server_ok_conns [OF ok] seg0(1)] tcp_packet_parses [of seg0] assms(4,6) seg0(2)
  have "seg = seg0" by auto
  with recorded_effect(2) [OF e(1) server_ok_conns [OF ok] server_run_recorded(1) [OF assms(1)] seg0(1)]
    server_run_recorded(2) [OF assms(1)] assms(7) show ?thesis by (auto simp: echoes_def)
qed

theorem wire_echo_witness:
  "\<exists>s s' pkt (hdr :: local_ep ipv4_header) payload seg h before after.
     server_run demo_config 0 [demo_tick (demo_packet demo_syn)] = (Inr False, s) \<and>
     loop_body (demo_tick (demo_packet demo_data)) s = (Inr False, s') \<and> dev_out s' = dev_out s @ [pkt] \<and>
     inner_parse pkt = Inr (hdr, payload) \<and> tcp_inner_parse payload (hdr_ip_pair hdr) = Inr (seg :: local_segment) \<and>
     payload_bytes (seg_payload seg) = [0x68, 0x69] \<and>
     server_history demo_config 0 [demo_tick (demo_packet demo_syn), demo_tick (demo_packet demo_data)] (local_key seg) = Some h \<and>
     h_rcvd h = before @ [0x68, 0x69] @ after"
proof -
  obtain s s' ip_pair ports info where run:
    "server_run demo_config 0 [demo_tick (demo_packet demo_syn)] = (Inr False, s)"
    "loop_body (demo_tick (demo_packet demo_data)) s = (Inr False, s')"
    "dev_out s' = dev_out s @ [packet_of (RouterTcp (from_pairs_and_info ip_pair ports info))]"
    "si_payload info = Some \<lparr>payload_data = [0x68, 0x69], payload_len = 2\<rparr>" using demo_data_run by blast
  let ?seg = "from_pairs_and_info ip_pair ports info"
  have "segment_ok ?seg" "length (tcp_wire ?seg) \<le> 1480" "seg_offset_bytes ?seg = TCP_HDR_MIN_LEN"
    by (simp_all add: segment_ok_def payload_ok_def run(4)) (simp add: from_pairs_and_info_def)
  with tcp_packet_parses [of ?seg] obtain hdr where
    wire: "inner_parse (packet_of (RouterTcp ?seg)) = Inr (hdr, tcp_wire ?seg)" and
    hdr: "hdr_protocol hdr = Tcp" and tcp: "tcp_inner_parse (tcp_wire ?seg) (hdr_ip_pair hdr) = Inr ?seg" by blast
  have "\<exists>h before after. server_history demo_config 0 ([demo_tick (demo_packet demo_syn)] @ [demo_tick (demo_packet demo_data)])
      (local_key ?seg) = Some h \<and> h_rcvd h = before @ payload_bytes (seg_payload ?seg) @ after \<and>
      raw (seg_seq_num ?seg) = h_iss h + 1 + of_nat (length before)"
    by (rule wire_echo [OF run(1,2) _ wire hdr tcp]) (simp_all add: run(3,4))
  with run wire tcp show ?thesis by auto
qed

text \<open>
  C2. The connection table agrees with what came in over the wire: the history of every open
  connection has the bytes accepted from its client, in order; those are the bytes sent to it followed
  by the bytes still buffered. Until the server closes the connection itself, RCV.NXT and SND.NXT
  stand one past the initial sequence numbers and the lengths of the two streams (and one more when
  both FINs are counted).
\<close>

theorem server_streams:
  assumes "server_run cfg birth ts = (Inr False, s)" and "conn_get (srv_connections s) key = Some conn"
  shows "\<exists>h. server_history cfg birth ts key = Some h \<and> h_rcvd h = h_sent h @ send_buffer conn \<and>
    (\<not> actively_closed conn \<longrightarrow>
       raw (rcv_nxt conn) = h_irs h + 1 + of_nat (length (h_rcvd h)) + of_nat (fin_count conn) \<and>
       raw (snd_nxt conn) = h_iss h + 1 + of_nat (length (h_sent h)) + of_nat (fin_count conn))"
  using server_run_recorded(1) [OF assms(1), of key] assms(2)
  by (auto simp: recorded_def traced_def streams_ok_def)

theorem server_streams_witness:
  "\<exists>s conn h. server_run demo_config 0 [demo_tick (demo_packet demo_syn), demo_tick (demo_packet demo_data)] = (Inr False, s) \<and>
     conn_get (srv_connections s) (seg_key demo_syn) = Some conn \<and>
     server_history demo_config 0 [demo_tick (demo_packet demo_syn), demo_tick (demo_packet demo_data)] (seg_key demo_syn) = Some h \<and>
     h_sent h = h_rcvd h"
proof -
  obtain s s' conn where run:
    "server_run demo_config 0 [demo_tick (demo_packet demo_syn)] = (Inr False, s)"
    "loop_body (demo_tick (demo_packet demo_data)) s = (Inr False, s')"
    "conn_get (srv_connections s') (seg_key demo_syn) = Some conn" "send_buffer conn = []" using demo_data_run by blast
  have "server_run demo_config 0 [demo_tick (demo_packet demo_syn), demo_tick (demo_packet demo_data)] = (Inr False, s')"
    using server_run_snoc [OF run(1,2)] by simp
  from server_streams [OF this run(3)] this run(3,4) show ?thesis by auto
qed


text \<open>
  C3. Conversely, no byte is recorded as sent without having been written: in an iteration that does
  not fail, the stream sent on an open connection either stays as it is, or one packet is written
  whose segment, addressed to the client, carries exactly the bytes by which the stream grows, at the
  sequence number where it stood.
\<close>

theorem sent_stream_written:
  assumes "server_run cfg birth ts = (Inr False, s)" and "loop_body t s = (Inr stop, s')"
    and "conn_get (srv_connections s) key \<noteq> None"
    and "server_history cfg birth ts key = Some h" and "server_history cfg birth (ts @ [t]) key = Some h'"
  shows "h_sent h' = h_sent h \<or>
    (\<exists>pkt (hdr :: local_ep ipv4_header) payload seg.
       dev_out s' = dev_out s @ [pkt] \<and> inner_parse pkt = Inr (hdr, payload) \<and>
       tcp_inner_parse payload (hdr_ip_pair hdr) = Inr (seg :: local_segment) \<and> local_key seg = key \<and>
       h_sent h' = h_sent h @ payload_bytes (seg_payload seg) \<and>
       raw (seg_seq_num seg) = h_iss h + 1 + of_nat (length (h_sent h)))"
proof -
  have ok: "server_ok cfg s" using server_run_safe(1) [of cfg birth ts] assms(1) by simp
  note conns = server_ok_conns [OF ok]
  obtain conn where conn: "conn_get (srv_connections s) key = Some conn"
      "streams_ok (h_iss h) (h_irs h) conn (h_rcvd h) (h_sent h)"
    using assms(3,4) server_run_recorded(1) [OF assms(1), of key] by (auto simp: recorded_def traced_def)
  have h': "observe key t (srv_connections s) (arriving t s) (Some h) = Some h'"
    using server_run_recorded(2) [OF assms(1), of t key] assms(4,5) by simp
  show ?thesis
  proof (cases "\<exists>seg. arriving t s = Some seg \<and> seg_key seg = key")
    case False
    with h' show ?thesis by (auto simp: observe_def split: option.splits if_splits)
  next
    case True
    then obtain seg where seg: "arriving t s = Some seg" "seg_key seg = key" by blast
    then obtain bs where "segment_in bs = Some seg"
      by (auto simp: arriving_def split: sum.splits bool.splits if_splits)
    with segment_in_Some have seg_ok: "segment_ok seg" by blast
    have known: "conn_get (srv_connections s) (seg_key seg) = Some conn" using conn(1) seg(2) by simp
    obtain v conns' where v: "decide_reply (new_isn t) (t_conn_now t) seg (srv_connections s) = (Inr v, conns')"
      using known_reply [OF conns known] by blast
    have sent: "h_sent h' = h_sent h @ reply_data v" using h' seg conn(1) v by (auto simp: observe_def)
    show ?thesis
    proof (cases "reply_data v = []")
      case False
      then obtain info where info: "v = Some info" "si_payload info \<noteq> None"
        by (cases v; cases "si_payload (the v)") auto
      from data_reply_step [OF conns seg_ok known v [unfolded info(1)] info(2)] conn(2) info(2)
      have seq: "raw (si_seq_num info) = h_iss h + 1 + of_nat (length (h_sent h))"
        by (auto simp: streams_ok_def stream_step_def)
      from data_reply_on_wire [OF ok assms(2) seg(1) v [unfolded info(1)]] sent seq info(1) seg(2)
      show ?thesis by (intro disjI2) (simp, metis)
    qed (use sent in simp)
  qed
qed

theorem sent_stream_written_witness:
  "\<exists>s s' h h'. server_run demo_config 0 [demo_tick (demo_packet demo_syn)] = (Inr False, s) \<and>
     loop_body (demo_tick (demo_packet demo_data)) s = (Inr False, s') \<and>
     server_history demo_config 0 [demo_tick (demo_packet demo_syn)] (seg_key demo_syn) = Some h \<and>
     server_history demo_config 0 [demo_tick (demo_packet demo_syn), demo_tick (demo_packet demo_data)]
       (seg_key demo_syn) = Some h' \<and>
     h_sent h' = h_sent h @ [0x68, 0x69] \<and>
     (\<exists>pkt (hdr :: local_ep ipv4_header) payload seg. dev_out s' = dev_out s @ [pkt] \<and>
        inner_parse pkt = Inr (hdr, payload) \<and>
        tcp_inner_parse payload (hdr_ip_pair hdr) = Inr (seg :: local_segment) \<and>
        payload_bytes (seg_payload seg) = [0x68, 0x69])"
proof -
  let ?syn = "[demo_tick (demo_packet demo_syn)]" and ?data = "demo_tick (demo_packet demo_data)"
  obtain s s' conn' info where run: "server_run demo_config 0 ?syn = (Inr False, s)"
    "loop_body ?data s = (Inr False, s')" "conn_get (srv_connections s') (seg_key demo_syn) = Some conn'"
    "arriving ?data s = Some demo_data" "fst (decide_reply (Inr 7) 0 demo_data (srv_connections s)) = Inr (Some info)"
    "si_payload info = Some \<lparr>payload_data = [0x68, 0x69], payload_len = 2\<rparr>"
    using demo_data_run by blast
  obtain conn where conn: "conn_get (srv_connections s) (seg_key demo_syn) = Some conn"
    using demo_syn_run run(1) by auto
  obtain h where h: "server_history demo_config 0 ?syn (seg_key demo_syn) = Some h"
    using server_run_recorded(1) [OF run(1), of "seg_key demo_syn"] conn by (auto simp: recorded_def)
  obtain h' where h': "server_history demo_config 0 (?syn @ [?data]) (seg_key demo_syn) = Some h'"
    using server_run_recorded(1) [OF server_run_snoc [OF run(1,2)], of "seg_key demo_syn"] run(3)
    by (auto simp: recorded_def)
  have known: "conn_get (srv_connections s) (seg_key demo_syn) \<noteq> None" using conn by simp
  have "observe (seg_key demo_syn) ?data (srv_connections s) (Some demo_data) (Some h) = Some h'"
    using server_run_recorded(2) [OF run(1), of ?data "seg_key demo_syn"] h h' run(4) by simp
  then have "h_sent h' = h_sent h @ [0x68, 0x69]"
    using conn run(5,6) by (auto simp: observe_def new_isn_def reply_data_def)
  with sent_stream_written [OF run(1,2) known h h'] run(1,2) h h' show ?thesis by auto
qed

end
