(* ===== verification/Drain.thy ===== *)
theory Drain
  imports Echo_Stream Retries
begin

text \<open>
  What becomes of buffered data: it drains as long as the client acknowledges and offers a window, and
  it never leaves once the connection has sent its FIN or a stray segment has frozen the window.
\<close>

section \<open>Exchanges\<close>

text \<open>The replies to a list of segments, each with the random number and the time it meets.\<close>

fun exchange ::
    "(u32 result \<times> instant \<times> remote_segment) list \<Rightarrow> tcp_connections \<Rightarrow>
       send_info option list \<times> tcp_connections" where
  "exchange [] conns = ([], conns)"
| "exchange ((random, now, seg) # rest) conns =
     (let (r, conns) = decide_reply random now seg conns;
          (vs, conns) = exchange rest conns
      in (answer r # vs, conns))"

section \<open>Draining\<close>

text \<open>The client acknowledges everything sent so far, with the window of \<open>tmpl\<close>.\<close>

definition ack_all :: "remote_segment \<Rightarrow> conn_state \<Rightarrow> remote_segment" where
  "ack_all tmpl conn = tmpl\<lparr>seg_seq_num := rcv_nxt conn, seg_ack_num := snd_nxt conn,
     seg_flags := Ack, seg_payload := None\<rparr>"

text \<open>Rounds of such acknowledgments: the bytes they set free.\<close>

fun ack_rounds :: "nat \<Rightarrow> u32 result \<Rightarrow> instant \<Rightarrow> remote_segment \<Rightarrow> tcp_connections \<Rightarrow> bytes \<times> tcp_connections" where
  "ack_rounds 0 random now tmpl conns = ([], conns)"
| "ack_rounds (Suc n) random now tmpl conns =
     (case conn_get conns (seg_key tmpl) of
        None \<Rightarrow> ([], conns)
      | Some conn \<Rightarrow>
          let (r, conns) = decide_reply random now (ack_all tmpl conn) conns;
              (more, conns) = ack_rounds n random now tmpl conns
          in (reply_data (answer r) @ more, conns))"

text \<open>A window update with the sequence number the server expects next is not taken for a stale one.\<close>

definition takes_updates :: "conn_state \<Rightarrow> bool" where
  "takes_updates conn \<longleftrightarrow>
     (case tcp_state conn of
        Established s \<Rightarrow>
          precedes (snd_wl1 (window_state s)) (rcv_nxt conn) \<or>
          snd_wl1 (window_state s) = rcv_nxt conn \<and> precedes_or_eq (snd_wl2 (window_state s)) (snd_nxt conn)
      | _ \<Rightarrow> False)"

lemma ack_all_sel [simp]:
  "seg_key (ack_all tmpl conn) = seg_key tmpl" "seg_flags (ack_all tmpl conn) = Ack"
  "seg_payload (ack_all tmpl conn) = None" "seg_seq_num (ack_all tmpl conn) = rcv_nxt conn"
  "seg_ack_num (ack_all tmpl conn) = snd_nxt conn" "seg_window (ack_all tmpl conn) = seg_window tmpl"
  by (simp_all add: ack_all_def seg_key_def)

lemma established_side:
  assumes "conns_ok (in_flight_ok 2147483648) (in_flight_ok 2147483649) conns"
    and "conn_get conns key = Some conn" and "tcp_state conn = Established s"
  shows "send_side_of (in_flight_ok 2147483648) conn"
proof -
  have "conn_ok (in_flight_ok 2147483648) (in_flight_ok 2147483649) conn"
    using assms(1,2) by (auto simp: conns_ok_def)
  with assms(3) show ?thesis by (simp add: conn_ok_def)
qed

lemma ack_all_step:
  assumes "takes_updates conn" and "send_side_of (in_flight_ok 2147483648) conn"
    and "tcp_state conn = Established s"
  shows "\<exists>v conn'. handle_established now (ack_all tmpl conn) s conn = (Inr v, conn') \<and>
    reply_data v = take (unat (wrapping (seg_window tmpl))) (send_buffer conn) \<and>
    send_buffer conn' = drop (unat (wrapping (seg_window tmpl))) (send_buffer conn) \<and> takes_updates conn'"
proof -
  let ?seg = "ack_all tmpl conn" and ?w = "unat (wrapping (seg_window tmpl))"
  have fl: "flight conn \<le> 2147483648" using assms(2) by (simp add: in_flight_ok_def)
  define s2 where "s2 = (SyncedState \<lparr>snd_wnd = seg_window tmpl, snd_wl1 = rcv_nxt conn,
    snd_wl2 = snd_nxt conn\<rparr> :: established synced_state)"
  have win: "ack_window s conn ?seg = s2"
    using assms(1,3) fl
    by (simp add: ack_window_def incoming_ack_update_def Let_def takes_updates_def precedes_or_eq_iff_dist s2_def)
  define c2 where "c2 = (ack_conn conn ?seg)\<lparr>tcp_state := Established s2\<rparr>"
  have c2: "snd_una c2 = snd_nxt conn" "snd_nxt c2 = snd_nxt conn" "rcv_nxt c2 = rcv_nxt conn"
      "send_buffer c2 = send_buffer conn" "tcp_state c2 = Established s2"
    using fl by (auto simp: c2_def ack_conn_def precedes_iff_dist precedes_or_eq_iff_dist)
  have room: "window_room s2 c2 = min ?w (length (send_buffer conn))"
    by (simp add: window_room_def c2 s2_def)
  obtain v conn' where t: "transmit now s2 c2 = (v, conn')" by (cases "transmit now s2 c2")
  note sel = transmit_sel [OF t]
  have "handle_established now ?seg s conn = (Inr v, conn')"
    using t c2 win
    by (cases "window_room s2 c2 = 0")
       (simp_all add: handle_established_def incoming_ack_update_eq c2_def [symmetric] drain_room
         transmit_def room_payload_def precedes_iff_dist split: prod.splits)
  moreover have "reply_data v = take ?w (send_buffer conn)"
    using sel(6,7) room room_payload_bytes [of s2 c2] c2(4) by (cases v) (auto simp: min_def split: if_splits)
  moreover have "send_buffer conn' = drop ?w (send_buffer conn)"
    using sel(4) room c2(4) by (simp add: min_def)
  moreover have "takes_updates conn'"
  proof -
    have "unat (wrapping (len_or_default (room_payload s2 c2) :: (u32, local_ep) seq_offset)) \<le> 65535"
      using window_room_less [of s2 c2] by (subst wrapping_len_or_default [OF room_payload_ok]) simp
    then show ?thesis
      using sel(1,2,5) c2 by (simp add: takes_updates_def s2_def precedes_or_eq_iff_dist)
  qed
  ultimately show ?thesis by blast
qed

lemma ack_rounds_drain:
  assumes "conns_ok (in_flight_ok 2147483648) (in_flight_ok 2147483649) conns"
    and "conn_get conns (seg_key tmpl) = Some conn" and "takes_updates conn"
  shows "\<exists>conns' conn'. ack_rounds n random now tmpl conns
      = (take (n * unat (wrapping (seg_window tmpl))) (send_buffer conn), conns') \<and>
    conn_get conns' (seg_key tmpl) = Some conn' \<and> takes_updates conn' \<and>
    send_buffer conn' = drop (n * unat (wrapping (seg_window tmpl))) (send_buffer conn)"
  using assms
proof (induction n arbitrary: conns conn)
  case (Suc n)
  let ?w = "unat (wrapping (seg_window tmpl))"
  obtain s where s: "tcp_state conn = Established s"
    using Suc.prems(3) by (auto simp: takes_updates_def split: tcp_state.splits)
  from ack_all_step [OF Suc.prems(3) established_side [OF Suc.prems(1,2) s] s, of now tmpl] obtain v conn1 where step:
    "handle_established now (ack_all tmpl conn) s conn = (Inr v, conn1)"
    "reply_data v = take ?w (send_buffer conn)" "send_buffer conn1 = drop ?w (send_buffer conn)" "takes_updates conn1"
    by blast
  define conns1 where "conns1 = conn_set (seg_key tmpl) conn1 conns"
  have d: "decide_reply random now (ack_all tmpl conn) conns = (Inr v, conns1)"
    using Suc.prems(2) s step(1) by (simp add: decide_reply_def handle_known_conn_def conns1_def)
  have "conns_ok (in_flight_ok 2147483648) (in_flight_ok 2147483649) conns1"
    using any_peer.decide_reply_ok [OF Suc.prems(1), of "ack_all tmpl conn" random now] d by auto
  from Suc.IH [OF this _ step(4)] obtain conns' conn' where
    "ack_rounds n random now tmpl conns1 = (take (n * ?w) (send_buffer conn1), conns')"
    "conn_get conns' (seg_key tmpl) = Some conn'" "takes_updates conn'" "send_buffer conn' = drop (n * ?w) (send_buffer conn1)"
    by (auto simp: conns1_def)
  with Suc.prems(2) d step(2,3) show ?case by (simp add: take_add add.commute)
qed simp

section \<open>Muted connections\<close>

text \<open>
  A connection that sends no data: its own FIN is out, or its window is closed and only a sequence
  number past \<open>q\<close> could open it.
\<close>

definition muted :: "remote_ep seq_point option \<Rightarrow> conn_state \<Rightarrow> bool" where
  "muted q conn \<longleftrightarrow>
     (case tcp_state conn of
        SynReceived _ \<Rightarrow> False
      | Established s \<Rightarrow> q = Some (snd_wl1 (window_state s)) \<and> wrapping (snd_wnd (window_state s)) = 0
      | _ \<Rightarrow> True)"

definition leaves_muted :: "remote_ep seq_point option \<Rightarrow> remote_segment \<Rightarrow> bool" where
  "leaves_muted q seg \<longleftrightarrow> seg_flags seg \<noteq> Syn \<and>
     (\<forall>p. q = Some p \<longrightarrow> \<not> precedes p (seg_seq_num seg) \<and> p \<noteq> seg_seq_num seg)"

lemma muted_window:
  assumes "leaves_muted (Some (snd_wl1 (window_state s))) seg"
  shows "ack_window s conn seg = s"
  using assms by (simp add: leaves_muted_def ack_window_def incoming_ack_update_def Let_def)

lemma closed_window_room: "wrapping (snd_wnd (window_state s)) = 0 \<Longrightarrow> room_payload s conn = None"
  by (simp add: room_payload_None window_room_def)

lemma muted_established:
  assumes "handle_established now seg s conn = (Inr v, conn')" and "tcp_state conn = Established s"
    and "send_side_of (in_flight_ok 2147483648) conn" and "muted q conn" and "leaves_muted q seg"
  shows "muted q conn' \<and> pred_option (\<lambda>info. si_payload info = None) v"
proof -
  have q: "q = Some (snd_wl1 (window_state s))" and closed: "wrapping (snd_wnd (window_state s)) = 0"
    using assms(2,4) by (simp_all add: muted_def)
  have win: "ack_window s c seg = s" for c using assms(5) q muted_window by blast
  have fl: "flight (ack_conn c seg) \<le> 2147483648" if "send_side_of (in_flight_ok 2147483648) c" for c
    using any_peer.ack_conn_open [OF that] by (simp add: in_flight_ok_def)
  have side: "send_side_of (in_flight_ok 2147483648) (c\<lparr>rcv_nxt := r, send_buffer := b\<rparr>)"
    if "send_side_of (in_flight_ok 2147483648) c" for c r b using that by simp
  note room = closed_window_room [OF closed]
  show ?thesis
    using assms(1,2) q closed fl [OF assms(3)] side [OF assms(3)] fl
    by (auto simp: handle_established_def incoming_ack_update_eq win drain_room room muted_def pure_ack_def rst_def
        Let_def act_bind_eq_Inr drain_or_ack_def begin_passive_close_without_close_wait_def accept_payload_def
        room_payload_None split: if_splits option.splits)
qed

lemma muted_reply:
  assumes "conns_ok (in_flight_ok 2147483648) (in_flight_ok 2147483649) conns"
    and "pred_option (muted q) (conn_get conns (seg_key seg))" and "leaves_muted q seg"
    and "decide_reply random now seg conns = (r, conns')"
  shows "pred_option (muted q) (conn_get conns' (seg_key seg)) \<and> pred_option (\<lambda>info. si_payload info = None) (answer r)"
proof (cases "conn_get conns (seg_key seg)")
  case None
  with assms(3,4) show ?thesis
    by (cases "seg_flags seg") (auto simp: decide_reply_def handle_unknown_conn_def rst_def leaves_muted_def)
next
  case (Some conn)
  have wf: "conns_wf conns" and ok: "conn_ok (in_flight_ok 2147483648) (in_flight_ok 2147483649) conn"
    using assms(1) Some by (auto simp: conns_ok_def)
  have muted: "muted q conn" using assms(2) Some by simp
  show ?thesis
  proof (cases "tcp_state conn")
    case (SynReceived m)
    with muted show ?thesis by (simp add: muted_def)
  next
    case (Established s)
    obtain r1 conn1 where h: "handle_established now seg s conn = (r1, conn1)" by fastforce
    note side = established_side [OF assms(1) Some Established]
    obtain v where "r1 = Inr v" using any_peer.handle_established_ok [OF ok Established TrueI, of now seg] h by auto
    with muted_established [OF _ Established side muted assms(3), of now] h
    have "muted q conn1 \<and> pred_option (\<lambda>info. si_payload info = None) (answer r1)" by auto
    with assms(4) Some Established h wf muted show ?thesis
      by (auto simp: decide_reply_def handle_known_conn_def Let_def conn_get_remove pure_ack_def split: if_splits)
  qed (use assms(4) Some wf muted in \<open>auto simp: decide_reply_def handle_known_conn_def Let_def
      conn_get_remove pure_ack_def rst_def muted_def handle_fin_wait_1_def handle_fin_wait_2_def
      handle_closing_def handle_last_ack_def incoming_ack_update_eq split: if_splits\<close>)
qed

lemma muted_exchange:
  assumes "conns_ok (in_flight_ok 2147483648) (in_flight_ok 2147483649) conns"
    and "pred_option (muted q) (conn_get conns key)"
    and "\<forall>(random, now, seg) \<in> set later. seg_key seg = key \<and> leaves_muted q seg"
  shows "list_all (\<lambda>v. reply_data v = []) (fst (exchange later conns))"
  using assms
proof (induction later arbitrary: conns)
  case (Cons x later)
  obtain random now seg where x: "x = (random, now, seg)" by (cases x)
  obtain r conns1 where d: "decide_reply random now seg conns = (r, conns1)" by fastforce
  have seg: "seg_key seg = key" "leaves_muted q seg" using Cons.prems(3) x by auto
  have ok: "conns_ok (in_flight_ok 2147483648) (in_flight_ok 2147483649) conns1"
    using any_peer.decide_reply_ok [OF Cons.prems(1), of seg random now] d Cons.prems(1) by auto
  from muted_reply [OF Cons.prems(1) _ seg(2) d] Cons.prems(2) seg(1)
  have "pred_option (muted q) (conn_get conns1 key)" "reply_data (answer r) = []"
    by (auto simp: reply_data_def split: option.splits)
  moreover from Cons.IH [OF ok this(1)] Cons.prems(3)
  have "list_all (\<lambda>v. reply_data v = []) (fst (exchange later conns1))" by simp
  ultimately show ?case using d x by (simp add: split_beta)
qed simp

lemma passive_close_known:
  assumes "conns_ok (in_flight_ok 2147483648) (in_flight_ok 2147483649) conns" and "segment_ok seg"
    and "conn_get conns (seg_key seg) = Some conn" and "tcp_state conn = Established s"
    and "seg_flags seg = FinAck" and "seg_seq_num seg = rcv_nxt conn"
  shows "\<exists>info conns' conn'. decide_reply random now seg conns = (Inr (Some info), conns') \<and>
    conn_get conns' (seg_key seg) = Some conn' \<and> si_flags info = FinAck \<and> muted None conn' \<and>
    send_buffer conn @ payload_bytes (seg_payload seg) = payload_bytes (si_payload info) @ send_buffer conn' \<and>
    length (payload_bytes (si_payload info))
      \<le> max (unat (wrapping (seg_window seg))) (unat (wrapping (snd_wnd (window_state s))))"
proof -
  note side = established_side [OF assms(1,3,4)]
  define c1 where "c1 = (case seg_payload seg of None \<Rightarrow> conn | Some payload \<Rightarrow> accept_payload payload conn)"
  define c2 where "c2 = ack_conn (c1\<lparr>rcv_nxt := seq_add (rcv_nxt c1) REMOTE_FIN_BYTE\<rparr>) seg"
  define s2 where "s2 = ack_window s (c1\<lparr>rcv_nxt := seq_add (rcv_nxt c1) REMOTE_FIN_BYTE\<rparr>) seg"
  have "send_side_of (in_flight_ok 2147483648) c2"
    unfolding c2_def using side by (intro any_peer.ack_conn_open) (auto simp: c1_def split: option.split)
  then have fl: "flight c2 \<le> 2147483648" by (simp add: in_flight_ok_def)
  have "window_room s2 c2 \<le> max (unat (wrapping (seg_window seg))) (unat (wrapping (snd_wnd (window_state s))))"
    by (auto simp: window_room_def s2_def ack_window_def incoming_ack_update_def Let_def)
  then obtain info conn' where h: "begin_passive_close_without_close_wait now seg (seg_payload seg) s conn = (Inr info, conn')"
      "si_flags info = FinAck" "muted None conn'" "length (payload_bytes (si_payload info))
        \<le> max (unat (wrapping (seg_window seg))) (unat (wrapping (snd_wnd (window_state s))))"
    using fl by (simp add: begin_passive_close_without_close_wait_def c1_def [symmetric] Let_def
        incoming_ack_update_eq c2_def [symmetric] s2_def [symmetric] drain_room muted_def del: ack_conn_update)
  have "stream_step conn (payload_bytes (seg_payload seg)) (Some info) conn'"
    using passive_close_stream [OF h(1) _ side] assms(2) by (simp add: segment_ok_def)
  then have "send_buffer conn @ payload_bytes (seg_payload seg) = payload_bytes (si_payload info) @ send_buffer conn'"
    by (simp add: stream_step_def)
  with h assms(3-6) show ?thesis
    by (simp add: decide_reply_def handle_known_conn_def handle_established_def act_bind_def)
qed

section \<open>A client with a closed window\<close>

definition demo_held :: conn_state where
  "demo_held = \<lparr>tcp_state = Established (SyncedState \<lparr>snd_wnd = SeqOffset 0, snd_wl1 = SeqPoint 101,
       snd_wl2 = SeqPoint 8\<rparr>),
     snd_nxt = SeqPoint 8, rcv_nxt = SeqPoint 103, snd_una = SeqPoint 8, pending = [],
     send_buffer = [0x68, 0x69]\<rparr>"

lemma demo_held_sel [simp]:
  "tcp_state demo_held = Established (SyncedState \<lparr>snd_wnd = SeqOffset 0, snd_wl1 = SeqPoint 101, snd_wl2 = SeqPoint 8\<rparr>)"
  "snd_nxt demo_held = SeqPoint 8" "rcv_nxt demo_held = SeqPoint 103" "send_buffer demo_held = [0x68, 0x69]"
  by (simp_all add: demo_held_def)

lemma demo_held_reachable:
  "\<exists>conns. tcp_reach (\<lambda>_ _. True) demo_cfg 3 conns \<and> conn_get conns (seg_key demo_syn) = Some demo_held"
proof -
  let ?data = "demo_data\<lparr>seg_window := SeqOffset 0\<rparr>"
  have d: "precedes (SeqPoint 7 :: local_ep seq_point) (SeqPoint 8)"
      "precedes_or_eq (SeqPoint 8 :: local_ep seq_point) (SeqPoint 8)"
      "offset_past (SeqPoint 8 :: local_ep seq_point) (SeqPoint 8) = Some (SeqOffset 0)"
    by (simp_all add: seq_simps) (simp add: seq_dist_def)
  obtain r1 conns1 r2 conns2 where steps: "decide_reply (Inr 7) 0 demo_syn (connections_new demo_cfg 3) = (r1, conns1)"
    "decide_reply (Inr 7) 0 ?data conns1 = (r2, conns2)" by (metis surj_pair)
  have "conn_get conns2 (seg_key demo_syn) = Some demo_held"
    using steps
    by (auto simp: decide_reply_def handle_unknown_conn_def from_syn_ack_def insert_syn_rcv_eq Let_def
        demo_syn_def demo_data_def seq_add_def phantom_bytes d
        handle_known_conn_def handle_syn_rcv_def complete_handshake_def establish_def seg_key_def
        accept_payload_def act_bind_def drain_or_ack_def drain_transmittable_def
        usize_try_from_offset_def u32_of_u16_offset_def offset_saturating_sub_def
        offset_of_nonzero_def demo_held_def)
  with tcp_reach.reach_segment [OF tcp_reach.reach_segment [OF tcp_reach.reach_new TrueI steps(1)] TrueI steps(2)]
  show ?thesis by blast
qed

section \<open>Properties\<close>

text \<open>
  C9. Buffered data drains: as long as a client acknowledges everything it was sent and offers a window,
  each such acknowledgment sets free as many buffered bytes as the window allows, in order, and
  after enough of them the whole buffer has been sent. The connection must take the client's window
  updates, that is, no segment with a higher sequence number has been seen.
\<close>

theorem buffer_drains:
  assumes "tcp_reach (\<lambda>_ _. True) cfg retries conns" and "conn_get conns (seg_key tmpl) = Some conn"
    and "tcp_state conn = Established s"
    and "precedes (snd_wl1 (window_state s)) (rcv_nxt conn) \<or>
      snd_wl1 (window_state s) = rcv_nxt conn \<and> precedes_or_eq (snd_wl2 (window_state s)) (snd_nxt conn)"
  shows "\<exists>conns' conn'. ack_rounds n random now tmpl conns
      = (take (n * unat (wrapping (seg_window tmpl))) (send_buffer conn), conns') \<and>
    conn_get conns' (seg_key tmpl) = Some conn' \<and>
    (length (send_buffer conn) \<le> n * unat (wrapping (seg_window tmpl)) \<longrightarrow>
       fst (ack_rounds n random now tmpl conns) = send_buffer conn \<and> send_buffer conn' = [])"
proof -
  have "takes_updates conn" using assms(3,4) by (simp add: takes_updates_def)
  from ack_rounds_drain [OF tcp_reach_any [OF assms(1)] assms(2) this, of n random now] show ?thesis
    by auto
qed

theorem buffer_drains_witness:
  "\<exists>conns conns'. tcp_reach (\<lambda>_ _. True) demo_cfg 3 conns \<and>
     ack_rounds 2 (Inr 7) 0 (demo_syn\<lparr>seg_window := SeqOffset 1\<rparr>) conns = ([0x68, 0x69], conns')"
proof -
  let ?tmpl = "demo_syn\<lparr>seg_window := SeqOffset 1\<rparr>"
  obtain conns where c: "tcp_reach (\<lambda>_ _. True) demo_cfg 3 conns" "conn_get conns (seg_key demo_syn) = Some demo_held"
    using demo_held_reachable by blast
  have "seg_key ?tmpl = seg_key demo_syn" by (simp add: seg_key_def)
  moreover have "precedes (SeqPoint 101 :: remote_ep seq_point) (SeqPoint 103)"
    by (simp add: seq_simps) (simp add: seq_dist_def)
  ultimately show ?thesis
    using buffer_drains [OF c(1), of ?tmpl demo_held _ 2 "Inr 7" 0] c by fastforce
qed

text \<open>
  C30. Data is lost when the client closes first: its FIN is answered by a FIN with as much of the
  buffered data as the window allows, and the rest is never sent. No later segment, whatever it
  acknowledges and whatever window it offers, gets a reply with data, until the client opens a new
  connection.
\<close>

theorem fin_truncates_echo:
  assumes "tcp_reach (\<lambda>_ _. True) cfg retries conns" and "segment_ok seg"
    and "conn_get conns (seg_key seg) = Some conn" and "tcp_state conn = Established s"
    and "seg_flags seg = FinAck" and "seg_seq_num seg = rcv_nxt conn"
    and "\<forall>(random', now', x) \<in> set later. seg_key x = seg_key seg \<and> seg_flags x \<noteq> Syn"
  shows "\<exists>info conns' conn'. decide_reply random now seg conns = (Inr (Some info), conns') \<and>
    conn_get conns' (seg_key seg) = Some conn' \<and> si_flags info = FinAck \<and>
    send_buffer conn @ payload_bytes (seg_payload seg) = payload_bytes (si_payload info) @ send_buffer conn' \<and>
    (max (unat (wrapping (seg_window seg))) (unat (wrapping (snd_wnd (window_state s))))
       < length (send_buffer conn @ payload_bytes (seg_payload seg)) \<longrightarrow> send_buffer conn' \<noteq> []) \<and>
    list_all (\<lambda>v. reply_data v = []) (fst (exchange later conns'))"
proof -
  note ok = tcp_reach_any [OF assms(1)]
  from passive_close_known [OF ok assms(2-6), of random now] obtain info conns' conn' where step:
    "decide_reply random now seg conns = (Inr (Some info), conns')" "conn_get conns' (seg_key seg) = Some conn'"
    "si_flags info = FinAck" "muted None conn'"
    "send_buffer conn @ payload_bytes (seg_payload seg) = payload_bytes (si_payload info) @ send_buffer conn'"
    "length (payload_bytes (si_payload info))
      \<le> max (unat (wrapping (seg_window seg))) (unat (wrapping (snd_wnd (window_state s))))" by blast
  have "conns_ok (in_flight_ok 2147483648) (in_flight_ok 2147483649) conns'"
    using any_peer.decide_reply_ok [OF ok, of seg random now] step(1) by auto
  from muted_exchange [OF this, of None "seg_key seg" later] step(2,4) assms(7)
  have "list_all (\<lambda>v. reply_data v = []) (fst (exchange later conns'))"
    by (auto simp: leaves_muted_def)
  moreover have "send_buffer conn' \<noteq> []" if "max (unat (wrapping (seg_window seg))) (unat (wrapping (snd_wnd (window_state s))))
       < length (send_buffer conn @ payload_bytes (seg_payload seg))"
    using that step(6) unfolding step(5) by auto
  ultimately show ?thesis using step(1-3,5) by blast
qed

theorem fin_truncates_echo_witness:
  "\<exists>conns info conns' conn'. tcp_reach (\<lambda>_ _. True) demo_cfg 3 conns \<and>
     decide_reply (Inr 7) 0 (demo_syn\<lparr>seg_seq_num := SeqPoint 103, seg_ack_num := SeqPoint 8, seg_flags := FinAck,
       seg_window := SeqOffset 0\<rparr>) conns = (Inr (Some info), conns') \<and>
     conn_get conns' (seg_key demo_syn) = Some conn' \<and> send_buffer conn' \<noteq> [] \<and>
     list_all (\<lambda>v. reply_data v = []) (fst (exchange [(Inr 7, 0, demo_data)] conns'))"
proof -
  let ?seg = "demo_syn\<lparr>seg_seq_num := SeqPoint 103, seg_ack_num := SeqPoint 8, seg_flags := FinAck,
    seg_window := SeqOffset 0\<rparr>"
  obtain conns where c: "tcp_reach (\<lambda>_ _. True) demo_cfg 3 conns" "conn_get conns (seg_key demo_syn) = Some demo_held"
    using demo_held_reachable by blast
  have seg: "seg_key ?seg = seg_key demo_syn" "segment_ok ?seg" "seg_flags demo_data \<noteq> Syn" "seg_payload ?seg = None"
    by (simp_all add: seg_key_def segment_ok_def demo_syn_def demo_data_def)
  have later: "\<forall>(random', now', x) \<in> set [(Inr 7, 0, demo_data)]. seg_key x = seg_key ?seg \<and> seg_flags x \<noteq> Syn"
    using seg(1,3) by simp
  show ?thesis
    using fin_truncates_echo [OF c(1) seg(2) _ demo_held_sel(1) _ _ later, of "Inr 7" 0] c seg(1,4)
    by (simp del: exchange.simps) blast
qed

text \<open>
  C31. A segment from nowhere in the sequence space can silence a connection: a pure ACK that offers no
  window and has a sequence number far ahead of what the server expects is not checked against the
  receive window. It closes the send window, and every window the client offers afterwards with the
  sequence numbers it really uses is taken for stale: no data is sent any more.
\<close>

theorem stray_ack_silences_connection:
  assumes "tcp_reach (\<lambda>_ _. True) cfg retries conns"
    and "conn_get conns (seg_key stray) = Some conn" and "tcp_state conn = Established s"
    and "seg_flags stray = Ack" and "seg_payload stray = None" and "seg_ack_num stray = snd_nxt conn"
    and "wrapping (seg_window stray) = 0" and "precedes (snd_wl1 (window_state s)) (seg_seq_num stray)"
    and "\<forall>(random', now', x) \<in> set later. seg_key x = seg_key stray \<and> seg_flags x \<noteq> Syn \<and>
      seg_seq_num x \<noteq> seg_seq_num stray \<and> \<not> precedes (seg_seq_num stray) (seg_seq_num x)"
  shows "\<exists>conns'. decide_reply random now stray conns = (Inr None, conns') \<and>
    list_all (\<lambda>v. reply_data v = []) (fst (exchange later conns'))"
proof -
  note ok = tcp_reach_any [OF assms(1)]
  have fl: "flight conn \<le> 2147483648"
    using established_side [OF ok assms(2,3)] by (simp add: in_flight_ok_def)
  define s2 where "s2 = (SyncedState \<lparr>snd_wnd = seg_window stray, snd_wl1 = seg_seq_num stray,
    snd_wl2 = snd_nxt conn\<rparr> :: established synced_state)"
  have win: "ack_window s conn stray = s2"
    using fl assms(6,8) by (simp add: ack_window_def incoming_ack_update_def Let_def precedes_or_eq_iff_dist s2_def)
  define c2 where "c2 = (ack_conn conn stray)\<lparr>tcp_state := Established s2\<rparr>"
  have fl2: "flight c2 \<le> 2147483648"
    using fl assms(6) by (auto simp: c2_def ack_conn_def)
  have room: "room_payload s2 c2 = None" "window_room s2 c2 = 0"
    using assms(7) by (simp_all add: room_payload_None window_room_def s2_def)
  have d: "decide_reply random now stray conns = (Inr None, conn_set (seg_key stray) c2 conns)"
    using assms(2-6) fl2
    by (simp add: decide_reply_def handle_known_conn_def handle_established_def incoming_ack_update_eq win
        c2_def [symmetric] drain_room room precedes_iff_dist)
  then have "conns_ok (in_flight_ok 2147483648) (in_flight_ok 2147483649) (conn_set (seg_key stray) c2 conns)"
    using any_peer.decide_reply_ok [OF ok, of stray random now] by auto
  moreover have "pred_option (muted (Some (seg_seq_num stray))) (conn_get (conn_set (seg_key stray) c2 conns) (seg_key stray))"
    using assms(7) by (simp add: muted_def c2_def s2_def)
  moreover have "\<forall>(random, now, x) \<in> set later. seg_key x = seg_key stray \<and> leaves_muted (Some (seg_seq_num stray)) x"
    using assms(9) by (fastforce simp: leaves_muted_def)
  ultimately have "list_all (\<lambda>v. reply_data v = []) (fst (exchange later (conn_set (seg_key stray) c2 conns)))"
    by (rule muted_exchange)
  with d show ?thesis by blast
qed

theorem stray_ack_silences_connection_witness:
  "\<exists>conns conns'. tcp_reach (\<lambda>_ _. True) demo_cfg 3 conns \<and>
     decide_reply (Inr 7) 0 (demo_data\<lparr>seg_seq_num := SeqPoint 1000000, seg_window := SeqOffset 0,
       seg_payload := None\<rparr>) conns = (Inr None, conns') \<and>
     list_all (\<lambda>v. reply_data v = []) (fst (exchange [(Inr 7, 0, ack_all demo_syn demo_held)] conns'))"
proof -
  let ?stray = "demo_data\<lparr>seg_seq_num := SeqPoint 1000000, seg_window := SeqOffset 0, seg_payload := None\<rparr>"
  obtain conns where c: "tcp_reach (\<lambda>_ _. True) demo_cfg 3 conns" "conn_get conns (seg_key demo_syn) = Some demo_held"
    using demo_held_reachable by blast
  have seg: "seg_key ?stray = seg_key demo_syn" "seg_flags ?stray = Ack" "seg_ack_num ?stray = SeqPoint 8"
    by (simp_all add: seg_key_def demo_data_def)
  have "precedes (SeqPoint 101 :: remote_ep seq_point) (SeqPoint 1000000)"
      "\<not> precedes (SeqPoint 1000000 :: remote_ep seq_point) (SeqPoint 103)"
    by (simp_all add: seq_simps) (simp_all add: seq_dist_def)
  then have later: "\<forall>(random', now', x) \<in> set [(Inr 7, 0, ack_all demo_syn demo_held)]. seg_key x = seg_key ?stray \<and>
      seg_flags x \<noteq> Syn \<and> seg_seq_num x \<noteq> seg_seq_num ?stray \<and> \<not> precedes (seg_seq_num ?stray) (seg_seq_num x)"
    and ahead: "precedes (SeqPoint 101 :: remote_ep seq_point) (SeqPoint 1000000)"
    using seg(1) by simp_all
  show ?thesis
    using stray_ack_silences_connection [OF c(1) _ demo_held_sel(1) seg(2) _ _ _ _ later, of "Inr 7" 0] c seg ahead
    by (simp del: exchange.simps) blast
qed

end
