(* ===== verification/Tun.thy ===== *)
theory Tun
  imports Sys "HOL-Library.Char_ord"
begin

text \<open>
  Attaching to the TUN device (\<open>src/sys/tun.rs\<close>). The system is an argument: the kernel's interface
  table, opening a file and the \<open>TUNSETIFF\<close> request on the opened file. A C \<open>char\<close> is its bit pattern,
  which the cast of \<open>u8_to_c_char\<close> keeps whether or not \<open>char\<close> is signed.
\<close>

definition TUN_DEVICE_FILE :: string where
  "TUN_DEVICE_FILE = ''/dev/net/tun''"

definition IFNAMSIZ :: nat where
  "IFNAMSIZ = 16"

definition IFRU_FLAGS :: u16 where
  "IFRU_FLAGS = 0x1 OR 0x1000"

record ifreq =
  ifr_name :: bytes
  ifru_flags :: u16

type_synonym fd = nat

record tun_os =
  os_if_nametoindex :: "bytes \<Rightarrow> nat"
  os_open :: "string \<Rightarrow> fd io"
  os_ioctl :: "fd \<Rightarrow> ifreq \<Rightarrow> int \<times> io_error_kind"

definition u8_to_c_char :: "u8 \<Rightarrow> u8" where
  "u8_to_c_char b = b"

definition str_bytes :: "string \<Rightarrow> bytes" where
  "str_bytes s = map of_char s"

text \<open>\<open>CString::new\<close> fails on an interior NUL.\<close>

definition cstring_new :: "string \<Rightarrow> bytes option" where
  "cstring_new s = (if list_ex (\<lambda>b. b = 0) (str_bytes s) then None else Some (str_bytes s))"

text \<open>
  The zeroed name field zipped with the bytes of the name: at most \<open>IFNAMSIZ - 1\<close> of them are copied.
\<close>

fun copy_zip :: "nat \<Rightarrow> bytes \<Rightarrow> bytes \<Rightarrow> bytes" where
  "copy_zip (Suc n) (f # fs) (b # bs) = b # copy_zip n fs bs"
| "copy_zip n fs bs = fs"

definition ifreq_for :: "string \<Rightarrow> ifreq" where
  "ifreq_for device_name =
     \<lparr>ifr_name = copy_zip (IFNAMSIZ - 1) (replicate IFNAMSIZ 0) (map u8_to_c_char (str_bytes device_name)),
      ifru_flags = IFRU_FLAGS\<rparr>"

definition attach :: "tun_os \<Rightarrow> string \<Rightarrow> fd io" where
  "attach os device_name =
     (if (case cstring_new device_name of None \<Rightarrow> True | Some name \<Rightarrow> os_if_nametoindex os name = 0)
      then Inl NotFound
      else
        (case os_open os TUN_DEVICE_FILE of
           Inl k \<Rightarrow> Inl k
         | Inr tun_file \<Rightarrow>
             let (r, errno) = os_ioctl os tun_file (ifreq_for device_name)
             in if r \<noteq> -1 then Inr tun_file else Inl errno))"

section \<open>The name field\<close>

lemma copy_zip_eq: "n \<le> length fs \<Longrightarrow> copy_zip n fs bs = take n bs @ drop (length (take n bs)) fs"
  by (induction n fs bs rule: copy_zip.induct) (auto simp: drop_Cons')

lemma ifreq_for_name:
  "ifr_name (ifreq_for s) = take 15 (str_bytes s) @ replicate (16 - min 15 (length s)) 0"
  by (simp add: ifreq_for_def IFNAMSIZ_def copy_zip_eq u8_to_c_char_def [abs_def] str_bytes_def min.commute)

lemma takeWhile_name:
  assumes "list_all (\<lambda>b. b \<noteq> 0) bs" and "0 < n"
  shows "takeWhile (\<lambda>b. b \<noteq> 0) (bs @ replicate n (0 :: u8)) = bs"
  using assms by (cases n) (simp_all add: takeWhile_append list_all_iff)

section \<open>Properties\<close>

text \<open>
  C38. Attaching opens exactly the device that was asked for. It succeeds exactly when the name has no
  NUL byte, the kernel knows it, the device file opens and the driver accepts the request. That request
  asks for a TUN device without packet information; its name field has 16 bytes, the last of them
  NUL, and, names of interfaces being shorter than 16 bytes, read as a C string it is the name, not a
  truncation of it. If the kernel does not know the name, the error is that the device is not found,
  whatever opening the device file would have answered.
\<close>

theorem attach_names_device:
  assumes kernel_names: "\<And>name. os_if_nametoindex os name \<noteq> 0 \<Longrightarrow> length name < 16"
  shows "(attach os device_name = Inr f \<longleftrightarrow>
      0 \<notin> set (str_bytes device_name) \<and> os_if_nametoindex os (str_bytes device_name) \<noteq> 0 \<and>
      os_open os ''/dev/net/tun'' = Inr f \<and> fst (os_ioctl os f (ifreq_for device_name)) \<noteq> -1) \<and>
    (attach os device_name = Inr f \<longrightarrow>
      ifru_flags (ifreq_for device_name) = 0x1001 \<and>
      length (ifr_name (ifreq_for device_name)) = 16 \<and> last (ifr_name (ifreq_for device_name)) = 0 \<and>
      takeWhile (\<lambda>b. b \<noteq> 0) (ifr_name (ifreq_for device_name)) = str_bytes device_name) \<and>
    (os_if_nametoindex os (str_bytes device_name) = 0 \<longrightarrow> attach os device_name = Inl NotFound)"
proof (intro conjI impI)
  show iff: "attach os device_name = Inr f \<longleftrightarrow>
      0 \<notin> set (str_bytes device_name) \<and> os_if_nametoindex os (str_bytes device_name) \<noteq> 0 \<and>
      os_open os ''/dev/net/tun'' = Inr f \<and> fst (os_ioctl os f (ifreq_for device_name)) \<noteq> -1"
    by (auto simp: attach_def cstring_new_def list_ex_iff TUN_DEVICE_FILE_def split: if_splits sum.splits prod.splits)
  show "attach os device_name = Inl NotFound" if "os_if_nametoindex os (str_bytes device_name) = 0"
    using that by (simp add: attach_def cstring_new_def)
  show "ifru_flags (ifreq_for device_name) = 0x1001" by (simp add: ifreq_for_def IFRU_FLAGS_def)
  assume "attach os device_name = Inr f"
  with iff have name: "list_all (\<lambda>b. b \<noteq> 0) (str_bytes device_name)" "os_if_nametoindex os (str_bytes device_name) \<noteq> 0"
    by (auto simp: list_all_iff)
  have len: "length device_name < 16" using kernel_names [OF name(2)] by (simp add: str_bytes_def)
  then show "length (ifr_name (ifreq_for device_name)) = 16" "last (ifr_name (ifreq_for device_name)) = 0"
    by (simp_all add: ifreq_for_name str_bytes_def)
  have "take 15 (str_bytes device_name) = str_bytes device_name" using len by (simp add: str_bytes_def)
  then show "takeWhile (\<lambda>b. b \<noteq> 0) (ifr_name (ifreq_for device_name)) = str_bytes device_name"
    using len takeWhile_name [OF name(1)] by (simp add: ifreq_for_name)
qed

theorem attach_names_device_witness:
  "let os = \<lparr>os_if_nametoindex = \<lambda>name. if name = str_bytes ''tun0'' then 7 else 0,
         os_open = \<lambda>path. if path = ''/dev/net/tun'' then Inr 3 else Inl NotFound,
         os_ioctl = \<lambda>fd req. if fd = 3 \<and> req = ifreq_for ''tun0'' then (0, OtherIo) else (-1, OtherIo)\<rparr>
   in {name. os_if_nametoindex os name \<noteq> 0} \<subseteq> {name. length name < 16} \<and>
      attach os ''tun0'' = Inr 3 \<and> attach os ''tun1'' = Inl NotFound \<and>
      ifru_flags (ifreq_for ''tun0'') = 0x1001 \<and> length (ifr_name (ifreq_for ''tun0'')) = 16 \<and>
      takeWhile (\<lambda>b. b \<noteq> 0) (ifr_name (ifreq_for ''tun0'')) = str_bytes ''tun0''"
proof -
  define os where "os = \<lparr>os_if_nametoindex = \<lambda>name. if name = str_bytes ''tun0'' then 7 else 0,
     os_open = \<lambda>path. if path = ''/dev/net/tun'' then Inr 3 else Inl NotFound,
     os_ioctl = \<lambda>fd req. if fd = 3 \<and> req = ifreq_for ''tun0'' then (0, OtherIo) else (-1, OtherIo)\<rparr>"
  have kernel: "length name < 16" if "os_if_nametoindex os name \<noteq> 0" for name
    using that by (simp add: os_def str_bytes_def split: if_splits)
  have "0 \<notin> set (str_bytes ''tun0'')" "os_if_nametoindex os (str_bytes ''tun1'') = 0"
    by (simp_all add: os_def str_bytes_def)
  moreover have "os_if_nametoindex os (str_bytes ''tun0'') \<noteq> 0" "os_open os ''/dev/net/tun'' = Inr 3"
    "fst (os_ioctl os 3 (ifreq_for ''tun0'')) \<noteq> -1" by (simp_all add: os_def)
  ultimately have "attach os ''tun0'' = Inr 3" "attach os ''tun1'' = Inl NotFound"
    using attach_names_device [of os "''tun0''" 3] attach_names_device [of os "''tun1''" 3] kernel by blast+
  with attach_names_device [of os "''tun0''" 3] kernel show ?thesis
    unfolding Let_def os_def [symmetric] by blast
qed

end
