(* ===== verification/Program.thy ===== *)
theory Program
  imports Wire_Echo Drain Tun
begin

text \<open>
  The whole program (\<open>src/main.rs\<close>): install the signal handler, load the configuration, attach to the
  TUN device, run the server with \<open>poll::readable\<close> and the shutdown flag. What happens outside during
  one iteration is an \<open>os_tick\<close>: whether the signal handler has run by the time the flag may be
  looked at, the \<open>poll\<close> system call, and the rest as the server sees it.
\<close>

record os_tick =
  o_signal :: bool
  o_libc_poll :: "int \<Rightarrow> int \<times> io_error_kind"
  o_rest :: tick

record startup =
  st_sigemptyset :: int
  st_sigaction :: int
  st_errno :: io_error_kind
  st_debug :: bool
  st_env :: environment
  st_tun :: tun_os
  st_birth :: instant

text \<open>The two closures \<open>main\<close> passes to the server, for one iteration with the flag as it stands.\<close>

definition server_tick :: "bool \<Rightarrow> os_tick \<Rightarrow> tick" where
  "server_tick flag i = (o_rest i)\<lparr>t_poll := readable (o_libc_poll i), t_shutdown := shutdown_load flag\<rparr>"

fun server_ticks :: "bool \<Rightarrow> os_tick list \<Rightarrow> tick list" where
  "server_ticks flag [] = []"
| "server_ticks flag (i # os) =
     (let flag = (if o_signal i then shutdown_signal_handler flag else flag)
      in server_tick flag i # server_ticks flag os)"

text \<open>The result of \<open>main\<close> and the packets it wrote.\<close>

definition main :: "startup \<Rightarrow> os_tick list \<Rightarrow> bool result \<times> bytes list" where
  "main st os =
     (case shutdown_install (st_sigemptyset st) (st_sigaction st) (st_errno st) of
        Inl k \<Rightarrow> (Inl (IoError k), [])
      | Inr _ \<Rightarrow>
     (case config_load (st_debug st) (st_env st) of
        Inl e \<Rightarrow> (Inl e, [])
      | Inr config \<Rightarrow>
     (case attach (st_tun st) (tun_name config) of
        Inl k \<Rightarrow> (Inl (IoError k), [])
      | Inr tun \<Rightarrow>
          let (r, s) = server_run config (st_birth st) (server_ticks SHUTDOWN_init os)
          in (r, dev_out s))))"

section \<open>The flag over time\<close>

lemma server_ticks_notice:
  "list_ex notices_signal (server_ticks flag os) \<Longrightarrow>
     \<exists>before i after. os = before @ i # after \<and> (flag \<or> list_ex o_signal (before @ [i])) \<and>
       ((\<exists>d. readable (o_libc_poll i) d = Inl Interrupted) \<or> t_read (o_rest i) = Inl Interrupted)"
proof (induction os arbitrary: flag)
  case (Cons i os)
  let ?flag = "if o_signal i then shutdown_signal_handler flag else flag"
  have flag: "?flag \<longleftrightarrow> flag \<or> o_signal i" by (simp add: shutdown_signal_handler_def)
  show ?case
  proof (cases "notices_signal (server_tick ?flag i)")
    case True
    with flag show ?thesis
      by (intro exI [of _ "[]"] exI [of _ i] exI [of _ os])
         (auto simp: notices_signal_def server_tick_def shutdown_load_def)
  next
    case False
    with Cons.prems have "list_ex notices_signal (server_ticks ?flag os)" by (simp add: Let_def)
    from Cons.IH [OF this] obtain before i' after where
      "os = before @ i' # after" "?flag \<or> list_ex o_signal (before @ [i'])"
      "(\<exists>d. readable (o_libc_poll i') d = Inl Interrupted) \<or> t_read (o_rest i') = Inl Interrupted" by blast
    with flag show ?thesis
      by (intro exI [of _ "i # before"] exI [of _ i'] exI [of _ after]) auto
  qed
qed simp

section \<open>Properties\<close>

text \<open>
  C24. The program ends normally only on request: its start-up succeeded, SIGINT had been handled,
  and at that time or later a \<open>poll\<close> or \<open>read\<close> was interrupted; the flag alone is never looked at
  otherwise. If the start-up fails, nothing is ever written to the device.
\<close>

theorem main_ends_on_request:
  "(fst (main st os) = Inr True \<longrightarrow>
      (\<exists>config f. config_load (st_debug st) (st_env st) = Inr config \<and> attach (st_tun st) (tun_name config) = Inr f) \<and>
      (\<exists>before i after. os = before @ i # after \<and> list_ex o_signal (before @ [i]) \<and>
         ((\<exists>d. readable (o_libc_poll i) d = Inl Interrupted) \<or> t_read (o_rest i) = Inl Interrupted))) \<and>
   (snd (main st os) \<noteq> [] \<longrightarrow>
      st_sigemptyset st = 0 \<and> st_sigaction st = 0 \<and>
      (\<exists>config f. config_load (st_debug st) (st_env st) = Inr config \<and> attach (st_tun st) (tun_name config) = Inr f))"
proof (intro conjI impI)
  assume "snd (main st os) \<noteq> []"
  then show "st_sigemptyset st = 0" "st_sigaction st = 0"
    "\<exists>config f. config_load (st_debug st) (st_env st) = Inr config \<and> attach (st_tun st) (tun_name config) = Inr f"
    by (auto simp: main_def shutdown_install_def split: if_splits sum.splits)
next
  assume ok: "fst (main st os) = Inr True"
  then obtain config f where c: "config_load (st_debug st) (st_env st) = Inr config"
      "attach (st_tun st) (tun_name config) = Inr f"
      "fst (server_run config (st_birth st) (server_ticks SHUTDOWN_init os)) = Inr True"
    by (auto simp: main_def shutdown_install_def split: if_splits sum.splits prod.splits)
  then show "\<exists>config f. config_load (st_debug st) (st_env st) = Inr config \<and> attach (st_tun st) (tun_name config) = Inr f"
    by blast
  from server_ticks_notice [OF stops_only_on_signal [OF c(3)]]
  show "\<exists>before i after. os = before @ i # after \<and> list_ex o_signal (before @ [i]) \<and>
         ((\<exists>d. readable (o_libc_poll i) d = Inl Interrupted) \<or> t_read (o_rest i) = Inl Interrupted)"
    by (simp add: SHUTDOWN_init_def)
qed

definition demo_startup :: startup where
  "demo_startup = \<lparr>st_sigemptyset = 0, st_sigaction = 0, st_errno = OtherIo, st_debug = False,
     st_env = \<lambda>_. NotPresent,
     st_tun = \<lparr>os_if_nametoindex = \<lambda>_. 7, os_open = \<lambda>_. Inr 3, os_ioctl = \<lambda>_ _. (0, OtherIo)\<rparr>, st_birth = 0\<rparr>"

definition demo_interrupt :: os_tick where
  "demo_interrupt = \<lparr>o_signal = True, o_libc_poll = \<lambda>_. (-1, Interrupted), o_rest = demo_tick []\<rparr>"

theorem main_ends_on_request_witness:
  "fst (main demo_startup [demo_interrupt]) = Inr True \<and>
   (\<exists>before i after. [demo_interrupt] = before @ i # after \<and> list_ex o_signal (before @ [i]))"
proof -
  obtain config where c: "config_load False (\<lambda>_. NotPresent) = Inr config" "tun_name config = ''tun0''"
    by (simp add: config_load_def get_env_or_else_def)
  let ?t = "server_tick True demo_interrupt"
  have "attach (st_tun demo_startup) ''tun0'' = Inr 3"
    by (simp add: attach_def demo_startup_def cstring_new_def str_bytes_def)
  moreover have "fst (server_run config 0 [?t]) = Inr True"
    by (rule signal_stops_idle_server)
       (simp_all add: server_tick_def demo_interrupt_def readable_def shutdown_load_def)
  ultimately have "fst (main demo_startup [demo_interrupt]) = Inr True"
    using c by (simp add: main_def shutdown_install_def demo_startup_def demo_interrupt_def
        SHUTDOWN_init_def shutdown_signal_handler_def Let_def split_beta)
  with main_ends_on_request [of demo_startup "[demo_interrupt]"] show ?thesis by blast
qed

end
