(* ===== verification/Unit_Tests.thy ===== *)
theory Unit_Tests
  imports Config Pending_Segment
begin

text \<open>
  The unit tests of the wire formats and of the small types, replayed on the model: one bool-valued
  definition per \<open>#[test]\<close> function of \<open>src/\<close>, with the test's literal inputs and assertions, and a lemma per
  file that all of its tests pass. The definitions of the other theories are translations of the code by
  hand; that they pass the code's own tests is evidence that the translations are right.

  A test that returns \<open>Result\<close> passes when it returns \<open>Ok\<close>, so that \<open>?\<close> on an error is a failure. Where a
  test looks for a part of an error message, its counterpart looks for the constructor that stands for
  the message.
\<close>

section \<open>Assertions\<close>

text \<open>\<open>let x = r?; ...\<close> in a test, and \<open>assert_matches!(r, Err(e) if ...)\<close>\<close>

definition ok_and :: "'a result \<Rightarrow> ('a \<Rightarrow> bool) \<Rightarrow> bool" where
  "ok_and r P = (case r of Inl _ \<Rightarrow> False | Inr x \<Rightarrow> P x)"

definition err_and :: "'a result \<Rightarrow> (error \<Rightarrow> bool) \<Rightarrow> bool" where
  "err_and r P = (case r of Inl e \<Rightarrow> P e | Inr _ \<Rightarrow> False)"

lemma assertion_simps [simp]:
  "ok_and (Inr x) P = P x" "ok_and (Inl e) P = False"
  "err_and (Inr x) Q = False" "err_and (Inl e) Q = Q e"
  by (simp_all add: ok_and_def err_and_def)

text \<open>\<open>buf[i..j]\<close>\<close>

definition slice :: "bytes \<Rightarrow> nat \<Rightarrow> nat \<Rightarrow> bytes" where
  "slice buf i j = take (j - i) (drop i buf)"

definition is_too_short :: "error \<Rightarrow> bool" where
  "is_too_short e = (case e of TooShortForIpv4 _ \<Rightarrow> True | TooShortForIcmp _ \<Rightarrow> True
     | TooShortForUdp _ \<Rightarrow> True | TooShortForTcp _ \<Rightarrow> True | _ \<Rightarrow> False)"

definition is_checksum_error :: "error \<Rightarrow> bool" where
  "is_checksum_error e \<longleftrightarrow> e \<in> {InvalidIpv4Checksum, InvalidIcmpChecksum, InvalidUdpChecksum, InvalidTcpChecksum}"

section \<open>\<open>checksum.rs\<close>\<close>

definition empty_input_produces_negative_zero :: bool where
  "empty_input_produces_negative_zero \<longleftrightarrow> calculate [] = 0xFFFF"

definition zeros_produce_all_ones :: bool where
  "zeros_produce_all_ones \<longleftrightarrow> calculate (replicate 20 0) = 0xFFFF"

definition all_ones_produce_zero :: bool where
  "all_ones_produce_zero \<longleftrightarrow> calculate (replicate 20 0xFF) = 0x0000"

definition handles_odd_length :: bool where
  "handles_odd_length \<longleftrightarrow> calculate [0x12, 0x34, 0x56] = 0x97CB \<and>
     calculate [0x12, 0x34, 0x56, 0x78, 0xAB] = 0xEC52"

definition folds_carry_bits :: bool where
  "folds_carry_bits \<longleftrightarrow> calculate (replicate 4 0xFF) = 0x0000 \<and>
     calculate [0xAA, 0xAA, 0xBB, 0xBB] = 0x9999"

definition known_ipv4_hdr_without_folding :: bool where
  "known_ipv4_hdr_without_folding \<longleftrightarrow>
     calculate [0x45, 0x00, 0x00, 0x20, 0x00, 0x01, 0x00, 0x00, 0x40, 0x11,
       0x00, 0x00, 0x0A, 0x00, 0x00, 0x01, 0x0A, 0x00, 0x00, 0x02] = 0x66CA"

definition known_ipv4_hdr_with_folding :: bool where
  "known_ipv4_hdr_with_folding \<longleftrightarrow>
     calculate [0x45, 0x00, 0x00, 0x54, 0xAB, 0xCD, 0x00, 0x00, 0x40, 0x06,
       0x00, 0x00, 0xC0, 0xA8, 0xFF, 0x64, 0xC0, 0xA8, 0xFF, 0xC8] = 0x4E58"

definition roundtrip_produces_zero :: bool where
  "roundtrip_produces_zero \<longleftrightarrow>
     calculate [0x45, 0x00, 0x00, 0x3C, 0x1C, 0x46, 0x40, 0x00, 0x40, 0x06,
       0xB1, 0xE6, 0xAC, 0x10, 0x0A, 0x63, 0xAC, 0x10, 0x0A, 0x0C] = 0x0000"

definition commutative_over_16_bit_word_order :: bool where
  "commutative_over_16_bit_word_order \<longleftrightarrow>
     calculate [0x12, 0x34, 0x56, 0x78, 0x9A, 0xBC, 0xDE, 0xF0]
       = calculate [0x9A, 0xBC, 0x12, 0x34, 0xDE, 0xF0, 0x56, 0x78]"

definition accumulator_does_not_overflow_on_worst_case_large_input :: bool where
  "accumulator_does_not_overflow_on_worst_case_large_input \<longleftrightarrow>
     list_all (\<lambda>num_bytes.
       let data = replicate num_bytes 0xFF; expected = (if odd num_bytes then 0xFF else 0)
       in expected = naive_wrapping_cksum data \<and> expected = range_checked_cksum data \<and>
          expected = always_folded_cksum data \<and> expected = calculate data)
       [DEFERRED_CARRIES_MAX_BYTES - 10..<Suc DEFERRED_CARRIES_MAX_BYTES] \<and>
     list_all (\<lambda>num_bytes.
       let data = replicate num_bytes 0xFF; expected = (if odd num_bytes then 0xFF else 0)
       in expected \<noteq> naive_wrapping_cksum data \<and> expected = range_checked_cksum data \<and>
          expected = always_folded_cksum data \<and> expected = calculate data)
       [DEFERRED_CARRIES_MAX_BYTES + 1..<DEFERRED_CARRIES_MAX_BYTES + 10]"

lemma calculate_eq_iff:
  "length data < 2 ^ 63 \<Longrightarrow> calculate data = c \<longleftrightarrow> 65535 - ones_norm (word_sum data) = unat c"
  by (auto simp: word_unat_eq_iff unat_calculate)

lemma word_sum_all_ones:
  "word_sum (replicate n 0xFF) = n div 2 * 65535 + (if odd n then 65280 else 0)"
proof (induction n rule: nat_less_induct)
  case (1 n)
  show ?case
  proof (cases "n < 2")
    case True
    then have "n = 0 \<or> n = 1" by linarith
    then show ?thesis by auto
  next
    case False
    then obtain k where "n = Suc (Suc k)" by (metis Suc_le_eq le_Suc_ex not_less numeral_2_eq_2 plus_nat.simps)
    with 1 show ?thesis by auto
  qed
qed

lemma word_sum_zeros: "word_sum (replicate n 0) = 0"
  by (simp add: word_sum_0_iff)

lemma ones_norm_all_ones:
  "131000 \<le> n \<Longrightarrow> ones_norm (word_sum (replicate n 0xFF)) = (if odd n then 65280 else 65535)"
  by (rule ones_norm_unique) (auto simp: word_sum_all_ones ones_eq_def mod_mult_self3)

lemma all_ones_checksums:
  assumes "131000 \<le> n" and "n < 2 ^ 63"
  shows "calculate (replicate n 0xFF) = (if odd n then 0xFF else 0)"
    and "range_checked_cksum (replicate n 0xFF) = (if odd n then 0xFF else 0)"
    and "always_folded_cksum (replicate n 0xFF) = (if odd n then 0xFF else 0)"
    and "n \<le> DEFERRED_CARRIES_MAX_BYTES \<Longrightarrow> naive_wrapping_cksum (replicate n 0xFF) = (if odd n then 0xFF else 0)"
  using assms
  by (simp_all add: word_unat_eq_iff unat_calculate unat_range_checked_cksum unat_always_folded_cksum
      unat_naive_wrapping_cksum ones_norm_all_ones)

lemma foldl_wrapping_pairs_mod:
  assumes "\<forall>c \<in> set cs. length c = 2"
  shows "unat (foldl (\<lambda>s p. s + from_be_bytes (0 # 0 # p)) (acc :: u32) cs)
    = (unat acc + (\<Sum>c \<leftarrow> cs. word_sum c)) mod 2 ^ 32"
  using assms
proof (induction cs arbitrary: acc)
  case Nil
  show ?case using unat_u32_less [of acc] by simp
next
  case (Cons c cs)
  have "unat (acc + from_be_bytes (0 # 0 # c)) = (unat acc + word_sum c) mod 2 ^ 32"
    using Cons.prems by (simp add: unat_word_ariths unat_pair_u32)
  with Cons show ?case by (simp add: mod_add_left_eq add.assoc)
qed

lemma unat_naive_wrapping_cksum_mod:
  "unat (naive_wrapping_cksum data) = 65535 - ones_norm (word_sum data mod 2 ^ 32)"
proof -
  obtain cs r where c: "as_chunks 2 data = (cs, r)" by force
  let ?init = "(case r of [] \<Rightarrow> 0 | b # _ \<Rightarrow> from_be_bytes [0, 0, b, 0]) :: u32"
  note len = as_chunks_length [OF _ c, simplified]
  have "unat ?init = word_sum r" using len one_byte_val [of r] by simp
  moreover have "word_sum data = word_sum r + (\<Sum>c \<leftarrow> cs. word_sum c)"
    using as_chunks_word_sum [OF _ _ c] by simp
  ultimately show ?thesis
    using len foldl_wrapping_pairs_mod [of cs ?init] by (simp add: naive_wrapping_cksum_def c two_carry_folds)
qed

lemma deferred_carries_max: "DEFERRED_CARRIES_MAX_BYTES = 131074"
  by (simp add: DEFERRED_CARRIES_MAX_BYTES_def unsigned_minus_1_eq_mask mask_eq_exp_minus_1)

lemma large_input_naive_wrong:
  assumes "n \<in> {131075..<131084}"
  shows "naive_wrapping_cksum (replicate n 0xFF) \<noteq> (if odd n then 0xFF else 0)"
proof -
  have "n = 131075 \<or> n = 131076 \<or> n = 131077 \<or> n = 131078 \<or> n = 131079 \<or> n = 131080 \<or>
      n = 131081 \<or> n = 131082 \<or> n = 131083" using assms by auto
  then show ?thesis
    by (elim disjE)
       (simp_all add: word_unat_eq_iff unat_naive_wrapping_cksum_mod word_sum_all_ones ones_norm_def)
qed

lemmas checksum_tests = empty_input_produces_negative_zero_def zeros_produce_all_ones_def
  all_ones_produce_zero_def handles_odd_length_def folds_carry_bits_def known_ipv4_hdr_without_folding_def
  known_ipv4_hdr_with_folding_def roundtrip_produces_zero_def commutative_over_16_bit_word_order_def

lemma checksum_tests_pass:
  "empty_input_produces_negative_zero \<and> zeros_produce_all_ones \<and> all_ones_produce_zero \<and>
   handles_odd_length \<and> folds_carry_bits \<and> known_ipv4_hdr_without_folding \<and> known_ipv4_hdr_with_folding \<and>
   roundtrip_produces_zero \<and> commutative_over_16_bit_word_order"
  by (intro conjI; unfold checksum_tests)
     (simp_all add: calculate_eq_iff unat_calculate ones_norm_def word_sum_zeros word_sum_all_ones)

lemma checksum_worst_case_test_passes: "accumulator_does_not_overflow_on_worst_case_large_input"
proof -
  have "list_all (\<lambda>n. let data = replicate n 0xFF; expected = (if odd n then 0xFF else 0)
       in expected = naive_wrapping_cksum data \<and> expected = range_checked_cksum data \<and>
          expected = always_folded_cksum data \<and> expected = calculate data) [131064..<131075]"
    by (auto simp: list_all_iff Let_def all_ones_checksums deferred_carries_max)
  moreover have "list_all (\<lambda>n. let data = replicate n 0xFF; expected = (if odd n then 0xFF else 0)
       in expected \<noteq> naive_wrapping_cksum data \<and> expected = range_checked_cksum data \<and>
          expected = always_folded_cksum data \<and> expected = calculate data) [131075..<131084]"
    unfolding list_all_iff Let_def
  proof (intro ballI conjI)
    fix n assume n: "n \<in> set [131075..<131084 :: nat]"
    then have "n \<in> {131075..<131084}" by (simp only: set_upt)
    then show "(if odd n then 0xFF else 0) \<noteq> naive_wrapping_cksum (replicate n 0xFF)"
      by (rule large_input_naive_wrong [symmetric])
    have "131000 \<le> n" "n < 2 ^ 63" using n by auto
    note c = all_ones_checksums(1-3) [OF this]
    show "(if odd n then 0xFF else 0) = range_checked_cksum (replicate n 0xFF)" by (simp only: c)
    show "(if odd n then 0xFF else 0) = always_folded_cksum (replicate n 0xFF)" by (simp only: c)
    show "(if odd n then 0xFF else 0) = calculate (replicate n 0xFF)" by (simp only: c)
  qed
  ultimately show ?thesis
    by (simp add: accumulator_does_not_overflow_on_worst_case_large_input_def deferred_carries_max)
qed

section \<open>\<open>ipv4_header.rs\<close>\<close>

text \<open>The test-only entry points, for the directions production code does not use.\<close>

definition ipv4_test_parse_local :: "bytes \<Rightarrow> (local_ep ipv4_header \<times> bytes) result" where
  "ipv4_test_parse_local data = inner_parse data"

definition test_try_new_remote ::
    "protocol \<Rightarrow> remote_ep ipv4_addr_pair \<Rightarrow> u16 \<Rightarrow> remote_ep ipv4_header result" where
  "test_try_new_remote protocol ip_pair proto_len = inner_try_new protocol ip_pair proto_len"

definition test_write_into_remote :: "remote_ep ipv4_header \<Rightarrow> bytes \<Rightarrow> bytes" where
  "test_write_into_remote h buf = inner_write_into h buf"

definition correctly_parses_valid_pkt :: bool where
  "correctly_parses_valid_pkt \<longleftrightarrow>
     (let data = [0x45, 0x00, 0x00, 0x3C, 0x1C, 0x46, 0x40, 0x00, 0x40, 0x06, 0xA6, 0x4D,
        192, 168, 1, 100, 172, 16, 10, 12]
      in ok_and (ipv4_parse data) (\<lambda>(hdr, payload).
           total_len hdr = 60 \<and> hdr_protocol hdr = Tcp \<and>
           ip_src (hdr_ip_pair hdr) = Ipv4Addr 192 168 1 100 \<and>
           ip_dst (hdr_ip_pair hdr) = Ipv4Addr 172 16 10 12 \<and> payload = drop 20 data))"

definition ipv4_parsing_fails_if_too_short :: bool where
  "ipv4_parsing_fails_if_too_short \<longleftrightarrow> err_and (ipv4_parse [0x45, 0x00, 0x00]) is_too_short"

definition ipv4_parsing_fails_on_invalid_cksum :: bool where
  "ipv4_parsing_fails_on_invalid_cksum \<longleftrightarrow>
     err_and (ipv4_parse [0x45, 0x00, 0x00, 0x3C, 0x1C, 0x46, 0x40, 0x00, 0x40, 0x06, 0x00, 0x00,
       192, 168, 1, 100, 172, 16, 10, 12]) is_checksum_error"

definition parsing_fails_if_not_ipv4 :: bool where
  "parsing_fails_if_not_ipv4 \<longleftrightarrow>
     err_and (ipv4_parse [0x60, 0x00, 0x00, 0x00, 0x00, 0x14, 0x06, 0x40, 0x20, 0x01, 0x0D, 0xB8,
       0x00, 0x00, 0x00, 0x00, 0x00, 0x00, 0x00, 0x00, 0x00, 0x00, 0x00, 0x01]) (\<lambda>e. e = Ipv6Packet)"

definition creates_valid_ipv4_hdr_for_reply :: bool where
  "creates_valid_ipv4_hdr_for_reply \<longleftrightarrow>
     ok_and (ipv4_parse [0x45, 0x00, 0x00, 0x3C, 0x1C, 0x46, 0x40, 0x00, 0x40, 0x11, 0xA6, 0x42,
       192, 168, 1, 100, 172, 16, 10, 12]) (\<lambda>(hdr, _).
     ok_and (ipv4_try_new (hdr_protocol hdr) (ip_swapped (hdr_ip_pair hdr)) (48 - 20)) (\<lambda>reply_hdr.
       let reply = ipv4_write_into reply_hdr (replicate ETHERNET_MTU 0)
       in total_len reply_hdr = 48 \<and>
          reply ! 0 = 0x45 \<and> reply ! 1 = 0x00 \<and> slice reply 2 4 = [0x00, 0x30] \<and>
          slice reply 4 6 = [0x00, 0x00] \<and> slice reply 6 8 = [0x40, 0x00] \<and>
          reply ! 8 = 64 \<and> reply ! 9 = 0x11 \<and>
          slice reply 12 16 = [172, 16, 10, 12] \<and> slice reply 16 20 = [192, 168, 1, 100] \<and>
          calculate (slice reply 0 20) = 0))"

lemma correctly_parses_valid_pkt_passes: "correctly_parses_valid_pkt"
  by (simp add: correctly_parses_valid_pkt_def ipv4_parse_def inner_parse_def IPV4_HDR_MIN_LEN_def Let_def
      calculate_0_iff protocol_try_from_def from_be_bytes_def)

lemma ipv4_parse_failures_pass:
  "ipv4_parsing_fails_if_too_short \<and> ipv4_parsing_fails_on_invalid_cksum \<and> parsing_fails_if_not_ipv4"
  by (simp add: ipv4_parsing_fails_if_too_short_def ipv4_parsing_fails_on_invalid_cksum_def
      parsing_fails_if_not_ipv4_def ipv4_parse_def inner_parse_def IPV4_HDR_MIN_LEN_def Let_def
      calculate_0_iff is_too_short_def is_checksum_error_def)

lemma ipv4_reply_test_passes: "creates_valid_ipv4_hdr_for_reply"
proof -
  let ?h = "\<lparr>total_len = 48, hdr_protocol = Udp, hdr_ip_pair = Ipv4AddrPair (Ipv4Addr 172 16 10 12) (Ipv4Addr 192 168 1 100)\<rparr>
    :: local_ep ipv4_header"
  have "ipv4_write_into ?h (replicate ETHERNET_MTU 0) = ipv4_hdr_bytes ?h @ drop 20 (replicate ETHERNET_MTU 0)"
    unfolding ipv4_write_into_def by (rule inner_write_into_eq) (simp add: ETHERNET_MTU_def)
  moreover obtain x y where "ipv4_hdr_bytes ?h = [0x45, 0, 0, 48, 0, 0, 0x40, 0, 64, 17, x, y,
      172, 16, 10, 12, 192, 168, 1, 100]"
    by (simp add: ipv4_hdr_bytes_def ipv4_fields_def ipv4_addrs_def u16_to_be_bytes_def)
  moreover have "ipv4_parse [0x45, 0x00, 0x00, 0x3C, 0x1C, 0x46, 0x40, 0x00, 0x40, 0x11, 0xA6, 0x42,
      192, 168, 1, 100, 172, 16, 10, 12]
    = Inr (\<lparr>total_len = 60, hdr_protocol = Udp,
        hdr_ip_pair = Ipv4AddrPair (Ipv4Addr 192 168 1 100) (Ipv4Addr 172 16 10 12)\<rparr>, [])"
    by (simp add: ipv4_parse_def inner_parse_def IPV4_HDR_MIN_LEN_def Let_def calculate_0_iff
        protocol_try_from_def from_be_bytes_def)
  moreover have "ipv4_try_new Udp (Ipv4AddrPair (Ipv4Addr 172 16 10 12) (Ipv4Addr 192 168 1 100)) (48 - 20) = Inr ?h"
    by (simp add: ipv4_try_new_def inner_try_new_def try_add_u16_def IPV4_HDR_MIN_LEN_def)
  ultimately show ?thesis
    using calculate_ipv4_hdr_bytes [of ?h]
    by (simp add: creates_valid_ipv4_hdr_for_reply_def Let_def slice_def ip_swapped_def)
qed

section \<open>\<open>udp.rs\<close>\<close>

definition REMOTE_TO_LOCAL_IP_PAIR :: "remote_ep ipv4_addr_pair" where
  "REMOTE_TO_LOCAL_IP_PAIR = Ipv4AddrPair (Ipv4Addr 10 0 0 2) (Ipv4Addr 10 0 0 1)"

definition LOCAL_TO_REMOTE_IP_PAIR :: "local_ep ipv4_addr_pair" where
  "LOCAL_TO_REMOTE_IP_PAIR = ip_swapped REMOTE_TO_LOCAL_IP_PAIR"

definition hello_payload :: bytes where
  "hello_payload = [0x48, 0x65, 0x6C, 0x6C, 0x6F, 0x21, 0x21, 0x21]"

definition correctly_parses_valid_datagram :: bool where
  "correctly_parses_valid_datagram \<longleftrightarrow>
     ok_and (udp_parse [0x04, 0xD2, 0x00, 0x35, 0x00, 0x10, 0xA1, 0xB0, 0x48, 0x65, 0x6C, 0x6C, 0x6F, 0x21, 0x21, 0x21]
       REMOTE_TO_LOCAL_IP_PAIR) (\<lambda>dgram. udp_ports dgram = PortPair 1234 53 \<and> udp_payload dgram = hello_payload)"

definition udp_parsing_fails_when_too_short :: bool where
  "udp_parsing_fails_when_too_short \<longleftrightarrow>
     err_and (udp_parse [0x04, 0xD2, 0x00] REMOTE_TO_LOCAL_IP_PAIR) is_too_short"

definition parsing_fails_on_invalid_nonzero_checksum :: bool where
  "parsing_fails_on_invalid_nonzero_checksum \<longleftrightarrow>
     err_and (udp_parse [0x04, 0xD2, 0x00, 0x35, 0x00, 0x10, 0xBE, 0xEF, 0x48, 0x65, 0x6C, 0x6C, 0x6F, 0x21, 0x21, 0x21]
       REMOTE_TO_LOCAL_IP_PAIR) is_checksum_error"

definition parsing_accepts_zero_checksum_as_not_computed :: bool where
  "parsing_accepts_zero_checksum_as_not_computed \<longleftrightarrow>
     ok_and (udp_parse [0x04, 0xD2, 0x00, 0x35, 0x00, 0x10, 0x00, 0x00, 0x48, 0x65, 0x6C, 0x6C, 0x6F, 0x21, 0x21, 0x21]
       REMOTE_TO_LOCAL_IP_PAIR) (\<lambda>dgram. udp_ports dgram = PortPair 1234 53 \<and> udp_payload dgram = hello_payload)"

definition parsing_handles_empty_payload :: bool where
  "parsing_handles_empty_payload \<longleftrightarrow>
     ok_and (udp_parse [0x1F, 0x90, 0x00, 0x50, 0x00, 0x08, 0xCB, 0xFB] REMOTE_TO_LOCAL_IP_PAIR)
       (\<lambda>dgram. udp_ports dgram = PortPair 8080 80 \<and> length (udp_payload dgram) = 0)"

definition extracts_ports_correctly :: bool where
  "extracts_ports_correctly \<longleftrightarrow>
     ok_and (udp_parse [0xFF, 0xFF, 0x00, 0x01, 0x00, 0x0C, 0x03, 0xF9, 0x74, 0x65, 0x73, 0x74]
       REMOTE_TO_LOCAL_IP_PAIR) (\<lambda>dgram. udp_ports dgram = PortPair 65535 1)"

definition transmits_all_ones_when_computed_cksum_is_zero :: bool where
  "transmits_all_ones_when_computed_cksum_is_zero \<longleftrightarrow>
     (let dgram = \<lparr>udp_ip_pair = LOCAL_TO_REMOTE_IP_PAIR, udp_ports = PortPair 1234 80, udp_payload = [0xE6, 0xB5]\<rparr>;
          (r, buf) = udp_write_into dgram (replicate ETHERNET_MTU 0)
      in ok_and r (\<lambda>_. slice buf 6 8 = [0xFF, 0xFF]))"

text \<open>The reply is written behind the 20 bytes of the IPv4 header, \<open>&mut reply_buf[20..]\<close>.\<close>

definition udp_creates_valid_echo_reply :: bool where
  "udp_creates_valid_echo_reply \<longleftrightarrow>
     ok_and (udp_parse [0x04, 0xD2, 0x00, 0x35, 0x00, 0x10, 0xA1, 0xB0, 0x48, 0x65, 0x6C, 0x6C, 0x6F, 0x21, 0x21, 0x21]
       REMOTE_TO_LOCAL_IP_PAIR) (\<lambda>dgram.
       let reply = udp_create_reply dgram;
           (r, tail) = udp_write_into reply (drop 20 (replicate ETHERNET_MTU 0));
           reply_buf = replicate 20 0 @ tail
       in ok_and r (\<lambda>udp_len.
            udp_ip_pair reply = ip_swapped REMOTE_TO_LOCAL_IP_PAIR \<and>
            slice reply_buf 20 22 = [0x00, 0x35] \<and> slice reply_buf 22 24 = [0x04, 0xD2] \<and>
            slice reply_buf 24 26 = [0x00, 0x10] \<and> slice reply_buf 28 36 = hello_payload \<and>
            udp_len = 8 + 8 \<and>
            ok_and (pseudo_hdr_cksum (slice reply_buf 20 36) REMOTE_TO_LOCAL_IP_PAIR Udp) (\<lambda>c. c = 0)))"

lemmas udp_test_defs = REMOTE_TO_LOCAL_IP_PAIR_def LOCAL_TO_REMOTE_IP_PAIR_def hello_payload_def
  udp_parse_def UDP_HDR_LEN_def Let_def from_be_bytes_def pseudo_hdr_cksum_ok ETHERNET_MTU_def
  calculate_0_iff pseudo_header_def is_too_short_def is_checksum_error_def u16_to_be_bytes_def

lemma correctly_parses_valid_datagram_passes: "correctly_parses_valid_datagram"
  by (simp add: correctly_parses_valid_datagram_def udp_test_defs)

lemma udp_parse_failures_pass:
  "udp_parsing_fails_when_too_short \<and> parsing_fails_on_invalid_nonzero_checksum"
  by (simp add: udp_parsing_fails_when_too_short_def parsing_fails_on_invalid_nonzero_checksum_def udp_test_defs)

lemma udp_parse_successes_pass:
  "parsing_accepts_zero_checksum_as_not_computed \<and> parsing_handles_empty_payload \<and> extracts_ports_correctly"
  by (simp add: parsing_accepts_zero_checksum_as_not_computed_def parsing_handles_empty_payload_def
      extracts_ports_correctly_def udp_test_defs)

lemma udp_all_ones_test_passes: "transmits_all_ones_when_computed_cksum_is_zero"
proof -
  let ?d = "\<lparr>udp_ip_pair = LOCAL_TO_REMOTE_IP_PAIR, udp_ports = PortPair 1234 80, udp_payload = [0xE6, 0xB5]\<rparr>"
  have "udp_cksum ?d = 0xFFFF"
    by (simp add: udp_cksum_def udp_fields_def udp_test_defs ip_swapped_def)
  then have "slice (udp_wire ?d @ xs) 6 8 = [0xFF, 0xFF]" for xs
    by (simp add: udp_wire_def udp_fields_def slice_def u16_to_be_bytes_def)
  then show ?thesis
    using udp_write_into_fits [of ?d "replicate ETHERNET_MTU 0"]
    by (simp add: transmits_all_ones_when_computed_cksum_is_zero_def ETHERNET_MTU_def)
qed

lemma udp_reply_test_passes: "udp_creates_valid_echo_reply"
proof -
  let ?d = "\<lparr>udp_ip_pair = REMOTE_TO_LOCAL_IP_PAIR, udp_ports = PortPair 1234 53, udp_payload = hello_payload\<rparr>"
  let ?r = "udp_create_reply ?d"
  have p: "udp_parse [0x04, 0xD2, 0x00, 0x35, 0x00, 0x10, 0xA1, 0xB0, 0x48, 0x65, 0x6C, 0x6C, 0x6F, 0x21, 0x21, 0x21] REMOTE_TO_LOCAL_IP_PAIR = Inr ?d"
    by (simp add: udp_test_defs)
  have w: "udp_write_into ?r (replicate (ETHERNET_MTU - 20) 0) = (Inr 16, udp_wire ?r @ replicate 1464 0)"
    using udp_write_into_fits [of ?r "replicate 1480 0"] by (simp add: hello_payload_def ETHERNET_MTU_def)
  have c: "udp_cksum ?r = 0xA1B0"
    by (simp add: udp_cksum_def udp_fields_def udp_test_defs ip_swapped_def ports_swapped_def
        calculate_eq_iff ones_norm_def)
  have "udp_wire ?r = [0, 0x35, 0x04, 0xD2, 0, 0x10, 0xA1, 0xB0] @ hello_payload"
    by (simp add: udp_wire_def c) (simp add: udp_fields_def u16_to_be_bytes_def hello_payload_def ports_swapped_def)
  then show ?thesis
    by (simp add: udp_creates_valid_echo_reply_def p w slice_def)
       (simp add: udp_test_defs)
qed

section \<open>\<open>icmp_echo.rs\<close>\<close>

definition correctly_parses_valid_request :: bool where
  "correctly_parses_valid_request \<longleftrightarrow>
     ok_and (icmp_parse [8, 0, 0x0B, 0x11, 0x12, 0x34, 0x56, 0x78, 0x41, 0x42, 0x43] REMOTE_TO_LOCAL_IP_PAIR)
       (\<lambda>msg. icmp_identifier msg = 0x1234 \<and> icmp_sequence msg = 0x5678 \<and> icmp_payload msg = [0x41, 0x42, 0x43])"

definition icmp_parsing_fails_when_too_short :: bool where
  "icmp_parsing_fails_when_too_short \<longleftrightarrow>
     err_and (icmp_parse [8, 0, 0x3A, 0x4B, 0x12] REMOTE_TO_LOCAL_IP_PAIR) is_too_short"

definition is_not_an_echo_request :: "error \<Rightarrow> bool" where
  "is_not_an_echo_request e = (case e of NotAnEchoRequest _ _ \<Rightarrow> True | _ \<Rightarrow> False)"

definition parsing_fails_when_wrong_icmp_type :: bool where
  "parsing_fails_when_wrong_icmp_type \<longleftrightarrow>
     err_and (icmp_parse [0, 0, 0x97, 0x53, 0x12, 0x34, 0x56, 0x78] REMOTE_TO_LOCAL_IP_PAIR) is_not_an_echo_request"

definition parsing_fails_when_wrong_icmp_code :: bool where
  "parsing_fails_when_wrong_icmp_code \<longleftrightarrow>
     err_and (icmp_parse [8, 1, 0x8F, 0x52, 0x12, 0x34, 0x56, 0x78] REMOTE_TO_LOCAL_IP_PAIR) is_not_an_echo_request"

definition icmp_parsing_fails_on_invalid_cksum :: bool where
  "icmp_parsing_fails_on_invalid_cksum \<longleftrightarrow>
     err_and (icmp_parse [8, 0, 0x3A, 0x4B, 0x12, 0x34, 0x56, 0x78, 0x41, 0x42, 0x43] REMOTE_TO_LOCAL_IP_PAIR)
       is_checksum_error"

definition handles_empty_payload :: bool where
  "handles_empty_payload \<longleftrightarrow>
     ok_and (icmp_parse [8, 0, 0xF7, 0xFE, 0x00, 0x00, 0x00, 0x01] REMOTE_TO_LOCAL_IP_PAIR)
       (\<lambda>msg. icmp_identifier msg = 0 \<and> icmp_sequence msg = 1 \<and> length (icmp_payload msg) = 0)"

definition icmp_creates_valid_echo_reply :: bool where
  "icmp_creates_valid_echo_reply \<longleftrightarrow>
     ok_and (icmp_parse [8, 0, 0x6B, 0x81, 0x12, 0x34, 0x56, 0x78, 0x48, 0x65, 0x6C, 0x6C, 0x6F]
       REMOTE_TO_LOCAL_IP_PAIR) (\<lambda>msg.
       let reply = icmp_create_reply msg;
           (r, tail) = icmp_write_into reply (drop 20 (replicate ETHERNET_MTU 0));
           reply_buf = replicate 20 0 @ tail
       in ok_and r (\<lambda>icmp_len.
            icmp_ip_pair reply = ip_swapped REMOTE_TO_LOCAL_IP_PAIR \<and>
            reply_buf ! 20 = 0 \<and> reply_buf ! 21 = 0 \<and>
            slice reply_buf 24 26 = [0x12, 0x34] \<and> slice reply_buf 26 28 = [0x56, 0x78] \<and>
            slice reply_buf 28 33 = [0x48, 0x65, 0x6C, 0x6C, 0x6F] \<and> icmp_len = 8 + 5 \<and>
            ok_and (try_get_range reply_buf 20 (20 + unat icmp_len)) (\<lambda>msg. calculate msg = 0)))"

lemmas icmp_test_defs = icmp_parse_def ICMP_HDR_LEN_def ICMP_TYPE_ECHO_REQUEST_def ICMP_CODE_ECHO_def Let_def
  from_be_bytes_def calculate_0_iff is_too_short_def is_checksum_error_def is_not_an_echo_request_def

lemma icmp_parse_successes_pass: "correctly_parses_valid_request \<and> handles_empty_payload"
  by (simp add: correctly_parses_valid_request_def handles_empty_payload_def icmp_test_defs)

lemma icmp_parse_failures_pass:
  "icmp_parsing_fails_when_too_short \<and> parsing_fails_when_wrong_icmp_type \<and>
   parsing_fails_when_wrong_icmp_code \<and> icmp_parsing_fails_on_invalid_cksum"
  by (simp add: icmp_parsing_fails_when_too_short_def parsing_fails_when_wrong_icmp_type_def
      parsing_fails_when_wrong_icmp_code_def icmp_parsing_fails_on_invalid_cksum_def icmp_test_defs)

lemma icmp_reply_test_passes: "icmp_creates_valid_echo_reply"
proof -
  let ?m = "\<lparr>icmp_ip_pair = REMOTE_TO_LOCAL_IP_PAIR, icmp_type = 8, icmp_identifier = 0x1234,
    icmp_sequence = 0x5678, icmp_payload = [0x48, 0x65, 0x6C, 0x6C, 0x6F]\<rparr>"
  let ?r = "icmp_create_reply ?m"
  have p: "icmp_parse [8, 0, 0x6B, 0x81, 0x12, 0x34, 0x56, 0x78, 0x48, 0x65, 0x6C, 0x6C, 0x6F]
      REMOTE_TO_LOCAL_IP_PAIR = Inr ?m"
    by (simp add: icmp_test_defs)
  have len: "length (icmp_wire ?r) = 13" by (simp add: icmp_create_reply_def)
  then have w: "icmp_write_into ?r (replicate (ETHERNET_MTU - 20) 0) = (Inr 13, icmp_wire ?r @ replicate 1467 0)"
    using icmp_write_into_fits [of ?r "replicate 1480 0"] by (simp add: ETHERNET_MTU_def del: length_icmp_wire)
  obtain x y where wire: "icmp_wire ?r = [0, 0, x, y, 0x12, 0x34, 0x56, 0x78, 0x48, 0x65, 0x6C, 0x6C, 0x6F]"
    by (simp add: icmp_wire_def icmp_tail_def icmp_create_reply_def ICMP_TYPE_ECHO_REPLY_def u16_to_be_bytes_def)
  have "calculate (icmp_wire ?r) = 0"
    using icmp_wire_verifies [of ?r] len by (simp add: ETHERNET_MTU_def del: length_icmp_wire)
  moreover have "icmp_ip_pair ?r = ip_swapped REMOTE_TO_LOCAL_IP_PAIR" by (simp add: icmp_create_reply_def)
  ultimately show ?thesis
    unfolding icmp_creates_valid_echo_reply_def p
    by (simp add: w slice_def wire try_get_range_def Let_def nth_append)
qed

section \<open>\<open>protocol/tcp/seq_space.rs\<close>\<close>

text \<open>The operations the source has for its tests only.\<close>

definition offset_const_add :: "(u32, 's) seq_offset \<Rightarrow> (u32, 's) seq_offset \<Rightarrow> (u32, 's) seq_offset" where
  "offset_const_add a rhs = SeqOffset (wrapping a + wrapping rhs)"

definition offset_add :: "(u32, 's) seq_offset \<Rightarrow> (u32, 's) seq_offset \<Rightarrow> (u32, 's) seq_offset" where
  "offset_add a rhs = SeqOffset (wrapping a + wrapping rhs)"

definition point_const_add :: "'s seq_point \<Rightarrow> (u32, 's) seq_offset \<Rightarrow> 's seq_point" where
  "point_const_add p rhs = SeqPoint (raw p + wrapping rhs)"

definition point_const_sub :: "'s seq_point \<Rightarrow> (u32, 's) seq_offset \<Rightarrow> 's seq_point" where
  "point_const_sub p rhs = SeqPoint (raw p - wrapping rhs)"

definition seq_sub :: "'s seq_point \<Rightarrow> (u32, 's) seq_offset \<Rightarrow> 's seq_point" where
  "seq_sub p rhs = SeqPoint (raw p - wrapping rhs)"

definition point_equality :: bool where
  "point_equality \<longleftrightarrow>
     list_all (\<lambda>num. num = num) (map (SeqPoint :: u32 \<Rightarrow> local_ep seq_point) [0, 1, 42, push_bit 31 1, 0xFFFFFFFF])"

definition point_comparison_is_not_transitive :: bool where
  "point_comparison_is_not_transitive \<longleftrightarrow>
     (let a = SeqPoint 0 :: local_ep seq_point; b = SeqPoint 0x60000000; c = SeqPoint 0xC0000000
      in precedes a b \<and> precedes b c \<and> \<not> precedes a c)"

definition circular_comparison_agrees_with_linear_comparison_over_half_the_space :: bool where
  "circular_comparison_agrees_with_linear_comparison_over_half_the_space \<longleftrightarrow>
     list_all (\<lambda>(prim_left, prim_right).
       let seq_left = SeqPoint prim_left :: local_ep seq_point; seq_right = SeqPoint prim_right
       in precedes seq_left seq_right \<and> prim_left < prim_right \<and>
          \<not> precedes seq_right seq_left \<and> \<not> prim_right < prim_left)
       [(0, 1), (42, push_bit 31 1), (0xBEEFCAFE, 0xCAFEBEEF)]"

definition circular_comparison_differs_from_linear_comparison_over_half_the_space :: bool where
  "circular_comparison_differs_from_linear_comparison_over_half_the_space \<longleftrightarrow>
     list_all (\<lambda>(prim_left, prim_right).
       let seq_left = SeqPoint prim_left :: local_ep seq_point; seq_right = SeqPoint prim_right
       in precedes seq_left seq_right \<and> \<not> prim_left < prim_right \<and>
          \<not> precedes seq_right seq_left \<and> prim_right < prim_left)
       [(0xFFFFFFFF, 0), (push_bit 31 1 + 42, 1), (0xBAADD00D, 0xD00D)]"

definition antipode_and_near_antipode_comparisons_are_defined :: bool where
  "antipode_and_near_antipode_comparisons_are_defined \<longleftrightarrow>
     (let num = SeqPoint 42 :: local_ep seq_point;
          antipode = point_const_add num (SeqOffset (push_bit 31 1));
          farthest_greater = point_const_sub antipode (SeqOffset 1);
          farthest_less = point_const_add antipode (SeqOffset 1)
      in (precedes num farthest_greater \<and> \<not> precedes farthest_greater num) \<and>
         (precedes farthest_less num \<and> \<not> precedes num farthest_less) \<and>
         (precedes num antipode \<and> precedes antipode num))"

definition offset_past_computes_offset_when_rhs_precedes_or_equals_self :: bool where
  "offset_past_computes_offset_when_rhs_precedes_or_equals_self \<longleftrightarrow>
     list_all (\<lambda>(later, earlier, expected).
       offset_past (SeqPoint later :: local_ep seq_point) (SeqPoint earlier) = Some (SeqOffset expected))
       [(140, 100, 40), (0, 0xFFFFFFFF, 1), (42, 42, 0)]"

definition offset_past_returns_none_when_rhs_does_not_precede_or_equal_self :: bool where
  "offset_past_returns_none_when_rhs_does_not_precede_or_equal_self \<longleftrightarrow>
     offset_past (SeqPoint 100 :: local_ep seq_point) (SeqPoint 140) = None"

lemma seq_space_comparison_tests_pass:
  "point_equality \<and> point_comparison_is_not_transitive \<and>
   circular_comparison_agrees_with_linear_comparison_over_half_the_space \<and>
   circular_comparison_differs_from_linear_comparison_over_half_the_space \<and>
   antipode_and_near_antipode_comparisons_are_defined"
  by (simp add: point_equality_def point_comparison_is_not_transitive_def
      circular_comparison_agrees_with_linear_comparison_over_half_the_space_def
      circular_comparison_differs_from_linear_comparison_over_half_the_space_def
      antipode_and_near_antipode_comparisons_are_defined_def precedes_def point_const_add_def
      point_const_sub_def Let_def word_le_nat_alt unsigned_minus_1_eq_mask mask_eq_exp_minus_1)

lemma seq_space_offset_tests_pass:
  "offset_past_computes_offset_when_rhs_precedes_or_equals_self \<and>
   offset_past_returns_none_when_rhs_does_not_precede_or_equal_self"
  by (simp add: offset_past_computes_offset_when_rhs_precedes_or_equals_self_def
      offset_past_returns_none_when_rhs_does_not_precede_or_equal_self_def offset_past_def precedes_or_eq_def
      precedes_def)

section \<open>\<open>protocol/tcp/flags.rs\<close>\<close>

definition round_trips_all_variants :: bool where
  "round_trips_all_variants \<longleftrightarrow>
     list_all (\<lambda>(flags, byte). tcp_flags_to_u8 flags = byte \<and> tcp_flags_try_from byte = Inr flags)
       [(Syn, 0b00000010), (SynAck, 0b00010010), (Ack, 0b00010000), (FinAck, 0b00010001),
        (Rst, 0b00000100), (RstAck, 0b00010100)]"

definition masks_off_irrelevant_bits :: bool where
  "masks_off_irrelevant_bits \<longleftrightarrow> tcp_flags_try_from 0b11101010 = Inr Syn"

definition errors_on_invalid_combinations :: bool where
  "errors_on_invalid_combinations \<longleftrightarrow>
     err_and (tcp_flags_try_from 0b00000000) (\<lambda>_. True) \<and> err_and (tcp_flags_try_from 0b00000001) (\<lambda>_. True) \<and>
     err_and (tcp_flags_try_from 0b00000011) (\<lambda>_. True)"

lemma flags_tests_pass: "round_trips_all_variants \<and> masks_off_irrelevant_bits \<and> errors_on_invalid_combinations"
  by (simp add: round_trips_all_variants_def masks_off_irrelevant_bits_def errors_on_invalid_combinations_def
      tcp_flags_try_from_def Let_def FLAGS_MASK_def flag_bits)

section \<open>\<open>protocol/tcp/payload.rs\<close>\<close>

text \<open>A byte array with the maximum valid length.\<close>

definition MAX_ARRAY :: bytes where
  "MAX_ARRAY = replicate 65535 0x48"

definition creates_valid_payload_when_length_in_range :: bool where
  "creates_valid_payload_when_length_in_range \<longleftrightarrow>
     list_all (\<lambda>data. ok_and (u16_try_from (length data)) (\<lambda>len.
       len \<noteq> 0 \<and> try_from_iter data = Inr (Some \<lparr>payload_data = data, payload_len = len\<rparr>)))
       [[0x48], [0x48, 0x65, 0x6C, 0x6C, 0x6F], MAX_ARRAY]"

definition ok_none_for_empty :: bool where
  "ok_none_for_empty \<longleftrightarrow> try_from_iter [] = Inr None"

definition err_for_too_large :: bool where
  "err_for_too_large \<longleftrightarrow> err_and (try_from_iter (MAX_ARRAY @ [0x65])) (\<lambda>e. e = PayloadTooLong)"

lemma payload_tests_pass:
  "creates_valid_payload_when_length_in_range \<and> ok_none_for_empty \<and> err_for_too_large"
proof -
  have m: "length MAX_ARRAY = 65535" "MAX_ARRAY \<noteq> []" by (simp_all add: MAX_ARRAY_def)
  then show ?thesis
    by (simp add: creates_valid_payload_when_length_in_range_def ok_none_for_empty_def err_for_too_large_def
        try_from_iter_ok try_from_iter_too_long u16_try_from_def)
qed

section \<open>\<open>protocol/tcp/pending_segment.rs\<close>\<close>

definition hello_info :: send_info where
  "hello_info = \<lparr>si_seq_num = SeqPoint 42, si_ack_num = SeqPoint 24, si_flags = Ack,
     si_payload = Some \<lparr>payload_data = [0x48, 0x65, 0x6C, 0x6C, 0x6F], payload_len = 5\<rparr>\<rparr>"

text \<open>
  \<open>now\<close> is the reading of the clock the test begins with, \<open>later\<close> what \<open>time_due\<close> reads if it has to. The
  second test compares two readings of the clock taken one after the other, \<open>first\<close> and \<open>second\<close>.
\<close>

definition clamps_rto :: "instant \<Rightarrow> instant \<Rightarrow> bool" where
  "clamps_rto now later \<longleftrightarrow>
     (let pending = pending_new hello_info now
      in time_due \<lparr>rto_initial = DURATION_MAX, rto_min = 0, rto_max = duration_from_secs 10\<rparr> later pending
           = now + duration_from_secs 10 \<and>
         time_due \<lparr>rto_initial = 0, rto_min = duration_from_secs 2, rto_max = DURATION_MAX\<rparr> later pending
           = now + duration_from_secs 2)"

definition reports_due_now_on_overflow :: "instant \<Rightarrow> instant \<Rightarrow> instant \<Rightarrow> bool" where
  "reports_due_now_on_overflow now first second \<longleftrightarrow>
     time_due \<lparr>rto_initial = DURATION_MAX, rto_min = 0, rto_max = DURATION_MAX\<rparr> first
       (pending_new hello_info now) \<le> second"

lemma pending_segment_tests_pass:
  "(now + duration_from_secs 10 \<le> INSTANT_MAX \<longrightarrow> clamps_rto now later) \<and>
   (first \<le> second \<longrightarrow> reports_due_now_on_overflow now first second)"
  by (simp add: clamps_rto_def reports_due_now_on_overflow_def Let_def time_due_def duration_clamp_def
      duration_saturating_mul_def u32_saturating_pow_def instant_checked_add_def DURATION_MAX_def INSTANT_MAX_def
      NANOS_PER_SEC_def duration_from_secs_def)

section \<open>\<open>protocol/display.rs\<close>\<close>

definition comma_round_trip :: "nat \<Rightarrow> string \<Rightarrow> string result" where
  "comma_round_trip limit s =
     result_map thousands_separated (parse_uint limit (filter (\<lambda>c. c \<noteq> CHR '','') s))"

definition separates_all_widths :: bool where
  "separates_all_widths \<longleftrightarrow>
     list_all (\<lambda>s. ok_and (comma_round_trip 65535 s) (\<lambda>t. s = t))
       [''65,535'', ''4,321'', ''321'', ''21'', ''1'', ''0''] \<and>
     list_all (\<lambda>s. ok_and (comma_round_trip 4294967295 s) (\<lambda>t. s = t))
       [''4,294,967,295'', ''987,654,321'', ''87,654,321'', ''7,654,321'', ''654,321'', ''54,321'',
       ''4,321'', ''321'', ''21'', ''1'', ''0'']"

definition handles_trailing_and_internal_zeros :: bool where
  "handles_trailing_and_internal_zeros \<longleftrightarrow>
     list_all (\<lambda>s. ok_and (comma_round_trip 65535 s) (\<lambda>t. s = t))
       [''60,000'', ''60,001'', ''4,000'', ''4,001'', ''300'', ''301'', ''20''] \<and>
     list_all (\<lambda>s. ok_and (comma_round_trip 4294967295 s) (\<lambda>t. s = t))
       [''4,000,000,000'', ''4,000,000,001'', ''900,000,000'', ''900,000,001'', ''80,000,000'',
       ''80,000,001'', ''4,000'', ''4,001'', ''300'', ''301'', ''20'']"

lemma replicate_two: "replicate 2 x = [x, x]"
  by (simp add: numeral_2_eq_2)

lemma display_tests_pass: "separates_all_widths \<and> handles_trailing_and_internal_zeros"
  by (simp add: separates_all_widths_def handles_trailing_and_internal_zeros_def comma_round_trip_def
      digit_value_def of_char_of thousands_separated.simps dec.simps digit_def zero_padded_def
      char_of_def replicate_two bit_0)

section \<open>\<open>try_ops.rs\<close>\<close>

definition try_add_errors_for_overflow :: "instant \<Rightarrow> bool" where
  "try_add_errors_for_overflow now \<longleftrightarrow>
     err_and (try_add_u16 0xFFFF 1) (\<lambda>_. True) \<and> err_and (try_add_instant now DURATION_MAX) (\<lambda>_. True)"

definition try_add_adds_successfully :: "instant \<Rightarrow> bool" where
  "try_add_adds_successfully now \<longleftrightarrow> try_add_u16 (0xFFFF - 1) 1 = Inr 0xFFFF \<and>
     (case instant_checked_add now (duration_from_secs 3600) of
        None \<Rightarrow> False
      | Some an_hour_from_now \<Rightarrow> try_add_instant now (duration_from_secs 3600) = Inr an_hour_from_now)"

text \<open>
  \<open>try_get_mut\<close> has no counterpart of its own: it is part of \<open>try_set\<close> and \<open>try_copy\<close>, which write through the
  reference it returns. The tests use these to write the values back that are read.
\<close>

definition try_get_and_try_get_mut_error_out_of_bounds :: bool where
  "try_get_and_try_get_mut_error_out_of_bounds \<longleftrightarrow>
     (let data1 = [1, 2, 3, 4, 5] :: nat list; data2 = [10, 20, 30, 40, 50] :: nat list
      in err_and (try_get data1 5) (\<lambda>_. True) \<and> err_and (try_get_range data1 2 10) (\<lambda>_. True) \<and>
         err_and (fst (try_set 5 0 data2)) (\<lambda>_. True) \<and>
         err_and (fst (try_copy 2 10 (replicate 8 0) data2)) (\<lambda>_. True))"

definition try_get_and_try_get_mut_succeed_in_bounds :: bool where
  "try_get_and_try_get_mut_succeed_in_bounds \<longleftrightarrow>
     (let data1 = [1, 2, 3, 4, 5] :: nat list; data2 = [10, 20, 30, 40, 50] :: nat list
      in try_get data1 2 = Inr 3 \<and> try_get_range data1 1 3 = Inr [2, 3] \<and>
         try_set 2 30 data2 = (Inr (), data2) \<and> try_copy 1 3 [20, 30] data2 = (Inr (), data2))"

lemma try_get_tests_pass:
  "try_get_and_try_get_mut_error_out_of_bounds \<and> try_get_and_try_get_mut_succeed_in_bounds"
  by (simp add: try_get_and_try_get_mut_error_out_of_bounds_def try_get_and_try_get_mut_succeed_in_bounds_def
      Let_def try_get_def try_get_range_def try_set_def try_copy_def)

lemma try_ops_tests_pass:
  "try_add_errors_for_overflow now \<and>
   (now + duration_from_secs 3600 \<le> INSTANT_MAX \<longrightarrow> try_add_adds_successfully now)"
  by (simp add: try_add_errors_for_overflow_def try_add_adds_successfully_def try_add_u16_def try_add_instant_def
      instant_checked_add_def ok_or_def DURATION_MAX_def INSTANT_MAX_def NANOS_PER_SEC_def)

end
