(* ===== verification/Tcp_Tests.thy ===== *)
theory Tcp_Tests
  imports Unit_Tests Tcp_Reply
begin

text \<open>
  The scenario tests of TCP (\<open>src/protocol/tcp/tests/\<close>), replayed on the model, with the fixtures the source
  keeps beside them (\<open>tests/consts.rs\<close> and the test-only methods of \<open>connections.rs\<close>, \<open>state.rs\<close>, \<open>payload.rs\<close> and
  \<open>tcp.rs\<close>). A test is a function of the initial sequence number the random source would return and of the
  time; the lemmas say that it passes for all of them.
\<close>

section \<open>Fixtures\<close>

definition CLIENT_ISN :: "remote_ep seq_point" where
  "CLIENT_ISN = SeqPoint 100"

definition SERVER_ISN :: "local_ep seq_point" where
  "SERVER_ISN = SeqPoint 400"

definition LOCAL_HELLO_LEN :: "(u32, local_ep) seq_offset" where
  "LOCAL_HELLO_LEN = SeqOffset 5"

definition LOCAL_HI_LEN :: "(u32, local_ep) seq_offset" where
  "LOCAL_HI_LEN = SeqOffset 2"

definition LOCAL_HEY_LEN :: "(u32, local_ep) seq_offset" where
  "LOCAL_HEY_LEN = SeqOffset 3"

definition REMOTE_HELLO_LEN :: "(u32, remote_ep) seq_offset" where
  "REMOTE_HELLO_LEN = SeqOffset 5"

definition REMOTE_HI_LEN :: "(u32, remote_ep) seq_offset" where
  "REMOTE_HI_LEN = SeqOffset 2"

definition REMOTE_HEY_LEN :: "(u32, remote_ep) seq_offset" where
  "REMOTE_HEY_LEN = SeqOffset 3"

text \<open>\<open>CLIENT_ISN + a + b\<close> and \<open>SERVER_ISN + a + b\<close>\<close>

abbreviation client_seq :: "(u32, remote_ep) seq_offset list \<Rightarrow> remote_ep seq_point" where
  "client_seq \<equiv> foldl seq_add CLIENT_ISN"

abbreviation server_seq :: "(u32, local_ep) seq_offset list \<Rightarrow> local_ep seq_point" where
  "server_seq \<equiv> foldl seq_add SERVER_ISN"

definition KEY :: conn_key where
  "KEY = \<lparr>client_ip = ip_src REMOTE_TO_LOCAL_IP_PAIR, client_port = 1234,
     server_ip = ip_dst REMOTE_TO_LOCAL_IP_PAIR, server_port = 80\<rparr>"

definition window_test_new ::
    "(u16, local_ep) seq_offset \<Rightarrow> remote_ep seq_point \<Rightarrow> local_ep seq_point \<Rightarrow> window_state" where
  "window_test_new wnd wl1 wl2 = \<lparr>snd_wnd = wnd, snd_wl1 = wl1, snd_wl2 = wl2\<rparr>"

definition synced_test_new :: "window_state \<Rightarrow> 't synced_state" where
  "synced_test_new w = SyncedState w"

definition WINDOW_AFTER_HANDSHAKE :: window_state where
  "WINDOW_AFTER_HANDSHAKE = window_test_new (SeqOffset 0xFFFF)
     (point_const_add CLIENT_ISN REMOTE_SYN_BYTE) (point_const_add SERVER_ISN LOCAL_SYN_BYTE)"

definition AFTER_HANDSHAKE :: conn_state where
  "AFTER_HANDSHAKE = \<lparr>tcp_state = Established (synced_test_new WINDOW_AFTER_HANDSHAKE),
     snd_nxt = point_const_add SERVER_ISN LOCAL_SYN_BYTE, rcv_nxt = point_const_add CLIENT_ISN REMOTE_SYN_BYTE,
     snd_una = point_const_add SERVER_ISN LOCAL_SYN_BYTE, pending = [], send_buffer = []\<rparr>"

definition CLIENT_PKT :: remote_segment where
  "CLIENT_PKT = \<lparr>seg_ip_pair = Ipv4AddrPair (client_ip KEY) (server_ip KEY),
     seg_ports = PortPair (client_port KEY) (server_port KEY), seg_seq_num = SeqPoint 0, seg_ack_num = SeqPoint 0,
     seg_offset_bytes = 20, seg_flags = Ack, seg_window = SeqOffset 0xFFFF, seg_payload = None\<rparr>"

definition SERVER_REPLY :: local_segment where
  "SERVER_REPLY = \<lparr>seg_ip_pair = Ipv4AddrPair (server_ip KEY) (client_ip KEY),
     seg_ports = PortPair (server_port KEY) (client_port KEY), seg_seq_num = SeqPoint 0, seg_ack_num = SeqPoint 0,
     seg_offset_bytes = 20, seg_flags = Ack, seg_window = SeqOffset 0xFFFF, seg_payload = None\<rparr>"

definition rto_config_default :: rto_config where
  "rto_config_default = \<lparr>rto_initial = 0, rto_min = 0, rto_max = DURATION_MAX\<rparr>"

definition connections_default :: tcp_connections where
  "connections_default = \<lparr>conn_table = [], conn_rto_config = rto_config_default, conn_max_retries = 0\<rparr>"

definition conns_try_get :: "tcp_connections \<Rightarrow> conn_state option" where
  "conns_try_get conns = map_of (conn_table conns) KEY"

definition conns_insert :: "conn_state \<Rightarrow> tcp_connections \<Rightarrow> tcp_connections" where
  "conns_insert conn conns = conns\<lparr>conn_table := AList.update KEY conn (conn_table conns)\<rparr>"

definition with_syn_rcv_and_pkt_last_sent :: "instant \<Rightarrow> tcp_connections \<Rightarrow> tcp_connections" where
  "with_syn_rcv_and_pkt_last_sent sent_at conns =
     conns\<lparr>conn_table := AList.update KEY
       \<lparr>tcp_state = SynReceived SynReceivedMark, snd_nxt = seq_add SERVER_ISN LOCAL_SYN_BYTE,
        rcv_nxt = seq_add CLIENT_ISN REMOTE_SYN_BYTE, snd_una = SERVER_ISN,
        pending = [pending_new \<lparr>si_seq_num = SERVER_ISN, si_ack_num = seq_add CLIENT_ISN REMOTE_SYN_BYTE,
          si_flags = SynAck, si_payload = None\<rparr> sent_at],
        send_buffer = []\<rparr> (conn_table conns)\<rparr>"

definition with_syn_rcv :: "instant \<Rightarrow> tcp_connections \<Rightarrow> tcp_connections" where
  "with_syn_rcv now conns = with_syn_rcv_and_pkt_last_sent now conns"

definition after_handshake :: "tcp_connections \<Rightarrow> tcp_connections" where
  "after_handshake conns = conns\<lparr>conn_table := AList.update KEY AFTER_HANDSHAKE (conn_table conns)\<rparr>"

text \<open>Equality of connections in the tests leaves \<open>pending\<close> out.\<close>

definition conn_state_eq :: "conn_state \<Rightarrow> conn_state \<Rightarrow> bool" where
  "conn_state_eq a b \<longleftrightarrow> tcp_state a = tcp_state b \<and> snd_nxt a = snd_nxt b \<and> rcv_nxt a = rcv_nxt b \<and>
     snd_una a = snd_una b \<and> send_buffer a = send_buffer b"

definition test_get_snd_wnd :: "conn_state \<Rightarrow> (u16, local_ep) seq_offset option" where
  "test_get_snd_wnd conn = (case tcp_state conn of
     SynReceived _ \<Rightarrow> None | Established s \<Rightarrow> Some (snd_wnd (window_state s))
   | FinWait1 s \<Rightarrow> Some (snd_wnd (window_state s)) | FinWait2 s \<Rightarrow> Some (snd_wnd (window_state s))
   | Closing s \<Rightarrow> Some (snd_wnd (window_state s)) | LastAck s \<Rightarrow> Some (snd_wnd (window_state s)))"

definition from_test_str :: "string \<Rightarrow> tcp_payload option result" where
  "from_test_str s = try_from_iter (map of_char s)"

definition peek_info :: "pending_segment \<Rightarrow> send_info" where
  "peek_info seg = ps_send_info seg"

section \<open>Assertions\<close>

text \<open>\<open>let reply = seg.create_reply(&mut connections)?\<close>\<close>

definition reply_and ::
    "u32 \<Rightarrow> instant \<Rightarrow> remote_segment \<Rightarrow> tcp_connections \<Rightarrow>
     (local_segment option \<Rightarrow> tcp_connections \<Rightarrow> bool) \<Rightarrow> bool" where
  "reply_and isn now seg conns P =
     (case tcp_create_reply (Inr isn) now seg conns of (r, conns') \<Rightarrow> ok_and r (\<lambda>reply. P reply conns'))"

text \<open>\<open>let x = connections.try_get()?\<close>\<close>

definition state_and :: "tcp_connections \<Rightarrow> (conn_state \<Rightarrow> bool) \<Rightarrow> bool" where
  "state_and conns P = (case conns_try_get conns of None \<Rightarrow> False | Some conn \<Rightarrow> P conn)"

text \<open>\<open>assert_eq!(connections.try_get()?, &expected)\<close>\<close>

definition state_is :: "tcp_connections \<Rightarrow> conn_state \<Rightarrow> bool" where
  "state_is conns expected = state_and conns (\<lambda>conn. conn_state_eq conn expected)"

text \<open>The window that a segment with these fields leaves: \<open>WindowState::test_new(seg.window, seg.seq_num, seg.ack_num)\<close>\<close>

abbreviation window_of :: "remote_segment \<Rightarrow> 't synced_state" where
  "window_of seg \<equiv> synced_test_new (window_test_new (seg_window seg) (seg_seq_num seg) (seg_ack_num seg))"

text \<open>The equations by which the tests are run: the fixtures and the code the segments go through.\<close>

lemmas tcp_fixture_defs = CLIENT_ISN_def SERVER_ISN_def LOCAL_HELLO_LEN_def LOCAL_HI_LEN_def LOCAL_HEY_LEN_def
  REMOTE_HELLO_LEN_def REMOTE_HI_LEN_def REMOTE_HEY_LEN_def KEY_def REMOTE_TO_LOCAL_IP_PAIR_def
  window_test_new_def synced_test_new_def WINDOW_AFTER_HANDSHAKE_def AFTER_HANDSHAKE_def CLIENT_PKT_def
  SERVER_REPLY_def rto_config_default_def connections_default_def conns_try_get_def conns_insert_def
  with_syn_rcv_and_pkt_last_sent_def with_syn_rcv_def after_handshake_def conn_state_eq_def test_get_snd_wnd_def
  from_test_str_def peek_info_def reply_and_def seq_sub_def state_and_def state_is_def point_const_add_def seq_add_def
  LOCAL_SYN_BYTE_def REMOTE_SYN_BYTE_def LOCAL_FIN_BYTE_def REMOTE_FIN_BYTE_def

lemmas tcp_eval = tcp_create_reply_def act_bind_def act_return_def decide_reply_def handle_unknown_conn_def
  handle_known_conn_def insert_syn_rcv_def conn_get_def conn_set_def conn_remove_def seg_key_def
  from_pairs_and_info_def RCV_WND_def ip_swapped_def ports_swapped_def from_syn_ack_def establish_def
  skip_close_wait_def close_def rcv_ack_of_fin_def rcv_fin_before_fin_is_acked_def incoming_ack_update_def
  drain_transmittable_def offset_past_def precedes_def precedes_or_eq_def offset_saturating_sub_def
  u32_of_u16_offset_def usize_try_from_offset_def u16_try_from_def offset_of_nonzero_def len_or_default_def
  is_covered_by_def pending_new_def consumes_phantom_byte_def pure_ack_def rst_def complete_handshake_def
  data_payload_def accept_payload_def drain_or_ack_def begin_passive_close_without_close_wait_def
  handle_syn_rcv_def handle_established_def handle_fin_wait_1_def handle_fin_wait_2_def handle_closing_def
  handle_last_ack_def is_syn_received_def TCP_HDR_MIN_LEN_def
  close_established_def close_conn_def key_ip_pair_def key_ports_def List.map_filter_def result_map_def result_map_err_def Let_def

section \<open>\<open>tests/establish.rs\<close>\<close>

definition creates_valid_syn_ack :: "u32 \<Rightarrow> instant \<Rightarrow> bool" where
  "creates_valid_syn_ack isn now \<longleftrightarrow>
     reply_and isn now (CLIENT_PKT\<lparr>seg_seq_num := CLIENT_ISN, seg_flags := Syn\<rparr>) connections_default (\<lambda>reply conns.
     state_and conns (\<lambda>stored.
       reply = Some (SERVER_REPLY\<lparr>seg_seq_num := snd_una stored, seg_ack_num := client_seq [REMOTE_SYN_BYTE],
         seg_flags := SynAck\<rparr>)))"

definition duplicate_syn_during_syn_received_resends_same_syn_ack :: "u32 \<Rightarrow> instant \<Rightarrow> bool" where
  "duplicate_syn_during_syn_received_resends_same_syn_ack isn now \<longleftrightarrow>
     (let conns = with_syn_rcv now connections_default
      in state_and conns (\<lambda>initial_state.
         reply_and isn now (CLIENT_PKT\<lparr>seg_seq_num := CLIENT_ISN, seg_flags := Syn\<rparr>) conns (\<lambda>reply conns.
           reply = Some (SERVER_REPLY\<lparr>seg_seq_num := SERVER_ISN, seg_ack_num := client_seq [REMOTE_SYN_BYTE],
             seg_flags := SynAck\<rparr>) \<and>
           state_is conns initial_state)))"

definition handshake_ack_without_data_establishes_connection_and_returns_none :: "u32 \<Rightarrow> instant \<Rightarrow> bool" where
  "handshake_ack_without_data_establishes_connection_and_returns_none isn now \<longleftrightarrow>
     (let conns = with_syn_rcv now connections_default;
          handshake_ack = CLIENT_PKT\<lparr>seg_seq_num := client_seq [REMOTE_SYN_BYTE],
            seg_ack_num := server_seq [LOCAL_SYN_BYTE]\<rparr>
      in state_and conns (\<lambda>cloned_state.
         reply_and isn now handshake_ack conns (\<lambda>reply conns.
           reply = None \<and>
           state_is conns (cloned_state\<lparr>tcp_state := Established (window_of handshake_ack),
             rcv_nxt := client_seq [REMOTE_SYN_BYTE], snd_una := seq_add (snd_una cloned_state) LOCAL_SYN_BYTE\<rparr>))))"

definition handshake_ack_with_data_establishes_and_echoes :: "u32 \<Rightarrow> instant \<Rightarrow> bool" where
  "handshake_ack_with_data_establishes_and_echoes isn now \<longleftrightarrow>
     ok_and (from_test_str ''Hello'') (\<lambda>hello.
     let conns = with_syn_rcv now connections_default;
         handshake_ack_with_data = CLIENT_PKT\<lparr>seg_seq_num := client_seq [REMOTE_SYN_BYTE],
           seg_ack_num := server_seq [LOCAL_SYN_BYTE], seg_payload := hello\<rparr>
     in state_and conns (\<lambda>cloned_state.
        reply_and isn now handshake_ack_with_data conns (\<lambda>reply conns.
          reply = Some (SERVER_REPLY\<lparr>seg_seq_num := server_seq [LOCAL_SYN_BYTE],
            seg_ack_num := client_seq [REMOTE_SYN_BYTE, REMOTE_HELLO_LEN], seg_payload := hello\<rparr>) \<and>
          state_is conns (cloned_state\<lparr>tcp_state := Established (window_of handshake_ack_with_data),
            rcv_nxt := seq_add (rcv_nxt cloned_state) REMOTE_HELLO_LEN,
            snd_nxt := seq_add (snd_nxt cloned_state) LOCAL_HELLO_LEN,
            snd_una := seq_add (snd_una cloned_state) LOCAL_SYN_BYTE\<rparr>))))"

definition wrong_seq_gets_current_state_ack :: "remote_segment \<Rightarrow> u32 \<Rightarrow> instant \<Rightarrow> bool" where
  "wrong_seq_gets_current_state_ack seg isn now \<longleftrightarrow>
     (let conns = with_syn_rcv now connections_default
      in state_and conns (\<lambda>initial_state.
         reply_and isn now (seg\<lparr>seg_seq_num := client_seq [REMOTE_SYN_BYTE, SeqOffset 1],
             seg_ack_num := server_seq [LOCAL_SYN_BYTE]\<rparr>) conns (\<lambda>reply conns.
           reply = Some (SERVER_REPLY\<lparr>seg_seq_num := server_seq [LOCAL_SYN_BYTE],
             seg_ack_num := client_seq [REMOTE_SYN_BYTE]\<rparr>) \<and>
           state_is conns initial_state)))"

definition handshake_ack_with_wrong_seq_and_no_data_gets_current_state_ack :: "u32 \<Rightarrow> instant \<Rightarrow> bool" where
  "handshake_ack_with_wrong_seq_and_no_data_gets_current_state_ack isn now \<longleftrightarrow>
     wrong_seq_gets_current_state_ack CLIENT_PKT isn now"

definition fin_ack_in_syn_rcv_with_wrong_seq_gets_current_state_ack :: "u32 \<Rightarrow> instant \<Rightarrow> bool" where
  "fin_ack_in_syn_rcv_with_wrong_seq_gets_current_state_ack isn now \<longleftrightarrow>
     wrong_seq_gets_current_state_ack (CLIENT_PKT\<lparr>seg_flags := FinAck\<rparr>) isn now"

definition handshake_ack_with_with_wrong_seq_and_data_gets_current_state_ack :: "u32 \<Rightarrow> instant \<Rightarrow> bool" where
  "handshake_ack_with_with_wrong_seq_and_data_gets_current_state_ack isn now \<longleftrightarrow>
     ok_and (from_test_str ''Hello'') (\<lambda>hello.
       wrong_seq_gets_current_state_ack (CLIENT_PKT\<lparr>seg_payload := hello\<rparr>) isn now)"

lemma establish_tests_pass:
  "creates_valid_syn_ack isn now \<and> duplicate_syn_during_syn_received_resends_same_syn_ack isn now \<and>
   handshake_ack_without_data_establishes_connection_and_returns_none isn now \<and>
   handshake_ack_with_data_establishes_and_echoes isn now"
  by (simp add: creates_valid_syn_ack_def duplicate_syn_during_syn_received_resends_same_syn_ack_def
      handshake_ack_without_data_establishes_connection_and_returns_none_def
      handshake_ack_with_data_establishes_and_echoes_def tcp_fixture_defs tcp_eval)

lemma wrong_seq_tests_pass:
  "handshake_ack_with_wrong_seq_and_no_data_gets_current_state_ack isn now \<and>
   fin_ack_in_syn_rcv_with_wrong_seq_gets_current_state_ack isn now \<and>
   handshake_ack_with_with_wrong_seq_and_data_gets_current_state_ack isn now"
  by (simp add: wrong_seq_gets_current_state_ack_def
      handshake_ack_with_wrong_seq_and_no_data_gets_current_state_ack_def
      fin_ack_in_syn_rcv_with_wrong_seq_gets_current_state_ack_def
      handshake_ack_with_with_wrong_seq_and_data_gets_current_state_ack_def tcp_fixture_defs tcp_eval)

section \<open>\<open>tests/stray_syn.rs\<close>\<close>

definition stray_syn_out_of_window_gets_challenge_ack :: "u32 \<Rightarrow> instant \<Rightarrow> bool" where
  "stray_syn_out_of_window_gets_challenge_ack isn now \<longleftrightarrow>
     (let conns = after_handshake connections_default
      in state_and conns (\<lambda>initial_state.
         reply_and isn now (CLIENT_PKT\<lparr>seg_seq_num := seq_sub CLIENT_ISN (SeqOffset 20), seg_flags := Syn\<rparr>) conns
           (\<lambda>reply conns.
             reply = Some (SERVER_REPLY\<lparr>seg_seq_num := server_seq [LOCAL_SYN_BYTE],
               seg_ack_num := client_seq [REMOTE_SYN_BYTE]\<rparr>) \<and>
             state_is conns initial_state)))"

definition stray_syn_in_window_gets_challenge_ack :: "u32 \<Rightarrow> instant \<Rightarrow> bool" where
  "stray_syn_in_window_gets_challenge_ack isn now \<longleftrightarrow>
     (let conns = after_handshake connections_default
      in state_and conns (\<lambda>initial_state.
         reply_and isn now (CLIENT_PKT\<lparr>seg_seq_num := client_seq [REMOTE_SYN_BYTE], seg_flags := Syn\<rparr>) conns
           (\<lambda>reply conns.
             reply = Some (SERVER_REPLY\<lparr>seg_seq_num := server_seq [LOCAL_SYN_BYTE],
               seg_ack_num := client_seq [REMOTE_SYN_BYTE]\<rparr>) \<and>
             state_is conns initial_state)))"

definition stray_syn_in_fin_wait_1_gets_challenge_ack :: "u32 \<Rightarrow> instant \<Rightarrow> bool" where
  "stray_syn_in_fin_wait_1_gets_challenge_ack isn now \<longleftrightarrow>
     (let (_, conns) = close_established now (after_handshake connections_default)
      in state_and conns (\<lambda>initial_state.
         (case tcp_state initial_state of FinWait1 _ \<Rightarrow> True | _ \<Rightarrow> False) \<and>
         reply_and isn now (CLIENT_PKT\<lparr>seg_seq_num := client_seq [REMOTE_SYN_BYTE], seg_flags := Syn\<rparr>) conns
           (\<lambda>reply conns.
             reply = Some (SERVER_REPLY\<lparr>seg_seq_num := server_seq [LOCAL_SYN_BYTE, LOCAL_FIN_BYTE],
               seg_ack_num := client_seq [REMOTE_SYN_BYTE]\<rparr>) \<and>
             state_is conns initial_state)))"

definition stray_syn_ack_gets_challenge_ack :: "u32 \<Rightarrow> instant \<Rightarrow> bool" where
  "stray_syn_ack_gets_challenge_ack isn now \<longleftrightarrow>
     (let conns = after_handshake connections_default
      in state_and conns (\<lambda>initial_state.
         reply_and isn now (CLIENT_PKT\<lparr>seg_seq_num := client_seq [REMOTE_SYN_BYTE],
             seg_ack_num := server_seq [LOCAL_SYN_BYTE], seg_flags := SynAck\<rparr>) conns (\<lambda>reply conns.
           reply = Some (SERVER_REPLY\<lparr>seg_seq_num := server_seq [LOCAL_SYN_BYTE],
             seg_ack_num := client_seq [REMOTE_SYN_BYTE]\<rparr>) \<and>
           state_is conns initial_state)))"

lemma stray_syn_tests_pass:
  "stray_syn_out_of_window_gets_challenge_ack isn now \<and> stray_syn_in_window_gets_challenge_ack isn now \<and>
   stray_syn_in_fin_wait_1_gets_challenge_ack isn now \<and> stray_syn_ack_gets_challenge_ack isn now"
  by (simp add: stray_syn_out_of_window_gets_challenge_ack_def stray_syn_in_window_gets_challenge_ack_def
      stray_syn_in_fin_wait_1_gets_challenge_ack_def stray_syn_ack_gets_challenge_ack_def tcp_fixture_defs tcp_eval)

section \<open>\<open>tests/abort.rs\<close>\<close>

definition client_rst :: "remote_ep seq_point \<Rightarrow> remote_segment" where
  "client_rst seq = CLIENT_PKT\<lparr>seg_seq_num := seq, seg_flags := Rst\<rparr>"

definition rst_in_established_at_rcv_nxt_cleans_up_connection_and_returns_none :: "u32 \<Rightarrow> instant \<Rightarrow> bool" where
  "rst_in_established_at_rcv_nxt_cleans_up_connection_and_returns_none isn now \<longleftrightarrow>
     reply_and isn now (client_rst (client_seq [REMOTE_SYN_BYTE])) (after_handshake connections_default)
       (\<lambda>reply conns. reply = None \<and> conns_try_get conns = None)"

text \<open>The two tests of a state with an RST in the window, and those with one outside, differ in the state only.\<close>

definition rst_within_window_gets_challenge_ack :: "tcp_connections \<Rightarrow> u32 \<Rightarrow> instant \<Rightarrow> bool" where
  "rst_within_window_gets_challenge_ack conns isn now \<longleftrightarrow>
     state_and conns (\<lambda>initial_state.
     reply_and isn now (client_rst (client_seq [SeqOffset 4])) conns (\<lambda>reply conns.
       reply = Some (SERVER_REPLY\<lparr>seg_seq_num := server_seq [LOCAL_SYN_BYTE],
         seg_ack_num := client_seq [REMOTE_SYN_BYTE]\<rparr>) \<and>
       state_is conns initial_state))"

definition rst_with_out_of_window_seq_is_silently_dropped :: "tcp_connections \<Rightarrow> u32 \<Rightarrow> instant \<Rightarrow> bool" where
  "rst_with_out_of_window_seq_is_silently_dropped conns isn now \<longleftrightarrow>
     state_and conns (\<lambda>initial_state.
     reply_and isn now (client_rst (seq_sub CLIENT_ISN (SeqOffset 10))) conns (\<lambda>reply conns.
       reply = None \<and> state_is conns initial_state))"

definition rst_in_established_within_window_but_not_at_rcv_nxt_gets_challenge_ack :: "u32 \<Rightarrow> instant \<Rightarrow> bool" where
  "rst_in_established_within_window_but_not_at_rcv_nxt_gets_challenge_ack =
     rst_within_window_gets_challenge_ack (after_handshake connections_default)"

definition rst_in_established_with_out_of_window_seq_is_silently_dropped :: "u32 \<Rightarrow> instant \<Rightarrow> bool" where
  "rst_in_established_with_out_of_window_seq_is_silently_dropped =
     rst_with_out_of_window_seq_is_silently_dropped (after_handshake connections_default)"

definition rst_in_syn_received_at_rcv_nxt_cleans_up_connection_and_returns_none :: "u32 \<Rightarrow> instant \<Rightarrow> bool" where
  "rst_in_syn_received_at_rcv_nxt_cleans_up_connection_and_returns_none isn now \<longleftrightarrow>
     reply_and isn now (client_rst (client_seq [REMOTE_SYN_BYTE])) (with_syn_rcv now connections_default)
       (\<lambda>reply conns. reply = None \<and> conns_try_get conns = None)"

definition rst_in_syn_received_with_out_of_window_seq_is_silently_dropped :: "u32 \<Rightarrow> instant \<Rightarrow> bool" where
  "rst_in_syn_received_with_out_of_window_seq_is_silently_dropped isn now \<longleftrightarrow>
     rst_with_out_of_window_seq_is_silently_dropped (with_syn_rcv now connections_default) isn now"

definition rst_in_syn_received_within_window_but_not_at_rcv_nxt_gets_challenge_ack :: "u32 \<Rightarrow> instant \<Rightarrow> bool" where
  "rst_in_syn_received_within_window_but_not_at_rcv_nxt_gets_challenge_ack isn now \<longleftrightarrow>
     rst_within_window_gets_challenge_ack (with_syn_rcv now connections_default) isn now"

definition rst_for_unknown_connection_is_silently_dropped :: "u32 \<Rightarrow> instant \<Rightarrow> bool" where
  "rst_for_unknown_connection_is_silently_dropped isn now \<longleftrightarrow>
     reply_and isn now (client_rst (client_seq [REMOTE_SYN_BYTE])) connections_default
       (\<lambda>reply conns. reply = None \<and> conns_try_get conns = None)"

lemma abort_tests_pass:
  "rst_in_established_at_rcv_nxt_cleans_up_connection_and_returns_none isn now \<and>
   rst_in_established_within_window_but_not_at_rcv_nxt_gets_challenge_ack isn now \<and>
   rst_in_established_with_out_of_window_seq_is_silently_dropped isn now \<and>
   rst_in_syn_received_at_rcv_nxt_cleans_up_connection_and_returns_none isn now \<and>
   rst_in_syn_received_with_out_of_window_seq_is_silently_dropped isn now \<and>
   rst_in_syn_received_within_window_but_not_at_rcv_nxt_gets_challenge_ack isn now \<and>
   rst_for_unknown_connection_is_silently_dropped isn now"
  by (simp add: rst_in_established_at_rcv_nxt_cleans_up_connection_and_returns_none_def client_rst_def
      rst_in_established_within_window_but_not_at_rcv_nxt_gets_challenge_ack_def
      rst_in_established_with_out_of_window_seq_is_silently_dropped_def
      rst_in_syn_received_at_rcv_nxt_cleans_up_connection_and_returns_none_def
      rst_in_syn_received_with_out_of_window_seq_is_silently_dropped_def
      rst_in_syn_received_within_window_but_not_at_rcv_nxt_gets_challenge_ack_def
      rst_for_unknown_connection_is_silently_dropped_def rst_within_window_gets_challenge_ack_def
      rst_with_out_of_window_seq_is_silently_dropped_def tcp_fixture_defs tcp_eval)

section \<open>\<open>tests/echo.rs\<close>\<close>

text \<open>The packet most tests begin with: the first data after the handshake.\<close>

definition first_data :: "tcp_payload option \<Rightarrow> remote_segment" where
  "first_data payload = CLIENT_PKT\<lparr>seg_seq_num := client_seq [REMOTE_SYN_BYTE],
     seg_ack_num := server_seq [LOCAL_SYN_BYTE], seg_payload := payload\<rparr>"

definition first_echo :: "tcp_payload option \<Rightarrow> local_segment" where
  "first_echo payload = SERVER_REPLY\<lparr>seg_seq_num := server_seq [LOCAL_SYN_BYTE],
     seg_ack_num := client_seq [REMOTE_SYN_BYTE, REMOTE_HELLO_LEN], seg_payload := payload\<rparr>"

definition second_echo :: "tcp_payload option \<Rightarrow> local_segment" where
  "second_echo payload = SERVER_REPLY\<lparr>seg_seq_num := server_seq [LOCAL_SYN_BYTE, LOCAL_HELLO_LEN],
     seg_ack_num := client_seq [REMOTE_SYN_BYTE, REMOTE_HELLO_LEN, REMOTE_HI_LEN], seg_payload := payload\<rparr>"

text \<open>\<open>state.snd_nxt += a; state.rcv_nxt += b\<close>\<close>

definition advanced ::
    "(u32, local_ep) seq_offset \<Rightarrow> (u32, remote_ep) seq_offset \<Rightarrow> conn_state \<Rightarrow> conn_state" where
  "advanced a b conn = conn\<lparr>snd_nxt := seq_add (snd_nxt conn) a, rcv_nxt := seq_add (rcv_nxt conn) b\<rparr>"

definition acked :: "(u32, local_ep) seq_offset \<Rightarrow> conn_state \<Rightarrow> conn_state" where
  "acked a conn = conn\<lparr>snd_una := seq_add (snd_una conn) a\<rparr>"

lemmas tcp_data_defs = first_data_def first_echo_def second_echo_def advanced_def acked_def

definition creates_valid_data_echo :: "u32 \<Rightarrow> instant \<Rightarrow> bool" where
  "creates_valid_data_echo isn now \<longleftrightarrow>
     ok_and (from_test_str ''Hello'') (\<lambda>hello.
     reply_and isn now (first_data hello) (after_handshake connections_default) (\<lambda>reply _.
       reply = Some (first_echo hello)))"

definition pure_ack_on_established_connection_returns_none :: "u32 \<Rightarrow> instant \<Rightarrow> bool" where
  "pure_ack_on_established_connection_returns_none isn now \<longleftrightarrow>
     ok_and (from_test_str ''Hello'') (\<lambda>hello.
     let conns = after_handshake connections_default;
         pure_ack = CLIENT_PKT\<lparr>seg_seq_num := client_seq [REMOTE_SYN_BYTE, REMOTE_HELLO_LEN],
           seg_ack_num := server_seq [LOCAL_SYN_BYTE, LOCAL_HELLO_LEN]\<rparr>
     in state_and conns (\<lambda>cloned_state.
        reply_and isn now (first_data hello) conns (\<lambda>_ conns.
        reply_and isn now pure_ack conns (\<lambda>reply conns.
          reply = None \<and>
          state_is conns ((acked LOCAL_HELLO_LEN (advanced LOCAL_HELLO_LEN REMOTE_HELLO_LEN cloned_state))
            \<lparr>tcp_state := Established (window_of pure_ack)\<rparr>)))))"

definition consecutive_replies_use_snd_nxt_for_seq_num :: "u32 \<Rightarrow> instant \<Rightarrow> bool" where
  "consecutive_replies_use_snd_nxt_for_seq_num isn now \<longleftrightarrow>
     ok_and (from_test_str ''Hello'') (\<lambda>hello. ok_and (from_test_str ''Hi'') (\<lambda>hi.
     let conns = after_handshake connections_default
     in state_and conns (\<lambda>cloned_state.
        reply_and isn now (first_data hello) conns (\<lambda>reply1 conns.
          reply1 = Some (first_echo hello) \<and>
          state_is conns (advanced LOCAL_HELLO_LEN REMOTE_HELLO_LEN cloned_state) \<and>
        reply_and isn now (CLIENT_PKT\<lparr>seg_seq_num := client_seq [REMOTE_SYN_BYTE, REMOTE_HELLO_LEN],
            seg_ack_num := server_seq [LOCAL_SYN_BYTE], seg_payload := hi\<rparr>) conns (\<lambda>reply2 _.
          reply2 = Some (second_echo hi))))))"

definition old_ack_num_does_not_regress_snd_una :: "u32 \<Rightarrow> instant \<Rightarrow> bool" where
  "old_ack_num_does_not_regress_snd_una isn now \<longleftrightarrow>
     ok_and (from_test_str ''Hello'') (\<lambda>hello. ok_and (from_test_str ''Hi'') (\<lambda>hi. ok_and (from_test_str ''Hey'') (\<lambda>hey.
     let conns = after_handshake connections_default;
         hi_pkt = CLIENT_PKT\<lparr>seg_seq_num := client_seq [REMOTE_SYN_BYTE, REMOTE_HELLO_LEN],
           seg_ack_num := server_seq [LOCAL_SYN_BYTE, LOCAL_HELLO_LEN], seg_payload := hi\<rparr>;
         hey_pkt = CLIENT_PKT\<lparr>seg_seq_num := client_seq [REMOTE_SYN_BYTE, REMOTE_HELLO_LEN, REMOTE_HI_LEN],
           seg_ack_num := server_seq [LOCAL_SYN_BYTE], seg_payload := hey\<rparr>
     in state_and conns (\<lambda>cloned_state.
          snd_una cloned_state = server_seq [LOCAL_SYN_BYTE] \<and>
        reply_and isn now (first_data hello) conns (\<lambda>reply1 conns.
          reply1 = Some (first_echo hello) \<and>
          (let cloned_state = advanced LOCAL_HELLO_LEN REMOTE_HELLO_LEN cloned_state
           in state_is conns cloned_state \<and>
        reply_and isn now hi_pkt conns (\<lambda>reply2 conns.
          reply2 = Some (second_echo hi) \<and>
          (let cloned_state = (acked LOCAL_HELLO_LEN (advanced LOCAL_HI_LEN REMOTE_HI_LEN cloned_state))
                 \<lparr>tcp_state := Established (window_of hi_pkt)\<rparr>
           in state_is conns cloned_state \<and>
        reply_and isn now hey_pkt conns (\<lambda>reply3 conns.
          reply3 = Some (SERVER_REPLY\<lparr>seg_seq_num := server_seq [LOCAL_SYN_BYTE, LOCAL_HELLO_LEN, LOCAL_HI_LEN],
            seg_ack_num := client_seq [REMOTE_SYN_BYTE, REMOTE_HELLO_LEN, REMOTE_HI_LEN, REMOTE_HEY_LEN],
            seg_payload := hey\<rparr>) \<and>
          state_is conns (advanced LOCAL_HEY_LEN REMOTE_HEY_LEN cloned_state))))))))))"

definition duplicate_data_pkt_gets_duplicate_ack_without_echo :: "u32 \<Rightarrow> instant \<Rightarrow> bool" where
  "duplicate_data_pkt_gets_duplicate_ack_without_echo isn now \<longleftrightarrow>
     ok_and (from_test_str ''Hello'') (\<lambda>hello. ok_and (from_test_str ''Hi'') (\<lambda>hi.
     reply_and isn now (first_data hello) (after_handshake connections_default) (\<lambda>reply conns.
       reply = Some (first_echo hello) \<and>
     reply_and isn now (CLIENT_PKT\<lparr>seg_seq_num := client_seq [REMOTE_SYN_BYTE, REMOTE_HELLO_LEN],
         seg_ack_num := server_seq [LOCAL_SYN_BYTE, LOCAL_HELLO_LEN], seg_payload := hi\<rparr>) conns (\<lambda>reply conns.
       reply = Some (second_echo hi) \<and>
     reply_and isn now (first_data hello) conns (\<lambda>reply _.
       reply = Some (SERVER_REPLY\<lparr>seg_seq_num := server_seq [LOCAL_SYN_BYTE, LOCAL_HELLO_LEN, LOCAL_HI_LEN],
         seg_ack_num := client_seq [REMOTE_SYN_BYTE, REMOTE_HELLO_LEN, REMOTE_HI_LEN]\<rparr>))))))"

definition ack_for_unsent_data_is_dropped_and_gets_current_state_reply :: "u32 \<Rightarrow> instant \<Rightarrow> bool" where
  "ack_for_unsent_data_is_dropped_and_gets_current_state_reply isn now \<longleftrightarrow>
     ok_and (from_test_str ''Hello'') (\<lambda>hello.
     let conns = after_handshake connections_default
     in state_and conns (\<lambda>initial_state.
        reply_and isn now (CLIENT_PKT\<lparr>seg_seq_num := client_seq [REMOTE_SYN_BYTE],
            seg_ack_num := server_seq [SeqOffset 20], seg_payload := hello\<rparr>) conns (\<lambda>reply conns.
          reply = Some (SERVER_REPLY\<lparr>seg_seq_num := server_seq [LOCAL_SYN_BYTE],
            seg_ack_num := client_seq [REMOTE_SYN_BYTE]\<rparr>) \<and>
          state_is conns initial_state)))"

definition wraparound_ack_for_unsent_data_is_still_rejected :: "u32 \<Rightarrow> instant \<Rightarrow> bool" where
  "wraparound_ack_for_unsent_data_is_still_rejected isn now \<longleftrightarrow>
     (let initial_state = AFTER_HANDSHAKE\<lparr>tcp_state := Established (synced_test_new (window_test_new
            (SeqOffset 0xFFFF) (client_seq [REMOTE_SYN_BYTE]) (SeqPoint 0xFFFFFFFF))),
          snd_nxt := SeqPoint 0xFFFFFFFF, snd_una := SeqPoint 0xFFFFFFFF\<rparr>
      in reply_and isn now (CLIENT_PKT\<lparr>seg_seq_num := client_seq [REMOTE_SYN_BYTE]\<rparr>)
           (conns_insert initial_state connections_default) (\<lambda>reply conns.
           reply = Some (SERVER_REPLY\<lparr>seg_seq_num := SeqPoint 0xFFFFFFFF,
             seg_ack_num := client_seq [REMOTE_SYN_BYTE]\<rparr>) \<and>
           state_is conns initial_state))"

definition data_pkt_for_unknown_connection_gets_rst :: "u32 \<Rightarrow> instant \<Rightarrow> bool" where
  "data_pkt_for_unknown_connection_gets_rst isn now \<longleftrightarrow>
     ok_and (from_test_str ''Hello'') (\<lambda>hello.
     reply_and isn now (first_data hello) connections_default (\<lambda>reply _.
       reply = Some (SERVER_REPLY\<lparr>seg_seq_num := server_seq [LOCAL_SYN_BYTE], seg_flags := Rst\<rparr>)))"

lemma echo_tests_pass:
  "creates_valid_data_echo isn now \<and> pure_ack_on_established_connection_returns_none isn now \<and>
   consecutive_replies_use_snd_nxt_for_seq_num isn now \<and>
   duplicate_data_pkt_gets_duplicate_ack_without_echo isn now"
  by (simp add: creates_valid_data_echo_def pure_ack_on_established_connection_returns_none_def
      consecutive_replies_use_snd_nxt_for_seq_num_def duplicate_data_pkt_gets_duplicate_ack_without_echo_def
      tcp_data_defs tcp_fixture_defs tcp_eval)

lemma old_ack_test_passes: "old_ack_num_does_not_regress_snd_una isn now"
  by (simp add: old_ack_num_does_not_regress_snd_una_def tcp_data_defs tcp_fixture_defs tcp_eval)

lemma unacceptable_ack_tests_pass:
  "ack_for_unsent_data_is_dropped_and_gets_current_state_reply isn now \<and>
   wraparound_ack_for_unsent_data_is_still_rejected isn now \<and> data_pkt_for_unknown_connection_gets_rst isn now"
  by (simp add: ack_for_unsent_data_is_dropped_and_gets_current_state_reply_def
      wraparound_ack_for_unsent_data_is_still_rejected_def data_pkt_for_unknown_connection_gets_rst_def
      tcp_data_defs tcp_fixture_defs tcp_eval)

section \<open>\<open>tests/flow_control.rs\<close>\<close>

definition after_handshake_with_snd_wnd :: "(u16, local_ep) seq_offset \<Rightarrow> conn_state" where
  "after_handshake_with_snd_wnd wnd = AFTER_HANDSHAKE\<lparr>tcp_state := Established (synced_test_new
     (window_test_new wnd (client_seq [REMOTE_SYN_BYTE]) (server_seq [LOCAL_SYN_BYTE])))\<rparr>"

text \<open>\<open>state.send_buffer.extend(..)\<close>\<close>

definition buffered :: "string \<Rightarrow> conn_state \<Rightarrow> conn_state" where
  "buffered b conn = conn\<lparr>send_buffer := send_buffer conn @ map of_char b\<rparr>"

definition small_window_truncates_echoed_payload_and_buffers_the_rest :: "u32 \<Rightarrow> instant \<Rightarrow> bool" where
  "small_window_truncates_echoed_payload_and_buffers_the_rest isn now \<longleftrightarrow>
     ok_and (from_test_str ''Hello'') (\<lambda>hello. ok_and (from_test_str ''Hel'') (\<lambda>hel.
     let window = SeqOffset 3; expected_state = after_handshake_with_snd_wnd window
     in reply_and isn now ((first_data hello)\<lparr>seg_window := window\<rparr>)
          (conns_insert expected_state connections_default) (\<lambda>reply conns.
          reply = Some (first_echo hel) \<and>
          state_is conns (buffered ''lo'' (advanced (u32_of_u16_offset window) REMOTE_HELLO_LEN expected_state)))))"

definition unacked_bytes_count_toward_room_left_in_send_window :: "u32 \<Rightarrow> instant \<Rightarrow> bool" where
  "unacked_bytes_count_toward_room_left_in_send_window isn now \<longleftrightarrow>
     ok_and (from_test_str ''Hello'') (\<lambda>hello.
     let window = SeqOffset 3; expected_state = after_handshake_with_snd_wnd window;
         dup_ack_same_window = CLIENT_PKT\<lparr>seg_seq_num := client_seq [REMOTE_SYN_BYTE, REMOTE_HELLO_LEN],
           seg_ack_num := server_seq [LOCAL_SYN_BYTE], seg_window := window\<rparr>
     in reply_and isn now ((first_data hello)\<lparr>seg_window := window\<rparr>)
          (conns_insert expected_state connections_default) (\<lambda>_ conns.
        let expected_state = buffered ''lo'' (advanced (u32_of_u16_offset window) REMOTE_HELLO_LEN expected_state)
        in state_and conns (\<lambda>state. conn_state_eq state expected_state \<and> precedes (snd_una state) (snd_nxt state)) \<and>
           reply_and isn now dup_ack_same_window conns (\<lambda>reply conns.
             reply = None \<and>
             state_is conns (expected_state\<lparr>tcp_state := Established (window_of dup_ack_same_window)\<rparr>))))"

definition window_opening_via_ack_drains_buffered_remainder :: "u32 \<Rightarrow> instant \<Rightarrow> bool" where
  "window_opening_via_ack_drains_buffered_remainder isn now \<longleftrightarrow>
     ok_and (from_test_str ''Hello'') (\<lambda>hello. ok_and (from_test_str ''lo'') (\<lambda>lo.
     let hel_len = SeqOffset 3; lo_len = SeqOffset 2; initial_window = SeqOffset 3; larger_window = SeqOffset 10;
         expected_state = after_handshake_with_snd_wnd initial_window;
         window_update = CLIENT_PKT\<lparr>seg_seq_num := client_seq [REMOTE_SYN_BYTE, REMOTE_HELLO_LEN],
           seg_ack_num := server_seq [LOCAL_SYN_BYTE, hel_len], seg_window := larger_window\<rparr>
     in reply_and isn now ((first_data hello)\<lparr>seg_window := initial_window\<rparr>)
          (conns_insert expected_state connections_default) (\<lambda>_ conns.
        let expected_state = buffered ''lo'' (advanced hel_len REMOTE_HELLO_LEN expected_state)
        in state_is conns expected_state \<and>
           reply_and isn now window_update conns (\<lambda>reply conns.
             reply = Some (SERVER_REPLY\<lparr>seg_seq_num := server_seq [LOCAL_SYN_BYTE, hel_len],
               seg_ack_num := client_seq [REMOTE_SYN_BYTE, REMOTE_HELLO_LEN], seg_payload := lo\<rparr>) \<and>
             state_is conns (expected_state\<lparr>snd_una := seq_add (snd_una expected_state) hel_len,
               snd_nxt := seq_add (snd_nxt expected_state) lo_len,
               tcp_state := Established (synced_test_new (window_test_new larger_window
                 (seg_seq_num window_update) (seg_ack_num window_update))), send_buffer := []\<rparr>)))))"

definition zero_window_buffers_entire_payload_and_gets_bare_ack :: "u32 \<Rightarrow> instant \<Rightarrow> bool" where
  "zero_window_buffers_entire_payload_and_gets_bare_ack isn now \<longleftrightarrow>
     ok_and (from_test_str ''Hello'') (\<lambda>hello.
     let zero_window = SeqOffset 0; expected_state = after_handshake_with_snd_wnd zero_window
     in reply_and isn now ((first_data hello)\<lparr>seg_window := zero_window\<rparr>)
          (conns_insert expected_state connections_default) (\<lambda>reply conns.
          reply = Some (first_echo None) \<and>
          state_is conns (buffered ''Hello''
            (expected_state\<lparr>rcv_nxt := seq_add (rcv_nxt expected_state) REMOTE_HELLO_LEN\<rparr>))))"

lemmas flow_control_defs = after_handshake_with_snd_wnd_def buffered_def tcp_data_defs

lemma flow_control_tests_pass:
  "small_window_truncates_echoed_payload_and_buffers_the_rest isn now \<and>
   unacked_bytes_count_toward_room_left_in_send_window isn now \<and>
   window_opening_via_ack_drains_buffered_remainder isn now \<and>
   zero_window_buffers_entire_payload_and_gets_bare_ack isn now"
  by (simp add: small_window_truncates_echoed_payload_and_buffers_the_rest_def
      unacked_bytes_count_toward_room_left_in_send_window_def window_opening_via_ack_drains_buffered_remainder_def
      zero_window_buffers_entire_payload_and_gets_bare_ack_def flow_control_defs tcp_fixture_defs tcp_eval)

section \<open>\<open>tests/window.rs\<close>\<close>

text \<open>A pure ACK behind the first data, with the acknowledgment and the window given.\<close>

definition ack_after_hello :: "local_ep seq_point \<Rightarrow> u16 \<Rightarrow> remote_segment" where
  "ack_after_hello ack window = CLIENT_PKT\<lparr>seg_seq_num := client_seq [REMOTE_SYN_BYTE, REMOTE_HELLO_LEN],
     seg_ack_num := ack, seg_window := SeqOffset window\<rparr>"

definition new_ack_adopts_window_from_segment :: "u32 \<Rightarrow> instant \<Rightarrow> bool" where
  "new_ack_adopts_window_from_segment isn now \<longleftrightarrow>
     ok_and (from_test_str ''Hello'') (\<lambda>hello.
     let conns = after_handshake connections_default;
         window_update = ack_after_hello (server_seq [LOCAL_SYN_BYTE, LOCAL_HELLO_LEN]) 12345
     in state_and conns (\<lambda>cloned_state.
          test_get_snd_wnd cloned_state \<noteq> Some (SeqOffset 12345) \<and>
        reply_and isn now (first_data hello) conns (\<lambda>_ conns.
        let cloned_state = advanced LOCAL_HELLO_LEN REMOTE_HELLO_LEN cloned_state
        in state_is conns cloned_state \<and>
           reply_and isn now window_update conns (\<lambda>reply conns.
             reply = None \<and>
             state_is conns ((acked LOCAL_HELLO_LEN cloned_state)
               \<lparr>tcp_state := Established (window_of window_update)\<rparr>)))))"

definition stale_segment_does_not_clobber_send_window :: "u32 \<Rightarrow> instant \<Rightarrow> bool" where
  "stale_segment_does_not_clobber_send_window isn now \<longleftrightarrow>
     ok_and (from_test_str ''Hello'') (\<lambda>hello.
     let conns = after_handshake connections_default;
         fresh_window_update = ack_after_hello (server_seq [LOCAL_SYN_BYTE]) 1000
     in state_and conns (\<lambda>cloned_state.
        reply_and isn now (first_data hello) conns (\<lambda>_ conns.
        let cloned_state = advanced LOCAL_HELLO_LEN REMOTE_HELLO_LEN cloned_state
        in state_is conns cloned_state \<and>
           reply_and isn now fresh_window_update conns (\<lambda>reply conns.
           let cloned_state = cloned_state\<lparr>tcp_state := Established (window_of fresh_window_update)\<rparr>
           in reply = None \<and> state_is conns cloned_state \<and>
              reply_and isn now (CLIENT_PKT\<lparr>seg_seq_num := client_seq [REMOTE_SYN_BYTE],
                  seg_ack_num := server_seq [LOCAL_SYN_BYTE, LOCAL_HELLO_LEN], seg_window := SeqOffset 65000\<rparr>) conns
                (\<lambda>reply conns. reply = None \<and> state_is conns (acked LOCAL_HELLO_LEN cloned_state))))))"

definition same_seq_but_fresher_ack_updates_window :: "u32 \<Rightarrow> instant \<Rightarrow> bool" where
  "same_seq_but_fresher_ack_updates_window isn now \<longleftrightarrow>
     ok_and (from_test_str ''Hello'') (\<lambda>hello. ok_and (from_test_str ''Hi'') (\<lambda>hi.
     let conns = after_handshake connections_default;
         hi_pkt = CLIENT_PKT\<lparr>seg_seq_num := client_seq [REMOTE_SYN_BYTE, REMOTE_HELLO_LEN],
           seg_ack_num := server_seq [LOCAL_SYN_BYTE], seg_payload := hi\<rparr>;
         window_update_1 = CLIENT_PKT\<lparr>seg_seq_num := client_seq [REMOTE_SYN_BYTE, REMOTE_HELLO_LEN, REMOTE_HI_LEN],
           seg_ack_num := server_seq [LOCAL_SYN_BYTE, LOCAL_HELLO_LEN], seg_window := SeqOffset 1000\<rparr>;
         window_update_2 = CLIENT_PKT\<lparr>seg_seq_num := client_seq [REMOTE_SYN_BYTE, REMOTE_HELLO_LEN, REMOTE_HI_LEN],
           seg_ack_num := server_seq [LOCAL_SYN_BYTE, LOCAL_HELLO_LEN, LOCAL_HI_LEN], seg_window := SeqOffset 2000\<rparr>
     in state_and conns (\<lambda>cloned_state.
        reply_and isn now (first_data hello) conns (\<lambda>_ conns.
        let cloned_state = advanced LOCAL_HELLO_LEN REMOTE_HELLO_LEN cloned_state
        in state_is conns cloned_state \<and>
           reply_and isn now hi_pkt conns (\<lambda>_ conns.
           let cloned_state = (advanced LOCAL_HI_LEN REMOTE_HI_LEN cloned_state)
                 \<lparr>tcp_state := Established (window_of hi_pkt)\<rparr>
           in state_is conns cloned_state \<and>
              reply_and isn now window_update_1 conns (\<lambda>reply conns.
              let cloned_state = (acked LOCAL_HELLO_LEN cloned_state)
                    \<lparr>tcp_state := Established (window_of window_update_1)\<rparr>
              in reply = None \<and> state_is conns cloned_state \<and>
                 reply_and isn now window_update_2 conns (\<lambda>reply conns.
                   reply = None \<and>
                   state_is conns ((acked LOCAL_HI_LEN cloned_state)
                     \<lparr>tcp_state := Established (window_of window_update_2)\<rparr>))))))))"

definition duplicate_ack_updates_window :: "u32 \<Rightarrow> instant \<Rightarrow> bool" where
  "duplicate_ack_updates_window isn now \<longleftrightarrow>
     ok_and (from_test_str ''Hello'') (\<lambda>hello.
     let conns = after_handshake connections_default;
         dup_ack_fresh_seq = ack_after_hello (server_seq [LOCAL_SYN_BYTE]) 777
     in state_and conns (\<lambda>cloned_state.
          test_get_snd_wnd cloned_state \<noteq> Some (SeqOffset 777) \<and>
        reply_and isn now (first_data hello) conns (\<lambda>_ conns.
        let cloned_state = advanced LOCAL_HELLO_LEN REMOTE_HELLO_LEN cloned_state
        in state_is conns cloned_state \<and>
           reply_and isn now dup_ack_fresh_seq conns (\<lambda>reply conns.
             reply = None \<and>
             state_is conns (cloned_state\<lparr>tcp_state := Established (window_of dup_ack_fresh_seq)\<rparr>)))))"

lemma window_tests_pass:
  "new_ack_adopts_window_from_segment isn now \<and> stale_segment_does_not_clobber_send_window isn now \<and>
   same_seq_but_fresher_ack_updates_window isn now \<and> duplicate_ack_updates_window isn now"
  by (simp add: new_ack_adopts_window_from_segment_def stale_segment_does_not_clobber_send_window_def
      same_seq_but_fresher_ack_updates_window_def duplicate_ack_updates_window_def ack_after_hello_def
      tcp_data_defs tcp_fixture_defs tcp_eval)

section \<open>\<open>tests/terminate.rs\<close>\<close>

definition fin_segment :: "tcp_payload option \<Rightarrow> remote_segment" where
  "fin_segment payload = (first_data payload)\<lparr>seg_flags := FinAck\<rparr>"

definition fin_ack_in_syn_received_establishes_and_closes_immediately :: "u32 \<Rightarrow> instant \<Rightarrow> bool" where
  "fin_ack_in_syn_received_establishes_and_closes_immediately isn now \<longleftrightarrow>
     (let conns = with_syn_rcv now connections_default; client_fin_ack = fin_segment None
      in state_and conns (\<lambda>cloned_state.
         reply_and isn now client_fin_ack conns (\<lambda>reply conns.
           reply = Some (SERVER_REPLY\<lparr>seg_seq_num := server_seq [LOCAL_SYN_BYTE],
             seg_ack_num := client_seq [REMOTE_SYN_BYTE, REMOTE_FIN_BYTE], seg_flags := FinAck\<rparr>) \<and>
           state_is conns ((acked LOCAL_SYN_BYTE (advanced LOCAL_FIN_BYTE REMOTE_FIN_BYTE cloned_state))
             \<lparr>tcp_state := LastAck (window_of client_fin_ack)\<rparr>))))"

definition creates_valid_fin_ack :: "u32 \<Rightarrow> instant \<Rightarrow> bool" where
  "creates_valid_fin_ack isn now \<longleftrightarrow>
     (let conns = after_handshake connections_default; client_fin_ack = fin_segment None
      in state_and conns (\<lambda>cloned_state.
         reply_and isn now client_fin_ack conns (\<lambda>reply conns.
           reply = Some (SERVER_REPLY\<lparr>seg_seq_num := server_seq [LOCAL_SYN_BYTE],
             seg_ack_num := client_seq [REMOTE_SYN_BYTE, REMOTE_FIN_BYTE], seg_flags := FinAck\<rparr>) \<and>
           state_is conns ((advanced LOCAL_SYN_BYTE REMOTE_FIN_BYTE cloned_state)
             \<lparr>tcp_state := LastAck (window_of client_fin_ack)\<rparr>))))"

definition fin_ack_acks_prior_data_and_advances_snd_una :: "u32 \<Rightarrow> instant \<Rightarrow> bool" where
  "fin_ack_acks_prior_data_and_advances_snd_una isn now \<longleftrightarrow>
     ok_and (from_test_str ''Hello'') (\<lambda>hello.
     let conns = after_handshake connections_default;
         client_fin_ack = CLIENT_PKT\<lparr>seg_seq_num := client_seq [REMOTE_SYN_BYTE, REMOTE_HELLO_LEN],
           seg_ack_num := server_seq [LOCAL_SYN_BYTE, LOCAL_HELLO_LEN], seg_flags := FinAck\<rparr>
     in state_and conns (\<lambda>cloned_state.
        reply_and isn now (first_data hello) conns (\<lambda>_ conns.
          state_and conns (\<lambda>state. map (\<lambda>seg. si_payload (peek_info seg)) (pending state) = [hello]) \<and>
        reply_and isn now client_fin_ack conns (\<lambda>_ conns.
        state_and conns (\<lambda>final_state.
          conn_state_eq final_state ((acked LOCAL_HELLO_LEN (advanced LOCAL_FIN_BYTE REMOTE_FIN_BYTE
            (advanced LOCAL_HELLO_LEN REMOTE_HELLO_LEN cloned_state)))
            \<lparr>tcp_state := LastAck (window_of client_fin_ack)\<rparr>) \<and>
          map (\<lambda>seg. si_flags (peek_info seg)) (pending final_state) = [FinAck])))))"

definition out_of_order_fin_ack_gets_duplicate_ack_without_closing :: "u32 \<Rightarrow> instant \<Rightarrow> bool" where
  "out_of_order_fin_ack_gets_duplicate_ack_without_closing isn now \<longleftrightarrow>
     (let conns = after_handshake connections_default;
          client_fin_ack = CLIENT_PKT\<lparr>seg_seq_num := client_seq [REMOTE_SYN_BYTE, REMOTE_HELLO_LEN],
            seg_ack_num := server_seq [LOCAL_SYN_BYTE], seg_flags := FinAck\<rparr>
      in state_and conns (\<lambda>cloned_state.
         reply_and isn now client_fin_ack conns (\<lambda>reply conns.
           reply = Some (SERVER_REPLY\<lparr>seg_seq_num := server_seq [LOCAL_SYN_BYTE],
             seg_ack_num := client_seq [REMOTE_SYN_BYTE]\<rparr>) \<and>
           state_is conns (cloned_state\<lparr>tcp_state := Established (window_of client_fin_ack)\<rparr>))))"

definition partial_ack_in_last_ack_does_not_close_connection :: "u32 \<Rightarrow> instant \<Rightarrow> bool" where
  "partial_ack_in_last_ack_does_not_close_connection isn now \<longleftrightarrow>
     ok_and (from_test_str ''Hello'') (\<lambda>hello.
     let conns = after_handshake connections_default; client_fin_ack = fin_segment hello;
         partial_ack = CLIENT_PKT\<lparr>seg_seq_num := client_seq [REMOTE_SYN_BYTE, REMOTE_HELLO_LEN, REMOTE_FIN_BYTE],
           seg_ack_num := server_seq [LOCAL_SYN_BYTE, LOCAL_HELLO_LEN]\<rparr>
     in state_and conns (\<lambda>cloned_state.
        reply_and isn now client_fin_ack conns (\<lambda>_ conns.
        let cloned_state = (advanced (offset_add LOCAL_HELLO_LEN LOCAL_FIN_BYTE)
              (offset_add REMOTE_HELLO_LEN REMOTE_FIN_BYTE) cloned_state)
              \<lparr>tcp_state := LastAck (window_of client_fin_ack)\<rparr>
        in state_is conns cloned_state \<and>
           reply_and isn now partial_ack conns (\<lambda>reply conns.
             reply = None \<and>
             state_is conns ((acked LOCAL_HELLO_LEN cloned_state)
               \<lparr>tcp_state := LastAck (window_of partial_ack)\<rparr>)))))"

definition final_ack_after_fin_ack_removes_connection_and_returns_none :: "u32 \<Rightarrow> instant \<Rightarrow> bool" where
  "final_ack_after_fin_ack_removes_connection_and_returns_none isn now \<longleftrightarrow>
     (let conns = after_handshake connections_default; client_fin_ack = fin_segment None
      in state_and conns (\<lambda>cloned_state.
         reply_and isn now client_fin_ack conns (\<lambda>_ conns.
           state_is conns ((advanced LOCAL_FIN_BYTE REMOTE_FIN_BYTE cloned_state)
             \<lparr>tcp_state := LastAck (window_of client_fin_ack)\<rparr>) \<and>
         reply_and isn now (CLIENT_PKT\<lparr>seg_seq_num := client_seq [REMOTE_SYN_BYTE, REMOTE_FIN_BYTE],
             seg_ack_num := server_seq [LOCAL_SYN_BYTE, LOCAL_FIN_BYTE]\<rparr>) conns (\<lambda>reply conns.
           reply = None \<and> conns_try_get conns = None))))"

definition close_established_sends_fin_ack_and_transitions_to_fin_wait_1 :: "u32 \<Rightarrow> instant \<Rightarrow> bool" where
  "close_established_sends_fin_ack_and_transitions_to_fin_wait_1 isn now \<longleftrightarrow>
     (let conns = after_handshake connections_default
      in state_and conns (\<lambda>cloned_state.
         let (replies, conns) = close_established now conns
         in replies = [SERVER_REPLY\<lparr>seg_seq_num := server_seq [LOCAL_SYN_BYTE],
              seg_ack_num := client_seq [REMOTE_SYN_BYTE], seg_flags := FinAck\<rparr>] \<and>
            map seg_ip_pair replies = [ip_swapped REMOTE_TO_LOCAL_IP_PAIR] \<and>
            state_is conns (cloned_state\<lparr>tcp_state := FinWait1 (synced_test_new WINDOW_AFTER_HANDSHAKE),
              snd_nxt := seq_add (snd_nxt cloned_state) LOCAL_FIN_BYTE\<rparr>)))"

definition in_fin_wait_1 :: "instant \<Rightarrow> tcp_connections" where
  "in_fin_wait_1 now = snd (close_established now (after_handshake connections_default))"

definition ack_of_fin :: remote_segment where
  "ack_of_fin = CLIENT_PKT\<lparr>seg_seq_num := client_seq [REMOTE_SYN_BYTE],
     seg_ack_num := server_seq [LOCAL_SYN_BYTE, LOCAL_FIN_BYTE]\<rparr>"

definition final_ack :: "(u32, remote_ep) seq_offset list \<Rightarrow> local_segment" where
  "final_ack received = SERVER_REPLY\<lparr>seg_seq_num := server_seq [LOCAL_SYN_BYTE, LOCAL_FIN_BYTE],
     seg_ack_num := client_seq (REMOTE_SYN_BYTE # received)\<rparr>"

definition in_fin_wait_2_state :: "conn_state \<Rightarrow> conn_state" where
  "in_fin_wait_2_state conn = (acked LOCAL_FIN_BYTE conn)\<lparr>tcp_state := FinWait2 (window_of ack_of_fin)\<rparr>"

definition fin_wait_1_to_fin_wait_2_on_ack_of_our_fin :: "u32 \<Rightarrow> instant \<Rightarrow> bool" where
  "fin_wait_1_to_fin_wait_2_on_ack_of_our_fin isn now \<longleftrightarrow>
     (let conns = in_fin_wait_1 now
      in state_and conns (\<lambda>cloned_state.
         reply_and isn now ack_of_fin conns (\<lambda>reply conns.
           reply = None \<and> state_is conns (in_fin_wait_2_state cloned_state))))"

definition fin_wait_2_closes_on_fin_ack_from_peer :: "u32 \<Rightarrow> instant \<Rightarrow> bool" where
  "fin_wait_2_closes_on_fin_ack_from_peer isn now \<longleftrightarrow>
     (let conns = in_fin_wait_1 now
      in state_and conns (\<lambda>cloned_state.
         reply_and isn now ack_of_fin conns (\<lambda>reply conns.
           reply = None \<and> state_is conns (in_fin_wait_2_state cloned_state) \<and>
         reply_and isn now (ack_of_fin\<lparr>seg_flags := FinAck\<rparr>) conns (\<lambda>fin_reply conns.
           fin_reply = Some (final_ack [REMOTE_FIN_BYTE]) \<and> conns_try_get conns = None))))"

definition fin_wait_1_closes_immediately_if_peers_fin_also_acks_ours :: "u32 \<Rightarrow> instant \<Rightarrow> bool" where
  "fin_wait_1_closes_immediately_if_peers_fin_also_acks_ours isn now \<longleftrightarrow>
     reply_and isn now (ack_of_fin\<lparr>seg_flags := FinAck\<rparr>) (in_fin_wait_1 now) (\<lambda>reply conns.
       reply = Some (final_ack [REMOTE_FIN_BYTE]) \<and> conns_try_get conns = None)"

definition data_after_our_fin_in_fin_wait_1_is_acked_without_echo :: "u32 \<Rightarrow> instant \<Rightarrow> bool" where
  "data_after_our_fin_in_fin_wait_1_is_acked_without_echo isn now \<longleftrightarrow>
     ok_and (from_test_str ''Hello'') (\<lambda>hello.
     let conns = in_fin_wait_1 now
     in state_and conns (\<lambda>cloned_state.
        reply_and isn now (first_data hello) conns (\<lambda>reply conns.
          reply = Some (final_ack [REMOTE_HELLO_LEN]) \<and>
          state_is conns (cloned_state\<lparr>rcv_nxt := seq_add (rcv_nxt cloned_state) REMOTE_HELLO_LEN\<rparr>))))"

definition data_after_our_fin_in_fin_wait_2_is_acked_without_echo :: "u32 \<Rightarrow> instant \<Rightarrow> bool" where
  "data_after_our_fin_in_fin_wait_2_is_acked_without_echo isn now \<longleftrightarrow>
     ok_and (from_test_str ''Hello'') (\<lambda>hello.
     let conns = in_fin_wait_1 now
     in state_and conns (\<lambda>cloned_state.
        reply_and isn now ack_of_fin conns (\<lambda>reply conns.
        let cloned_state = in_fin_wait_2_state cloned_state
        in reply = None \<and> state_is conns cloned_state \<and>
           reply_and isn now (ack_of_fin\<lparr>seg_payload := hello\<rparr>) conns (\<lambda>reply conns.
             reply = Some (final_ack [REMOTE_HELLO_LEN]) \<and>
             state_is conns (cloned_state\<lparr>rcv_nxt := seq_add (rcv_nxt cloned_state) REMOTE_HELLO_LEN\<rparr>)))))"

definition simultaneous_close_transitions_through_closing_to_closed :: "u32 \<Rightarrow> instant \<Rightarrow> bool" where
  "simultaneous_close_transitions_through_closing_to_closed isn now \<longleftrightarrow>
     (let conns = in_fin_wait_1 now; client_fin_ack = fin_segment None
      in state_and conns (\<lambda>cloned_state.
         reply_and isn now client_fin_ack conns (\<lambda>reply conns.
           reply = Some (final_ack [REMOTE_FIN_BYTE]) \<and>
           state_is conns (cloned_state\<lparr>tcp_state := Closing (window_of client_fin_ack),
             rcv_nxt := seq_add (rcv_nxt cloned_state) REMOTE_FIN_BYTE\<rparr>) \<and>
         reply_and isn now (CLIENT_PKT\<lparr>seg_seq_num := client_seq [REMOTE_SYN_BYTE, REMOTE_FIN_BYTE],
             seg_ack_num := server_seq [LOCAL_SYN_BYTE, LOCAL_FIN_BYTE]\<rparr>) conns (\<lambda>reply conns.
           reply = None \<and> conns_try_get conns = None))))"

definition fin_ack_with_data_in_fin_wait_1_advances_rcv_nxt_past_data_and_fin :: "u32 \<Rightarrow> instant \<Rightarrow> bool" where
  "fin_ack_with_data_in_fin_wait_1_advances_rcv_nxt_past_data_and_fin isn now \<longleftrightarrow>
     ok_and (from_test_str ''Hello'') (\<lambda>hello.
     let conns = in_fin_wait_1 now; fin_ack_with_data = fin_segment hello
     in state_and conns (\<lambda>cloned_state.
        reply_and isn now fin_ack_with_data conns (\<lambda>reply conns.
          reply = Some (final_ack [REMOTE_HELLO_LEN, REMOTE_FIN_BYTE]) \<and>
          state_is conns (cloned_state\<lparr>tcp_state := Closing (window_of fin_ack_with_data),
            rcv_nxt := seq_add (rcv_nxt cloned_state) (offset_add REMOTE_HELLO_LEN REMOTE_FIN_BYTE)\<rparr>))))"

definition fin_ack_with_data_in_fin_wait_1_acking_our_fin_closes_immediately :: "u32 \<Rightarrow> instant \<Rightarrow> bool" where
  "fin_ack_with_data_in_fin_wait_1_acking_our_fin_closes_immediately isn now \<longleftrightarrow>
     ok_and (from_test_str ''Hello'') (\<lambda>hello.
     reply_and isn now (ack_of_fin\<lparr>seg_flags := FinAck, seg_payload := hello\<rparr>) (in_fin_wait_1 now) (\<lambda>reply conns.
       reply = Some (final_ack [REMOTE_HELLO_LEN, REMOTE_FIN_BYTE]) \<and> conns_try_get conns = None))"

definition fin_ack_with_data_in_fin_wait_2_advances_rcv_nxt_past_data_and_fin :: "u32 \<Rightarrow> instant \<Rightarrow> bool" where
  "fin_ack_with_data_in_fin_wait_2_advances_rcv_nxt_past_data_and_fin isn now \<longleftrightarrow>
     ok_and (from_test_str ''Hello'') (\<lambda>hello.
     reply_and isn now ack_of_fin (in_fin_wait_1 now) (\<lambda>reply conns.
       reply = None \<and>
     reply_and isn now (ack_of_fin\<lparr>seg_flags := FinAck, seg_payload := hello\<rparr>) conns (\<lambda>reply conns.
       reply = Some (final_ack [REMOTE_HELLO_LEN, REMOTE_FIN_BYTE]) \<and> conns_try_get conns = None)))"

definition fin_ack_with_data_in_established_echoes_data_and_starts_closing :: "u32 \<Rightarrow> instant \<Rightarrow> bool" where
  "fin_ack_with_data_in_established_echoes_data_and_starts_closing isn now \<longleftrightarrow>
     ok_and (from_test_str ''Hello'') (\<lambda>hello.
     let conns = after_handshake connections_default; fin_ack_with_data = fin_segment hello
     in state_and conns (\<lambda>cloned_state.
        reply_and isn now fin_ack_with_data conns (\<lambda>reply conns.
          reply = Some (SERVER_REPLY\<lparr>seg_seq_num := server_seq [LOCAL_SYN_BYTE],
            seg_ack_num := client_seq [REMOTE_SYN_BYTE, REMOTE_HELLO_LEN, REMOTE_FIN_BYTE],
            seg_flags := FinAck, seg_payload := hello\<rparr>) \<and>
          state_is conns ((advanced (offset_add LOCAL_HELLO_LEN LOCAL_FIN_BYTE)
            (offset_add REMOTE_HELLO_LEN REMOTE_FIN_BYTE) cloned_state)
            \<lparr>tcp_state := LastAck (window_of fin_ack_with_data)\<rparr>))))"

definition fin_ack_with_data_in_established_buffers_the_untransmittable_remainder :: "u32 \<Rightarrow> instant \<Rightarrow> bool" where
  "fin_ack_with_data_in_established_buffers_the_untransmittable_remainder isn now \<longleftrightarrow>
     ok_and (from_test_str ''Hello'') (\<lambda>hello. ok_and (from_test_str ''Hel'') (\<lambda>hel.
     let small_window = SeqOffset 3;
         expected_state = AFTER_HANDSHAKE\<lparr>tcp_state := Established (synced_test_new (window_test_new small_window
           (client_seq [REMOTE_SYN_BYTE]) (server_seq [LOCAL_SYN_BYTE])))\<rparr>;
         fin_ack_with_data = (fin_segment hello)\<lparr>seg_window := small_window\<rparr>
     in reply_and isn now fin_ack_with_data (conns_insert expected_state connections_default) (\<lambda>reply conns.
          reply = Some (SERVER_REPLY\<lparr>seg_seq_num := server_seq [LOCAL_SYN_BYTE],
            seg_ack_num := client_seq [REMOTE_SYN_BYTE, REMOTE_HELLO_LEN, REMOTE_FIN_BYTE],
            seg_flags := FinAck, seg_payload := hel\<rparr>) \<and>
          state_is conns (buffered ''lo'' ((advanced (offset_add (u32_of_u16_offset small_window) LOCAL_FIN_BYTE)
            (offset_add REMOTE_HELLO_LEN REMOTE_FIN_BYTE) expected_state)
            \<lparr>tcp_state := LastAck (window_of fin_ack_with_data)\<rparr>)))))"

lemmas terminate_defs = fin_segment_def in_fin_wait_1_def ack_of_fin_def final_ack_def in_fin_wait_2_state_def
  offset_add_def flow_control_defs

lemma passive_close_tests_pass:
  "fin_ack_in_syn_received_establishes_and_closes_immediately isn now \<and> creates_valid_fin_ack isn now \<and>
   fin_ack_acks_prior_data_and_advances_snd_una isn now \<and>
   out_of_order_fin_ack_gets_duplicate_ack_without_closing isn now"
  by (simp add: fin_ack_in_syn_received_establishes_and_closes_immediately_def creates_valid_fin_ack_def
      fin_ack_acks_prior_data_and_advances_snd_una_def
      out_of_order_fin_ack_gets_duplicate_ack_without_closing_def terminate_defs tcp_fixture_defs tcp_eval)

lemma last_ack_tests_pass:
  "partial_ack_in_last_ack_does_not_close_connection isn now \<and>
   final_ack_after_fin_ack_removes_connection_and_returns_none isn now \<and>
   fin_ack_with_data_in_established_echoes_data_and_starts_closing isn now \<and>
   fin_ack_with_data_in_established_buffers_the_untransmittable_remainder isn now"
  by (simp add: partial_ack_in_last_ack_does_not_close_connection_def
      final_ack_after_fin_ack_removes_connection_and_returns_none_def
      fin_ack_with_data_in_established_echoes_data_and_starts_closing_def
      fin_ack_with_data_in_established_buffers_the_untransmittable_remainder_def
      terminate_defs tcp_fixture_defs tcp_eval)

lemma active_close_tests_pass:
  "close_established_sends_fin_ack_and_transitions_to_fin_wait_1 isn now \<and>
   fin_wait_1_to_fin_wait_2_on_ack_of_our_fin isn now \<and> fin_wait_2_closes_on_fin_ack_from_peer isn now \<and>
   fin_wait_1_closes_immediately_if_peers_fin_also_acks_ours isn now \<and>
   simultaneous_close_transitions_through_closing_to_closed isn now"
  by (simp add: close_established_sends_fin_ack_and_transitions_to_fin_wait_1_def
      fin_wait_1_to_fin_wait_2_on_ack_of_our_fin_def fin_wait_2_closes_on_fin_ack_from_peer_def
      fin_wait_1_closes_immediately_if_peers_fin_also_acks_ours_def
      simultaneous_close_transitions_through_closing_to_closed_def terminate_defs tcp_fixture_defs tcp_eval)

lemma data_after_fin_tests_pass:
  "data_after_our_fin_in_fin_wait_1_is_acked_without_echo isn now \<and>
   data_after_our_fin_in_fin_wait_2_is_acked_without_echo isn now \<and>
   fin_ack_with_data_in_fin_wait_1_advances_rcv_nxt_past_data_and_fin isn now \<and>
   fin_ack_with_data_in_fin_wait_1_acking_our_fin_closes_immediately isn now \<and>
   fin_ack_with_data_in_fin_wait_2_advances_rcv_nxt_past_data_and_fin isn now"
  by (simp add: data_after_our_fin_in_fin_wait_1_is_acked_without_echo_def
      data_after_our_fin_in_fin_wait_2_is_acked_without_echo_def
      fin_ack_with_data_in_fin_wait_1_advances_rcv_nxt_past_data_and_fin_def
      fin_ack_with_data_in_fin_wait_1_acking_our_fin_closes_immediately_def
      fin_ack_with_data_in_fin_wait_2_advances_rcv_nxt_past_data_and_fin_def
      terminate_defs tcp_fixture_defs tcp_eval)

section \<open>\<open>tests/retransmit.rs\<close>\<close>

text \<open>
  Here the tests read the clock more than once: \<open>now\<close> when the segment is answered, then one reading per round
  of retransmissions, each with the reading \<open>time_due\<close> would fall back to, which no test reaches.
\<close>

definition connections_with_retries :: "u8 \<Rightarrow> tcp_connections" where
  "connections_with_retries retries = connections_new rto_config_default retries"

definition syn_ack_is_resent_while_due :: "u32 \<Rightarrow> instant \<Rightarrow> instant \<Rightarrow> bool" where
  "syn_ack_is_resent_while_due isn now later \<longleftrightarrow>
     reply_and isn now (CLIENT_PKT\<lparr>seg_seq_num := CLIENT_ISN, seg_flags := Syn\<rparr>) (connections_with_retries 5)
       (\<lambda>_ conns. state_and conns (\<lambda>stored.
         let (resent, _) = make_retransmissions later later conns
         in resent = [SERVER_REPLY\<lparr>seg_seq_num := snd_una stored, seg_ack_num := client_seq [REMOTE_SYN_BYTE],
              seg_flags := SynAck\<rparr>] \<and>
            map seg_ip_pair resent = [ip_swapped REMOTE_TO_LOCAL_IP_PAIR]))"

definition pending_segment_is_cleared_once_acked :: "u32 \<Rightarrow> instant \<Rightarrow> instant \<Rightarrow> bool" where
  "pending_segment_is_cleared_once_acked isn now later \<longleftrightarrow>
     reply_and isn now (CLIENT_PKT\<lparr>seg_seq_num := CLIENT_ISN, seg_flags := Syn\<rparr>) (connections_with_retries 5)
       (\<lambda>_ conns. state_and conns (\<lambda>stored.
         reply_and isn now (CLIENT_PKT\<lparr>seg_seq_num := client_seq [REMOTE_SYN_BYTE],
             seg_ack_num := seq_add (snd_una stored) LOCAL_SYN_BYTE\<rparr>) conns (\<lambda>_ conns.
           fst (make_retransmissions later later conns) = [])))"

definition data_echo_is_resent_unchanged :: "u32 \<Rightarrow> instant \<Rightarrow> instant \<Rightarrow> bool" where
  "data_echo_is_resent_unchanged isn now later \<longleftrightarrow>
     ok_and (from_test_str ''Hello'') (\<lambda>hello.
     reply_and isn now (first_data hello) (after_handshake (connections_with_retries 5)) (\<lambda>_ conns.
       fst (make_retransmissions later later conns) = [first_echo hello]))"

definition fin_ack_is_resent_unchanged :: "instant \<Rightarrow> instant \<Rightarrow> bool" where
  "fin_ack_is_resent_unchanged now later \<longleftrightarrow>
     (let (_, conns) = close_established now (after_handshake (connections_with_retries 5))
      in fst (make_retransmissions later later conns)
           = [SERVER_REPLY\<lparr>seg_seq_num := server_seq [LOCAL_SYN_BYTE], seg_ack_num := client_seq [REMOTE_SYN_BYTE],
                seg_flags := FinAck\<rparr>])"

definition multiple_unacked_segments_are_all_retransmitted :: "u32 \<Rightarrow> instant \<Rightarrow> instant \<Rightarrow> bool" where
  "multiple_unacked_segments_are_all_retransmitted isn now later \<longleftrightarrow>
     ok_and (from_test_str ''Hello'') (\<lambda>hello. ok_and (from_test_str ''Hi'') (\<lambda>hi.
     reply_and isn now (first_data hello) (after_handshake (connections_with_retries 5)) (\<lambda>_ conns.
     reply_and isn now (CLIENT_PKT\<lparr>seg_seq_num := client_seq [REMOTE_SYN_BYTE, REMOTE_HELLO_LEN],
         seg_ack_num := server_seq [LOCAL_SYN_BYTE], seg_payload := hi\<rparr>) conns (\<lambda>_ conns.
       fst (make_retransmissions later later conns) = [first_echo hello, second_echo hi]))))"

text \<open>The loop of the test as a recursion over the readings of the clock.\<close>

fun still_retried :: "instant list \<Rightarrow> tcp_connections \<Rightarrow> (tcp_connections \<Rightarrow> bool) \<Rightarrow> bool" where
  "still_retried [] conns P = P conns"
| "still_retried (t # ts) conns P =
     (let (resent, conns) = make_retransmissions t t conns
      in length resent = 1 \<and> state_and conns (\<lambda>conn. tcp_state conn = SynReceived SynReceivedMark) \<and>
         still_retried ts conns P)"

definition gives_up_after_max_retransmits :: "u32 \<Rightarrow> instant \<Rightarrow> instant \<Rightarrow> instant \<Rightarrow> instant \<Rightarrow> instant \<Rightarrow> bool" where
  "gives_up_after_max_retransmits isn now t1 t2 t3 t4 \<longleftrightarrow>
     reply_and isn now (CLIENT_PKT\<lparr>seg_seq_num := CLIENT_ISN, seg_flags := Syn\<rparr>) (connections_with_retries 3)
       (\<lambda>_ conns. still_retried [t1, t2, t3] conns (\<lambda>conns.
         let (resent, conns) = make_retransmissions t4 t4 conns
         in resent = [] \<and> conns_try_get conns = None))"

text \<open>\<open>ms\<close> milliseconds after \<open>now\<close>; between two sleeps the clock stands still.\<close>

definition resent_after :: "instant \<Rightarrow> u64 \<Rightarrow> tcp_connections \<Rightarrow> nat \<times> tcp_connections" where
  "resent_after now ms conns =
     (let (resent, conns) = make_retransmissions (now + duration_from_millis ms) now conns in (length resent, conns))"

definition retransmissions_back_off_exponentially :: "u32 \<Rightarrow> instant \<Rightarrow> bool" where
  "retransmissions_back_off_exponentially isn now \<longleftrightarrow>
     ok_and (from_test_str ''Hello'') (\<lambda>hello.
     reply_and isn now (first_data hello) (after_handshake (connections_new
         (rto_config_default\<lparr>rto_initial := duration_from_millis 10\<rparr>) 3)) (\<lambda>_ conns.
       let (n0, conns) = resent_after now 0 conns; (n1, conns) = resent_after now 10 conns;
           (n2, conns) = resent_after now 20 conns; (n3, conns) = resent_after now 30 conns;
           (n4, conns) = resent_after now 50 conns; (n5, conns) = resent_after now 70 conns;
           (n6, conns) = resent_after now 70 conns
       in [n0, n1, n2, n3, n4, n5, n6] = [0, 1, 0, 1, 0, 1, 0]))"

lemmas retransmit_eval = connections_with_retries_def connections_new_def make_retransmissions_def
  retransmit_key_def is_due_def time_due_def duration_clamp_def duration_saturating_mul_def
  u32_saturating_pow_def instant_checked_add_def DURATION_MAX_def INSTANT_MAX_def NANOS_PER_SEC_def
  exhausted_retries_def retransmit_info_def u8_saturating_add_def

lemma resending_tests_pass:
  assumes "now \<le> later" and "later \<le> INSTANT_MAX"
  shows "syn_ack_is_resent_while_due isn now later \<and> pending_segment_is_cleared_once_acked isn now later \<and>
    data_echo_is_resent_unchanged isn now later \<and> fin_ack_is_resent_unchanged now later \<and>
    multiple_unacked_segments_are_all_retransmitted isn now later"
  using assms
  by (simp add: syn_ack_is_resent_while_due_def pending_segment_is_cleared_once_acked_def
      data_echo_is_resent_unchanged_def fin_ack_is_resent_unchanged_def
      multiple_unacked_segments_are_all_retransmitted_def
      retransmit_eval tcp_data_defs tcp_fixture_defs tcp_eval)

lemma giving_up_test_passes:
  assumes "now \<le> t1" and "t1 \<le> t2" and "t2 \<le> t3" and "t3 \<le> t4" and "t4 \<le> INSTANT_MAX"
  shows "gives_up_after_max_retransmits isn now t1 t2 t3 t4"
  using assms
  by (simp add: gives_up_after_max_retransmits_def retransmit_eval tcp_data_defs tcp_fixture_defs tcp_eval)
     (simp add: word_le_nat_alt)

lemma back_off_test_passes:
  assumes "now + duration_from_millis 150 \<le> INSTANT_MAX"
  shows "retransmissions_back_off_exponentially isn now"
  using assms
  by (simp add: retransmissions_back_off_exponentially_def resent_after_def duration_from_millis_def
      retransmit_eval tcp_data_defs tcp_fixture_defs tcp_eval)
     (simp add: word_le_nat_alt)

section \<open>\<open>tests/parse.rs\<close>\<close>

definition correct_for_valid_segment :: bool where
  "correct_for_valid_segment \<longleftrightarrow>
     ok_and (tcp_parse [0x04, 0xD2, 0x00, 0x50, 0x00, 0x00, 0x00, 0x01, 0x00, 0x00, 0x00, 0x02, 0x50, 0x12,
       0x72, 0x10, 0x00, 0xC4, 0x00, 0x00, 0x48, 0x65, 0x6C, 0x6C, 0x6F] REMOTE_TO_LOCAL_IP_PAIR) (\<lambda>seg.
       seg_ports seg = PortPair 1234 80 \<and> seg_seq_num seg = SeqPoint 1 \<and> seg_ack_num seg = SeqPoint 2 \<and>
       seg_offset_bytes seg = 20 \<and> seg_flags seg = SynAck \<and> seg_window seg = SeqOffset 29200 \<and>
       map_option payload_data (seg_payload seg) = Some (map of_char ''Hello''))"

definition fails_when_too_short :: bool where
  "fails_when_too_short \<longleftrightarrow> err_and (tcp_parse [0x04, 0xD2, 0x00, 0x50] REMOTE_TO_LOCAL_IP_PAIR) is_too_short"

definition fails_for_invalid_cksum :: bool where
  "fails_for_invalid_cksum \<longleftrightarrow>
     err_and (tcp_parse [0x04, 0xD2, 0x00, 0x50, 0x00, 0x00, 0x00, 0x01, 0x00, 0x00, 0x00, 0x02, 0x50, 0x12,
       0xFF, 0xFF, 0x00, 0x00, 0x00, 0x00, 0x48, 0x65, 0x6C, 0x6C, 0x6F] REMOTE_TO_LOCAL_IP_PAIR) is_checksum_error"

definition handles_large_sequence_numbers :: bool where
  "handles_large_sequence_numbers \<longleftrightarrow>
     ok_and (tcp_parse [0x04, 0xD2, 0x00, 0x50, 0xFF, 0xFF, 0xFF, 0xFF, 0xFE, 0xDC, 0xBA, 0x98, 0x50, 0x10,
       0xFF, 0xFF, 0xDD, 0x3A, 0x00, 0x00] REMOTE_TO_LOCAL_IP_PAIR) (\<lambda>seg.
       seg_seq_num seg = SeqPoint 0xFFFFFFFF \<and> seg_ack_num seg = SeqPoint 0xFEDCBA98)"

lemmas tcp_parse_eval = tcp_parse_def tcp_inner_parse_def TCP_HDR_MIN_LEN_def REMOTE_TO_LOCAL_IP_PAIR_def
  pseudo_hdr_cksum_ok ETHERNET_MTU_def calculate_0_iff pseudo_header_def from_be_bytes_def u16_to_be_bytes_def
  tcp_flags_try_from_def FLAGS_MASK_def flag_bits u16_try_from_def is_too_short_def is_checksum_error_def Let_def

lemma tcp_parse_tests_pass:
  "correct_for_valid_segment \<and> fails_when_too_short \<and> fails_for_invalid_cksum \<and> handles_large_sequence_numbers"
  by (simp add: correct_for_valid_segment_def fails_when_too_short_def fails_for_invalid_cksum_def
      handles_large_sequence_numbers_def tcp_parse_eval)

section \<open>\<open>tests/write.rs\<close>\<close>

text \<open>As in the tests of UDP, the segment is written behind the 20 bytes of the IPv4 header.\<close>

definition write_into_produces_correct_bytes_with_no_payload :: bool where
  "write_into_produces_correct_bytes_with_no_payload \<longleftrightarrow>
     (let seg = \<lparr>seg_ip_pair = LOCAL_TO_REMOTE_IP_PAIR, seg_ports = PortPair 80 1234,
            seg_seq_num = SeqPoint 0x10000000, seg_ack_num = SeqPoint 0x00001001, seg_offset_bytes = 20,
            seg_flags = SynAck, seg_window = SeqOffset 29200, seg_payload = None\<rparr>;
          (r, tail) = tcp_write_into seg (drop 20 (replicate ETHERNET_MTU 0));
          reply = replicate 20 0 @ tail
      in ok_and r (\<lambda>tcp_len. tcp_len = 20) \<and>
         slice reply 20 22 = [0x00, 0x50] \<and> slice reply 22 24 = [0x04, 0xD2] \<and>
         slice reply 24 28 = [0x10, 0x00, 0x00, 0x00] \<and> slice reply 28 32 = [0x00, 0x00, 0x10, 0x01] \<and>
         reply ! 32 = 0x50 \<and> reply ! 33 = 0x12 \<and> slice reply 34 36 = [0x72, 0x10] \<and>
         slice reply 38 40 = [0x00, 0x00] \<and>
         ok_and (pseudo_hdr_cksum (slice reply 20 40) REMOTE_TO_LOCAL_IP_PAIR Tcp) (\<lambda>c. c = 0))"

definition write_into_produces_correct_bytes_with_payload :: bool where
  "write_into_produces_correct_bytes_with_payload \<longleftrightarrow>
     ok_and (from_test_str ''Hello'') (\<lambda>hello.
     let seg = \<lparr>seg_ip_pair = LOCAL_TO_REMOTE_IP_PAIR, seg_ports = PortPair 80 1234,
           seg_seq_num = SeqPoint 1, seg_ack_num = SeqPoint 4102, seg_offset_bytes = 20,
           seg_flags = Ack, seg_window = SeqOffset 0xFFFF, seg_payload = hello\<rparr>;
         (r, tail) = tcp_write_into seg (drop 20 (replicate ETHERNET_MTU 0));
         reply = replicate 20 0 @ tail
     in ok_and r (\<lambda>tcp_len. tcp_len = 25) \<and> slice reply 40 45 = map of_char ''Hello'' \<and>
        ok_and (pseudo_hdr_cksum (slice reply 20 45) REMOTE_TO_LOCAL_IP_PAIR Tcp) (\<lambda>c. c = 0))"

lemmas tcp_wire_eval = tcp_fields_def tcp_tail_def point_to_be_bytes_def offset_to_be_bytes_def u32_to_be_bytes_def
  u16_to_be_bytes_def flag_bits pseudo_header_def LOCAL_TO_REMOTE_IP_PAIR_def REMOTE_TO_LOCAL_IP_PAIR_def ip_swapped_def

lemma tcp_write_test_without_payload_passes: "write_into_produces_correct_bytes_with_no_payload"
proof -
  let ?seg = "\<lparr>seg_ip_pair = LOCAL_TO_REMOTE_IP_PAIR, seg_ports = PortPair 80 1234,
    seg_seq_num = SeqPoint 0x10000000, seg_ack_num = SeqPoint 0x00001001, seg_offset_bytes = 20,
    seg_flags = SynAck, seg_window = SeqOffset 29200, seg_payload = None\<rparr> :: local_segment"
  have c: "tcp_cksum ?seg = 0x049D"
    by (simp add: tcp_cksum_def tcp_wire_eval calculate_eq_iff ones_norm_def)
  have "tcp_wire ?seg = [0, 0x50, 0x04, 0xD2, 0x10, 0, 0, 0, 0, 0, 0x10, 0x01, 0x50, 0x12, 0x72, 0x10, 0x04, 0x9D, 0, 0]"
    by (simp add: tcp_wire_def c) (simp add: tcp_wire_eval)
  moreover have "tcp_write_into ?seg (replicate (ETHERNET_MTU - 20) 0) = (Inr 20, tcp_wire ?seg @ replicate 1460 0)"
    using tcp_write_into_fits [of ?seg "replicate 1480 0"] by (simp add: tcp_write_into_def segment_ok_def ETHERNET_MTU_def)
  ultimately show ?thesis
    by (simp add: write_into_produces_correct_bytes_with_no_payload_def Let_def slice_def nth_append)
       (simp add: pseudo_hdr_cksum_ok ETHERNET_MTU_def calculate_0_iff tcp_wire_eval)
qed

lemma tcp_write_test_with_payload_passes: "write_into_produces_correct_bytes_with_payload"
proof -
  let ?hello = "\<lparr>payload_data = [0x48, 0x65, 0x6C, 0x6C, 0x6F], payload_len = 5\<rparr>"
  let ?seg = "\<lparr>seg_ip_pair = LOCAL_TO_REMOTE_IP_PAIR, seg_ports = PortPair 80 1234,
    seg_seq_num = SeqPoint 1, seg_ack_num = SeqPoint 4102, seg_offset_bytes = 20,
    seg_flags = Ack, seg_window = SeqOffset 0xFFFF, seg_payload = Some ?hello\<rparr> :: local_segment"
  have hello: "from_test_str ''Hello'' = Inr (Some ?hello)"
    by (simp add: from_test_str_def u16_try_from_def Let_def)
  have c: "tcp_cksum ?seg = 0x62D2"
    by (simp add: tcp_cksum_def tcp_wire_eval calculate_eq_iff ones_norm_def)
  have "tcp_wire ?seg = [0, 0x50, 0x04, 0xD2, 0, 0, 0, 1, 0, 0, 0x10, 0x06, 0x50, 0x10, 0xFF, 0xFF, 0x62, 0xD2, 0, 0,
      0x48, 0x65, 0x6C, 0x6C, 0x6F]"
    by (simp add: tcp_wire_def c) (simp add: tcp_wire_eval)
  moreover have "tcp_write_into ?seg (replicate (ETHERNET_MTU - 20) 0) = (Inr 25, tcp_wire ?seg @ replicate 1455 0)"
    using tcp_write_into_fits [of ?seg "replicate 1480 0"]
    by (simp add: tcp_write_into_def segment_ok_def payload_ok_def ETHERNET_MTU_def)
  ultimately show ?thesis
    by (simp add: write_into_produces_correct_bytes_with_payload_def hello Let_def slice_def)
       (simp add: pseudo_hdr_cksum_ok ETHERNET_MTU_def calculate_0_iff tcp_wire_eval)
qed

end
