(* ===== verification/Server_Tests.thy ===== *)
theory Server_Tests
  imports Tcp_Tests Server_Inv
begin

text \<open>
  The tests of the server (\<open>src/server/tests/\<close>), replayed on the model: the decision tests, which call one
  method of a hand-made server, and the tests that run the loop against a scripted \<open>poll\<close> and a mock device.
  A script is a list of ticks. A run that would poll once more than the script allows ends the test in the
  source; here the loop then has not stopped, \<open>Inr False\<close>, which no test accepts. The clock stands still at
  \<open>now\<close> during a run.
\<close>

section \<open>Fixtures\<close>

definition IMMEDIATE_GRACE_PERIOD :: duration where
  "IMMEDIATE_GRACE_PERIOD = 0"

definition ONE_YEAR_GRACE_PERIOD :: duration where
  "ONE_YEAR_GRACE_PERIOD = duration_from_secs (24 * 365 * 3600)"

definition CLIENT_SYN :: remote_segment where
  "CLIENT_SYN = CLIENT_PKT\<lparr>seg_flags := Syn\<rparr>"

definition CLIENT_ACK_COMPLETING_HANDSHAKE :: remote_segment where
  "CLIENT_ACK_COMPLETING_HANDSHAKE = CLIENT_PKT\<lparr>seg_seq_num := point_const_add CLIENT_ISN REMOTE_SYN_BYTE,
     seg_ack_num := point_const_add SERVER_ISN LOCAL_SYN_BYTE\<rparr>"

definition CLIENT_FIN_ACK_COMPLETING_CLOSE :: remote_segment where
  "CLIENT_FIN_ACK_COMPLETING_CLOSE = CLIENT_PKT\<lparr>seg_seq_num := point_const_add CLIENT_ISN REMOTE_SYN_BYTE,
     seg_ack_num := point_const_add SERVER_ISN (offset_const_add LOCAL_SYN_BYTE LOCAL_FIN_BYTE), seg_flags := FinAck\<rparr>"

definition SERVER_SYN_ACK :: local_segment where
  "SERVER_SYN_ACK = SERVER_REPLY\<lparr>seg_seq_num := SERVER_ISN,
     seg_ack_num := point_const_add CLIENT_ISN REMOTE_SYN_BYTE, seg_flags := SynAck\<rparr>"

definition SERVER_FIN_ACK_INITIATING_CLOSE :: local_segment where
  "SERVER_FIN_ACK_INITIATING_CLOSE = SERVER_REPLY\<lparr>seg_seq_num := point_const_add SERVER_ISN LOCAL_SYN_BYTE,
     seg_ack_num := point_const_add CLIENT_ISN REMOTE_SYN_BYTE, seg_flags := FinAck\<rparr>"

definition SERVER_FINAL_ACK_COMPLETING_CLOSE :: local_segment where
  "SERVER_FINAL_ACK_COMPLETING_CLOSE = SERVER_REPLY
     \<lparr>seg_seq_num := point_const_add SERVER_ISN (offset_const_add LOCAL_SYN_BYTE LOCAL_FIN_BYTE),
      seg_ack_num := point_const_add CLIENT_ISN (offset_const_add REMOTE_SYN_BYTE REMOTE_FIN_BYTE)\<rparr>"

definition tcp_test_parse_local :: "bytes \<Rightarrow> local_ep ipv4_addr_pair \<Rightarrow> local_segment result" where
  "tcp_test_parse_local data ip_pair = tcp_inner_parse data ip_pair"

definition remote_write_into :: "remote_segment \<Rightarrow> (bytes, u16) action" where
  "remote_write_into seg = tcp_inner_write_into seg"

definition decision_test_server :: server where
  "decision_test_server = \<lparr>write_buf = replicate ETHERNET_MTU 0, read_buf = replicate ETHERNET_MTU 0,
     srv_connections = connections_default, srv_logger = \<lparr>log_lvl = Silent, log_birth = 0\<rparr>, dev_out = [],
     srv_log = [], shutdown_grace_period = ONE_YEAR_GRACE_PERIOD, shutdown_deadline = None\<rparr>"

definition run_test_server :: "tcp_connections \<Rightarrow> duration \<Rightarrow> tick list \<Rightarrow> bool result \<times> server" where
  "run_test_server conns grace ticks = act_bind (log_to LogDivider) (\<lambda>_. run_loop ticks)
     \<lparr>write_buf = replicate ETHERNET_MTU 0, read_buf = replicate ETHERNET_MTU 0, srv_connections = conns,
      srv_logger = \<lparr>log_lvl = Silent, log_birth = 0\<rparr>, dev_out = [], srv_log = [],
      shutdown_grace_period = grace, shutdown_deadline = None\<rparr>"

text \<open>Packets as the mock device delivers and records them.\<close>

definition encode_mock_pkt :: "remote_segment \<Rightarrow> bytes result" where
  "encode_mock_pkt seg =
     (let buf = replicate ETHERNET_MTU 0; (r, tail) = remote_write_into seg (drop REPLY_HDR_LEN buf);
          buf = take REPLY_HDR_LEN buf @ tail
      in result_bind r (\<lambda>proto_len.
         result_bind (test_try_new_remote Tcp (seg_ip_pair seg) proto_len) (\<lambda>ipv4_hdr.
         try_get_range (test_write_into_remote ipv4_hdr buf) 0 (unat (total_len ipv4_hdr)))))"

definition decode_mock_pkt :: "bytes \<Rightarrow> local_segment result" where
  "decode_mock_pkt bytes = result_bind (ipv4_test_parse_local bytes)
     (\<lambda>(ipv4_hdr, payload). tcp_test_parse_local payload (hdr_ip_pair ipv4_hdr))"

text \<open>
  One iteration against the mocks: \<open>poll\<close> and \<open>read\<close> give the next scripted result, every write succeeds
  or every write fails. \<open>rnd\<close> are the bytes the random source gives.
\<close>

definition mock_tick ::
    "instant \<Rightarrow> u8 \<times> u8 \<times> u8 \<times> u8 \<Rightarrow> bool \<Rightarrow> bool io \<Rightarrow> bytes io \<Rightarrow> tick" where
  "mock_tick now rnd shutdown poll_result read_result =
     \<lparr>t_poll_at = now, t_now = now, t_conn_now = now, t_fallback = now, t_poll = \<lambda>_. poll_result,
      t_shutdown = shutdown, t_read = read_result, t_urandom = Inr rnd, t_write = \<lambda>_. Inr (), t_flush = \<lambda>_. Inr ()\<rparr>"

abbreviation no_read :: "bytes io" where
  "no_read \<equiv> Inl OtherIo"

definition with_failing_writes :: "tick \<Rightarrow> tick" where
  "with_failing_writes t = t\<lparr>t_write := \<lambda>_. Inl OtherIo\<rparr>"

definition writes_decode_to :: "server \<Rightarrow> local_segment list \<Rightarrow> bool" where
  "writes_decode_to s segs \<longleftrightarrow> map decode_mock_pkt (dev_out s) = map Inr segs"

section \<open>\<open>tests/grace_period.rs\<close>\<close>

definition grace_period_not_elapsed_with_no_deadline :: "instant \<Rightarrow> bool" where
  "grace_period_not_elapsed_with_no_deadline now \<longleftrightarrow> \<not> grace_period_elapsed now decision_test_server"

definition grace_period_not_elapsed_before_deadline :: "instant \<Rightarrow> bool" where
  "grace_period_not_elapsed_before_deadline now \<longleftrightarrow>
     ok_and (try_add_instant now (duration_from_secs 10)) (\<lambda>deadline.
       \<not> grace_period_elapsed now (decision_test_server\<lparr>shutdown_deadline := Some deadline\<rparr>))"

definition grace_period_elapsed_past_deadline :: "instant \<Rightarrow> bool" where
  "grace_period_elapsed_past_deadline now \<longleftrightarrow> duration_from_secs 10 \<le> now \<and>
     grace_period_elapsed now (decision_test_server\<lparr>shutdown_deadline := Some (now - duration_from_secs 10)\<rparr>)"

definition grace_period_elapsed_at_deadline :: "instant \<Rightarrow> bool" where
  "grace_period_elapsed_at_deadline now \<longleftrightarrow>
     grace_period_elapsed now (decision_test_server\<lparr>shutdown_deadline := Some now\<rparr>)"

lemma grace_period_tests_pass:
  assumes "duration_from_secs 10 \<le> now" and "now + duration_from_secs 10 \<le> INSTANT_MAX"
  shows "grace_period_not_elapsed_with_no_deadline now \<and> grace_period_not_elapsed_before_deadline now \<and>
    grace_period_elapsed_past_deadline now \<and> grace_period_elapsed_at_deadline now"
  using assms
  by (simp add: grace_period_not_elapsed_with_no_deadline_def grace_period_not_elapsed_before_deadline_def
      grace_period_elapsed_past_deadline_def grace_period_elapsed_at_deadline_def grace_period_elapsed_def
      decision_test_server_def try_add_instant_def instant_checked_add_def ok_or_def duration_from_secs_def
      NANOS_PER_SEC_def)

section \<open>\<open>tests/timeout.rs\<close>\<close>

definition neither_deadline_gives_no_timeout :: "instant \<Rightarrow> bool" where
  "neither_deadline_gives_no_timeout now \<longleftrightarrow> poll_timeout now now decision_test_server = None"

definition shutdown_deadline_alone_gives_duration :: "instant \<Rightarrow> bool" where
  "shutdown_deadline_alone_gives_duration now \<longleftrightarrow>
     (let grace_period = duration_from_secs 10
      in ok_and (try_add_instant now grace_period) (\<lambda>deadline.
           poll_timeout now now (decision_test_server\<lparr>shutdown_deadline := Some deadline\<rparr>) = Some grace_period))"

definition connections_with_rto :: "duration \<Rightarrow> tcp_connections" where
  "connections_with_rto initial = connections_new (rto_config_default\<lparr>rto_initial := initial\<rparr>) 5"

definition pending_retransmission_alone_gives_duration :: "instant \<Rightarrow> bool" where
  "pending_retransmission_alone_gives_duration now \<longleftrightarrow>
     (let initial_rto = duration_from_millis 750
      in poll_timeout now now (decision_test_server\<lparr>srv_connections :=
           with_syn_rcv_and_pkt_last_sent now (connections_with_rto initial_rto)\<rparr>) = Some initial_rto)"

definition earlier_retransmit_deadline_taken_over_later_shutdown_deadline :: "instant \<Rightarrow> bool" where
  "earlier_retransmit_deadline_taken_over_later_shutdown_deadline now \<longleftrightarrow>
     (let initial_rto = duration_from_millis 250
      in ok_and (try_add_instant now (duration_from_secs 30)) (\<lambda>deadline.
           poll_timeout now now (decision_test_server
             \<lparr>srv_connections := with_syn_rcv_and_pkt_last_sent now (connections_with_rto initial_rto),
              shutdown_deadline := Some deadline\<rparr>) = Some initial_rto))"

definition earlier_shutdown_deadline_taken_over_later_retransmit_deadline :: "instant \<Rightarrow> instant \<Rightarrow> bool" where
  "earlier_shutdown_deadline_taken_over_later_retransmit_deadline now later \<longleftrightarrow>
     (let grace_period = duration_from_millis 250
      in ok_and (try_add_instant now grace_period) (\<lambda>deadline.
           poll_timeout now later (decision_test_server
             \<lparr>srv_connections := with_syn_rcv later (connections_with_rto (duration_from_secs 30)),
              shutdown_deadline := Some deadline\<rparr>) = Some grace_period))"

definition past_deadline_saturates_to_zero :: "instant \<Rightarrow> bool" where
  "past_deadline_saturates_to_zero now \<longleftrightarrow> duration_from_secs 10 \<le> now \<and>
     poll_timeout now now (decision_test_server\<lparr>shutdown_deadline := Some (now - duration_from_secs 10)\<rparr>) = Some 0"

lemmas timeout_eval = poll_timeout_def next_retransmit_deadline_def List.map_filter_def decision_test_server_def
  connections_with_rto_def connections_default_def connections_new_def rto_config_default_def
  with_syn_rcv_and_pkt_last_sent_def with_syn_rcv_def time_due_def duration_clamp_def duration_saturating_mul_def
  u32_saturating_pow_def instant_checked_add_def try_add_instant_def ok_or_def saturating_duration_since_def
  duration_from_secs_def duration_from_millis_def DURATION_MAX_def INSTANT_MAX_def NANOS_PER_SEC_def pending_new_def
  Let_def

lemma timeout_tests_pass:
  assumes "duration_from_secs 10 \<le> now" and "now \<le> later" and "later + duration_from_secs 30 \<le> INSTANT_MAX"
  shows "neither_deadline_gives_no_timeout now \<and> shutdown_deadline_alone_gives_duration now \<and>
    pending_retransmission_alone_gives_duration now \<and>
    earlier_retransmit_deadline_taken_over_later_shutdown_deadline now \<and>
    earlier_shutdown_deadline_taken_over_later_retransmit_deadline now later \<and> past_deadline_saturates_to_zero now"
  using assms
  by (simp add: neither_deadline_gives_no_timeout_def shutdown_deadline_alone_gives_duration_def
      pending_retransmission_alone_gives_duration_def
      earlier_retransmit_deadline_taken_over_later_shutdown_deadline_def
      earlier_shutdown_deadline_taken_over_later_retransmit_deadline_def past_deadline_saturates_to_zero_def
      timeout_eval)

section \<open>\<open>tests/shutdown.rs\<close> and \<open>tests/interrupt.rs\<close>: decisions\<close>

definition no_deadline_no_closing :: bool where
  "no_deadline_no_closing \<longleftrightarrow>
     shutdown_deadline decision_test_server = None \<and> \<not> closing_in_progress (srv_connections decision_test_server) \<and>
     \<not> shutting_down_and_no_connections_closing decision_test_server"

definition no_deadline_some_closing :: "instant \<Rightarrow> bool" where
  "no_deadline_some_closing now \<longleftrightarrow>
     (let (_, conns) = close_established now (after_handshake connections_default);
          server = decision_test_server\<lparr>srv_connections := conns\<rparr>
      in shutdown_deadline server = None \<and> closing_in_progress (srv_connections server) \<and>
         \<not> shutting_down_and_no_connections_closing server)"

definition some_deadline_some_closing :: "instant \<Rightarrow> instant \<Rightarrow> bool" where
  "some_deadline_some_closing now later \<longleftrightarrow>
     (let (_, conns) = close_established now (after_handshake connections_default);
          server = decision_test_server\<lparr>srv_connections := conns, shutdown_deadline := Some later\<rparr>
      in shutdown_deadline server \<noteq> None \<and> closing_in_progress (srv_connections server) \<and>
         \<not> shutting_down_and_no_connections_closing server)"

definition some_deadline_no_closing :: "instant \<Rightarrow> bool" where
  "some_deadline_no_closing now \<longleftrightarrow>
     (let server = decision_test_server\<lparr>srv_connections := connections_default, shutdown_deadline := Some now\<rparr>
      in shutdown_deadline server \<noteq> None \<and> \<not> closing_in_progress (srv_connections server) \<and>
         shutting_down_and_no_connections_closing server)"

definition already_draining_reports_time_left :: "instant \<Rightarrow> bool" where
  "already_draining_reports_time_left now \<longleftrightarrow>
     (let grace_period = duration_from_secs 10
      in ok_and (try_add_instant now grace_period) (\<lambda>deadline.
           fst (decide_shutdown now now (decision_test_server\<lparr>shutdown_deadline := Some deadline\<rparr>))
             = Inr (AlreadyDraining grace_period)))"

definition established_connection_begins_draining_with_fin_ack_and_deadline :: "instant \<Rightarrow> instant \<Rightarrow> bool" where
  "established_connection_begins_draining_with_fin_ack_and_deadline now later \<longleftrightarrow>
     (let grace_period = duration_from_secs 10
      in ok_and (fst (decide_shutdown now later (decision_test_server
             \<lparr>srv_connections := after_handshake connections_default, shutdown_grace_period := grace_period\<rparr>)))
           (\<lambda>decision. case decision of
              BeganDraining to_send deadline \<Rightarrow>
                length to_send = 1 \<and> ok_and (try_add_instant now grace_period) (\<lambda>d. deadline = d)
            | _ \<Rightarrow> False))"

definition no_established_connections_reports_no_connections :: "instant \<Rightarrow> instant \<Rightarrow> bool" where
  "no_established_connections_reports_no_connections now later \<longleftrightarrow>
     fst (decide_shutdown now later (decision_test_server\<lparr>srv_connections := connections_default\<rparr>))
       = Inr NoConnections"

definition overflowing_deadline_errors_instead_of_panicking :: "instant \<Rightarrow> instant \<Rightarrow> bool" where
  "overflowing_deadline_errors_instead_of_panicking now later \<longleftrightarrow>
     err_and (fst (decide_shutdown now later (decision_test_server
       \<lparr>srv_connections := after_handshake connections_default, shutdown_grace_period := DURATION_MAX\<rparr>)))
       (\<lambda>e. case e of OverflowedInstant _ \<Rightarrow> True | _ \<Rightarrow> False)"

lemmas decision_eval = decide_shutdown_def shutting_down_and_no_connections_closing_def closing_in_progress_def
  is_closing_def decision_test_server_def connections_default_def after_handshake_def AFTER_HANDSHAKE_def
  synced_test_new_def close_established_def close_conn_def List.map_filter_def try_add_instant_def
  instant_checked_add_def ok_or_def saturating_duration_since_def duration_from_secs_def DURATION_MAX_def
  INSTANT_MAX_def NANOS_PER_SEC_def Let_def

lemma closing_tests_pass:
  "no_deadline_no_closing \<and> no_deadline_some_closing now \<and> some_deadline_some_closing now later \<and>
   some_deadline_no_closing now"
  by (simp add: no_deadline_no_closing_def no_deadline_some_closing_def some_deadline_some_closing_def
      some_deadline_no_closing_def decision_eval)

lemma decision_tests_pass:
  assumes "now + duration_from_secs 10 \<le> INSTANT_MAX"
  shows "already_draining_reports_time_left now \<and>
    established_connection_begins_draining_with_fin_ack_and_deadline now later \<and>
    no_established_connections_reports_no_connections now later \<and>
    overflowing_deadline_errors_instead_of_panicking now later"
  using assms
  by (simp add: already_draining_reports_time_left_def
      established_connection_begins_draining_with_fin_ack_and_deadline_def
      no_established_connections_reports_no_connections_def overflowing_deadline_errors_instead_of_panicking_def
      decision_eval)

section \<open>Packets through the mocks\<close>

definition mock_bytes :: "remote_segment \<Rightarrow> bytes" where
  "mock_bytes seg = ipv4_hdr_bytes \<lparr>total_len = of_nat (20 + length (tcp_wire seg)), hdr_protocol = Tcp,
     hdr_ip_pair = seg_ip_pair seg\<rparr> @ tcp_wire seg"

text \<open>A segment that a packet can carry and whose header has no options; the fixtures are.\<close>

definition plain_segment :: "('s, 'p) tcp_segment \<Rightarrow> bool" where
  "plain_segment seg \<longleftrightarrow> segment_ok seg \<and> length (payload_bytes (seg_payload seg)) \<le> 1460 \<and> seg_offset_bytes seg = 20"

lemma length_mock_bytes [simp]: "length (mock_bytes seg) = 40 + length (payload_bytes (seg_payload seg))"
  by (simp add: mock_bytes_def)

lemma encode_mock_pkt_eq:
  assumes "plain_segment seg"
  shows "encode_mock_pkt seg = Inr (mock_bytes seg)"
proof -
  have w: "tcp_inner_write_into seg (replicate 1480 0)
      = (Inr (of_nat (length (tcp_wire seg))), tcp_wire seg @ replicate (1480 - length (tcp_wire seg)) 0)"
    using assms tcp_write_into_fits [of seg "replicate 1480 0"] by (simp add: plain_segment_def ETHERNET_MTU_def)
  have n: "length (tcp_wire seg) \<le> 1480" using assms by (simp add: plain_segment_def)
  then show ?thesis
    using w
    by (simp add: encode_mock_pkt_def remote_write_into_def REPLY_HDR_LEN_def IPV4_HDR_MIN_LEN_def ETHERNET_MTU_def
        test_try_new_remote_def inner_try_new_def try_add_u16_def unsigned_of_nat take_bit_nat_eq_self
        test_write_into_remote_def inner_write_into_eq unat_word_ariths try_get_range_def mock_bytes_def
        del: length_tcp_wire)
qed

lemma mock_bytes_parse:
  assumes "plain_segment seg"
  shows "ipv4_parse (mock_bytes seg) = Inr (\<lparr>total_len = of_nat (20 + length (tcp_wire seg)), hdr_protocol = Tcp,
      hdr_ip_pair = seg_ip_pair seg\<rparr>, tcp_wire seg)"
    and "tcp_parse (tcp_wire seg) (seg_ip_pair seg) = Inr seg"
    and "length (mock_bytes seg) \<le> 1500"
  using assms tcp_parse_wire [of seg]
  by (simp_all add: plain_segment_def mock_bytes_def ipv4_parse_def inner_parse_hdr_bytes tcp_parse_def ETHERNET_MTU_def
      TCP_HDR_MIN_LEN_def)

lemma decode_packet_of:
  assumes "plain_segment seg"
  shows "decode_mock_pkt (packet_of (RouterTcp seg)) = Inr seg"
  using assms tcp_parse_wire [of seg]
  by (simp add: plain_segment_def decode_mock_pkt_def ipv4_test_parse_local_def packet_of_def inner_parse_hdr_bytes
      reply_hdr_def tcp_test_parse_local_def ETHERNET_MTU_def TCP_HDR_MIN_LEN_def)

section \<open>\<open>tests/pkt_handling.rs\<close>\<close>

definition ipv4_parse_error_is_skipped :: "u32 \<Rightarrow> instant \<Rightarrow> bool" where
  "ipv4_parse_error_is_skipped isn now \<longleftrightarrow>
     err_and (fst (parse_incoming (Inr isn) now (replicate 5 0) decision_test_server))
       (\<lambda>e. case e of SkippingPacket (TooShortForIpv4 _) \<Rightarrow> True | _ \<Rightarrow> False)"

definition ipv4_ok_but_tcp_parse_error_is_skipped :: "u32 \<Rightarrow> instant \<Rightarrow> bool" where
  "ipv4_ok_but_tcp_parse_error_is_skipped isn now \<longleftrightarrow>
     ok_and (test_try_new_remote Tcp (seg_ip_pair CLIENT_SYN) 4) (\<lambda>ipv4_hdr.
     ok_and (try_get_range (test_write_into_remote ipv4_hdr (replicate ETHERNET_MTU 0)) 0
         (unat (total_len ipv4_hdr))) (\<lambda>data.
       err_and (fst (parse_incoming (Inr isn) now data decision_test_server))
         (\<lambda>e. case e of SkippingPacket (TooShortForTcp _) \<Rightarrow> True | _ \<Rightarrow> False)))"

definition syn_parses_and_produces_a_reply :: "u32 \<Rightarrow> instant \<Rightarrow> bool" where
  "syn_parses_and_produces_a_reply isn now \<longleftrightarrow>
     ok_and (encode_mock_pkt CLIENT_SYN) (\<lambda>bytes.
     ok_and (fst (parse_incoming (Inr isn) now bytes (decision_test_server\<lparr>srv_connections := connections_default\<rparr>)))
       (\<lambda>ex. (case ex_incoming_router ex of RouterTcp _ \<Rightarrow> True | _ \<Rightarrow> False) \<and>
             (case ex_reply_router ex of Some (RouterTcp _) \<Rightarrow> True | _ \<Rightarrow> False)))"

definition handshake_ack_parses_and_produces_no_reply :: "u32 \<Rightarrow> instant \<Rightarrow> bool" where
  "handshake_ack_parses_and_produces_no_reply isn now \<longleftrightarrow>
     ok_and (encode_mock_pkt CLIENT_ACK_COMPLETING_HANDSHAKE) (\<lambda>bytes.
     ok_and (fst (parse_incoming (Inr isn) now bytes (decision_test_server
         \<lparr>srv_connections := with_syn_rcv now connections_default\<rparr>)))
       (\<lambda>ex. (case ex_incoming_router ex of RouterTcp _ \<Rightarrow> True | _ \<Rightarrow> False) \<and> ex_reply_router ex = None))"

definition malformed_pkt_is_skipped_without_propagating_or_writing :: "instant \<Rightarrow> u8 \<times> u8 \<times> u8 \<times> u8 \<Rightarrow> bool" where
  "malformed_pkt_is_skipped_without_propagating_or_writing now rnd \<longleftrightarrow>
     (case run_test_server connections_default IMMEDIATE_GRACE_PERIOD
        [mock_tick now rnd True (Inr True) (Inr (replicate 5 0)), mock_tick now rnd True (Inl Interrupted) no_read]
      of (r, s) \<Rightarrow> r = Inr True \<and> dev_out s = [])"

definition valid_syn_producing_a_reply_is_sent :: "instant \<Rightarrow> u8 \<times> u8 \<times> u8 \<times> u8 \<Rightarrow> bool" where
  "valid_syn_producing_a_reply_is_sent now rnd \<longleftrightarrow>
     ok_and (encode_mock_pkt CLIENT_SYN) (\<lambda>bytes.
     case run_test_server connections_default IMMEDIATE_GRACE_PERIOD
        [mock_tick now rnd True (Inr True) (Inr bytes), mock_tick now rnd True (Inl Interrupted) no_read]
      of (r, s) \<Rightarrow> r = Inr True \<and> length (dev_out s) = 1)"

definition valid_ack_completing_handshake_produces_no_reply :: "instant \<Rightarrow> u8 \<times> u8 \<times> u8 \<times> u8 \<Rightarrow> bool" where
  "valid_ack_completing_handshake_produces_no_reply now rnd \<longleftrightarrow>
     ok_and (encode_mock_pkt CLIENT_ACK_COMPLETING_HANDSHAKE) (\<lambda>bytes.
     case run_test_server (with_syn_rcv now connections_default) ONE_YEAR_GRACE_PERIOD
        [mock_tick now rnd False (Inr True) (Inr bytes), mock_tick now rnd False (Inl OtherIo) no_read]
      of (r, s) \<Rightarrow> r = Inl (IoError OtherIo) \<and> dev_out s = [])"

lemma fixtures_plain [simp]:
  "plain_segment CLIENT_SYN" "plain_segment CLIENT_ACK_COMPLETING_HANDSHAKE"
  "plain_segment CLIENT_FIN_ACK_COMPLETING_CLOSE" "plain_segment SERVER_SYN_ACK"
  "plain_segment SERVER_FIN_ACK_INITIATING_CLOSE" "plain_segment SERVER_FINAL_ACK_COMPLETING_CLOSE"
  by (simp_all add: plain_segment_def CLIENT_SYN_def CLIENT_ACK_COMPLETING_HANDSHAKE_def
      CLIENT_FIN_ACK_COMPLETING_CLOSE_def SERVER_SYN_ACK_def SERVER_FIN_ACK_INITIATING_CLOSE_def
      SERVER_FINAL_ACK_COMPLETING_CLOSE_def CLIENT_PKT_def SERVER_REPLY_def segment_ok_def)

lemmas fixture_segments = CLIENT_SYN_def CLIENT_ACK_COMPLETING_HANDSHAKE_def CLIENT_FIN_ACK_COMPLETING_CLOSE_def
  SERVER_SYN_ACK_def SERVER_FIN_ACK_INITIATING_CLOSE_def SERVER_FINAL_ACK_COMPLETING_CLOSE_def offset_const_add_def

lemma parse_failure_tests_pass:
  "ipv4_parse_error_is_skipped isn now \<and> ipv4_ok_but_tcp_parse_error_is_skipped isn now"
proof
  show "ipv4_parse_error_is_skipped isn now"
    by (simp add: ipv4_parse_error_is_skipped_def parse_incoming_def ipv4_parse_def inner_parse_def IPV4_HDR_MIN_LEN_def)
  show "ipv4_ok_but_tcp_parse_error_is_skipped isn now"
    by (simp add: ipv4_ok_but_tcp_parse_error_is_skipped_def test_try_new_remote_def inner_try_new_def try_add_u16_def
        IPV4_HDR_MIN_LEN_def test_write_into_remote_def inner_write_into_eq ETHERNET_MTU_def try_get_range_def
        parse_incoming_def ipv4_parse_def inner_parse_hdr_bytes tcp_parse_def tcp_inner_parse_def TCP_HDR_MIN_LEN_def)
qed

lemma parse_success_tests_pass:
  "syn_parses_and_produces_a_reply isn now \<and> handshake_ack_parses_and_produces_no_reply isn now"
  by (simp add: syn_parses_and_produces_a_reply_def handshake_ack_parses_and_produces_no_reply_def
     encode_mock_pkt_eq parse_incoming_def mock_bytes_parse decision_test_server_def)
   (simp add: fixture_segments tcp_fixture_defs tcp_eval)

text \<open>The rules by which the loop runs: a packet of the mock device is read and parsed, a reply is sent.\<close>

lemma parse_incoming_mock:
  assumes "plain_segment seg"
  shows "parse_incoming random now (mock_bytes seg) s =
    (case tcp_create_reply random now seg (srv_connections s) of (r, conns) \<Rightarrow>
       (result_map (\<lambda>reply. \<lparr>ex_ipv4_hdr = \<lparr>total_len = of_nat (20 + length (tcp_wire seg)), hdr_protocol = Tcp,
           hdr_ip_pair = seg_ip_pair seg\<rparr>, ex_incoming_router = RouterTcp seg,
           ex_reply_router = map_option RouterTcp reply\<rparr>) (result_map_err ErrorCreatingReply r),
        s\<lparr>srv_connections := conns\<rparr>))"
  using mock_bytes_parse [OF assms]
  by (cases "tcp_create_reply random now seg (srv_connections s)"; cases "fst (tcp_create_reply random now seg (srv_connections s))")
     (simp_all add: parse_incoming_def act_bind_def)

lemma read_back:
  "length bs = n \<Longrightarrow> n \<le> length (read_buf s) \<Longrightarrow> try_get_range (read_buf (fill_read_buf bs s)) 0 n = Inr bs"
  by (auto simp: fill_read_buf_def try_get_range_def)

lemma fill_read_buf_frame [simp]:
  "write_buf (fill_read_buf bs s) = write_buf s" "srv_connections (fill_read_buf bs s) = srv_connections s"
  "srv_logger (fill_read_buf bs s) = srv_logger s" "dev_out (fill_read_buf bs s) = dev_out s"
  "srv_log (fill_read_buf bs s) = srv_log s" "shutdown_grace_period (fill_read_buf bs s) = shutdown_grace_period s"
  "shutdown_deadline (fill_read_buf bs s) = shutdown_deadline s"
  "length (read_buf (fill_read_buf bs s)) = length (read_buf s)"
  by (simp_all add: fill_read_buf_def)

lemmas run_eval = run_test_server_def loop_body_def interrupted_def handle_shutdown_interrupt_def decide_shutdown_def
  handle_packet_def log_to_def log_pkt_io_def pkt_io_result_def mock_tick_def with_failing_writes_def
  grace_period_elapsed_def shutting_down_and_no_connections_closing_def closing_in_progress_def is_closing_def
  parse_incoming_mock read_back send_pkt_eq decode_packet_of plain_segment_def segment_ok_def
  random_u32_def IMMEDIATE_GRACE_PERIOD_def try_add_instant_def instant_checked_add_def ok_or_def ETHERNET_MTU_def

lemmas packet_run_eval = run_eval encode_mock_pkt_eq fixture_segments tcp_fixture_defs tcp_eval

lemma packet_tests_pass:
  "malformed_pkt_is_skipped_without_propagating_or_writing now rnd \<and> valid_syn_producing_a_reply_is_sent now rnd \<and>
   valid_ack_completing_handshake_produces_no_reply now rnd"
proof (intro conjI)
  show "malformed_pkt_is_skipped_without_propagating_or_writing now rnd"
    by (simp add: malformed_pkt_is_skipped_without_propagating_or_writing_def parse_incoming_def ipv4_parse_def
        inner_parse_def IPV4_HDR_MIN_LEN_def packet_run_eval)
  show "valid_syn_producing_a_reply_is_sent now rnd"
    by (cases rnd) (simp add: valid_syn_producing_a_reply_is_sent_def packet_run_eval)
  show "valid_ack_completing_handshake_produces_no_reply now rnd"
    by (cases rnd) (simp add: valid_ack_completing_handshake_produces_no_reply_def packet_run_eval)
qed

section \<open>\<open>tests/propagate.rs\<close>\<close>

definition poll_error_unrelated_to_interruption_propagates :: "instant \<Rightarrow> u8 \<times> u8 \<times> u8 \<times> u8 \<Rightarrow> bool" where
  "poll_error_unrelated_to_interruption_propagates now rnd \<longleftrightarrow>
     (case run_test_server connections_default ONE_YEAR_GRACE_PERIOD [mock_tick now rnd False (Inl OtherIo) no_read]
      of (r, s) \<Rightarrow> r = Inl (IoError OtherIo) \<and> dev_out s = [])"

definition read_error_unrelated_to_interruption_propagates :: "instant \<Rightarrow> u8 \<times> u8 \<times> u8 \<times> u8 \<Rightarrow> bool" where
  "read_error_unrelated_to_interruption_propagates now rnd \<longleftrightarrow>
     (case run_test_server connections_default ONE_YEAR_GRACE_PERIOD
        [mock_tick now rnd False (Inr True) (Inl OtherIo)]
      of (r, s) \<Rightarrow> r = Inl (IoError OtherIo) \<and> dev_out s = [])"

definition write_failure_while_sending_fin_ack_propagates :: "instant \<Rightarrow> u8 \<times> u8 \<times> u8 \<times> u8 \<Rightarrow> bool" where
  "write_failure_while_sending_fin_ack_propagates now rnd \<longleftrightarrow>
     (case run_test_server (after_handshake connections_default) ONE_YEAR_GRACE_PERIOD
        [with_failing_writes (mock_tick now rnd True (Inl Interrupted) no_read)]
      of (r, s) \<Rightarrow> r = Inl (IoError OtherIo) \<and> dev_out s = [])"

lemmas one_year = ONE_YEAR_GRACE_PERIOD_def duration_from_secs_def NANOS_PER_SEC_def INSTANT_MAX_def

lemma propagate_tests_pass:
  assumes "now + ONE_YEAR_GRACE_PERIOD \<le> INSTANT_MAX"
  shows "poll_error_unrelated_to_interruption_propagates now rnd \<and>
    read_error_unrelated_to_interruption_propagates now rnd \<and>
    write_failure_while_sending_fin_ack_propagates now rnd"
  using assms
  by (simp add: poll_error_unrelated_to_interruption_propagates_def
      read_error_unrelated_to_interruption_propagates_def write_failure_while_sending_fin_ack_propagates_def
      one_year packet_run_eval)

section \<open>\<open>tests/interrupt.rs\<close>, \<open>tests/timeout.rs\<close> and \<open>tests/shutdown.rs\<close>: runs\<close>

text \<open>
  That all polls of a script were needed is checked by a run that has not stopped one poll earlier.
\<close>

definition first_interrupt_with_established_connection_sends_fin_ack_and_continues ::
    "instant \<Rightarrow> u8 \<times> u8 \<times> u8 \<times> u8 \<Rightarrow> bool" where
  "first_interrupt_with_established_connection_sends_fin_ack_and_continues now rnd \<longleftrightarrow>
     (case run_test_server (after_handshake connections_default) IMMEDIATE_GRACE_PERIOD
        [mock_tick now rnd True (Inl Interrupted) no_read, mock_tick now rnd True (Inr False) no_read]
      of (r, s) \<Rightarrow> r = Inr True \<and> writes_decode_to s [SERVER_FIN_ACK_INITIATING_CLOSE])"

definition second_interrupt_while_draining_does_not_resend_or_exit ::
    "instant \<Rightarrow> u8 \<times> u8 \<times> u8 \<times> u8 \<Rightarrow> bool" where
  "second_interrupt_while_draining_does_not_resend_or_exit now rnd \<longleftrightarrow>
     (let interrupt = mock_tick now rnd True (Inl Interrupted) no_read;
          boom = mock_tick now rnd True (Inl OtherIo) no_read;
          run = run_test_server (after_handshake connections_default) ONE_YEAR_GRACE_PERIOD
      in fst (run [interrupt, interrupt]) = Inr False \<and>
         (case run [interrupt, interrupt, boom] of (r, s) \<Rightarrow>
            r = Inl (IoError OtherIo) \<and> writes_decode_to s [SERVER_FIN_ACK_INITIATING_CLOSE]))"

definition interrupt_with_no_established_connections_exits_immediately ::
    "instant \<Rightarrow> u8 \<times> u8 \<times> u8 \<times> u8 \<Rightarrow> bool" where
  "interrupt_with_no_established_connections_exits_immediately now rnd \<longleftrightarrow>
     (case run_test_server connections_default IMMEDIATE_GRACE_PERIOD
        [mock_tick now rnd True (Inl Interrupted) no_read, mock_tick now rnd True (Inl OtherIo) no_read]
      of (r, s) \<Rightarrow> r = Inr True \<and> dev_out s = [])"

definition interrupt_unrelated_to_shutdown_is_ignored :: "instant \<Rightarrow> u8 \<times> u8 \<times> u8 \<times> u8 \<Rightarrow> bool" where
  "interrupt_unrelated_to_shutdown_is_ignored now rnd \<longleftrightarrow>
     (let unrelated = mock_tick now rnd False (Inl Interrupted) no_read;
          shutdown = mock_tick now rnd True (Inl Interrupted) no_read;
          run = run_test_server connections_default IMMEDIATE_GRACE_PERIOD
      in fst (run [unrelated]) = Inr False \<and>
         (case run [unrelated, shutdown] of (r, s) \<Rightarrow> r = Inr True \<and> dev_out s = []))"

definition read_interrupt_reaches_the_same_shutdown_handling_as_poll_interrupt ::
    "instant \<Rightarrow> u8 \<times> u8 \<times> u8 \<times> u8 \<Rightarrow> bool" where
  "read_interrupt_reaches_the_same_shutdown_handling_as_poll_interrupt now rnd \<longleftrightarrow>
     (case run_test_server connections_default IMMEDIATE_GRACE_PERIOD
        [mock_tick now rnd True (Inr True) (Inl Interrupted)]
      of (r, s) \<Rightarrow> r = Inr True \<and> dev_out s = [])"

text \<open>The scripted \<open>poll\<close> fails unless it is given the timeout the test expects.\<close>

definition expecting_timeout :: "duration option \<Rightarrow> tick \<Rightarrow> tick" where
  "expecting_timeout d t = t\<lparr>t_poll := \<lambda>timeout. if timeout = d then t_poll t timeout else Inl OtherIo\<rparr>"

definition poll_timeout_reflects_shutdown_deadline_across_a_real_run ::
    "instant \<Rightarrow> u8 \<times> u8 \<times> u8 \<times> u8 \<Rightarrow> bool" where
  "poll_timeout_reflects_shutdown_deadline_across_a_real_run now rnd \<longleftrightarrow>
     (case run_test_server (after_handshake connections_default) IMMEDIATE_GRACE_PERIOD
        [expecting_timeout None (mock_tick now rnd True (Inl Interrupted) no_read),
         expecting_timeout (Some 0) (mock_tick now rnd True (Inr False) no_read)]
      of (r, s) \<Rightarrow> r = Inr True \<and> writes_decode_to s [SERVER_FIN_ACK_INITIATING_CLOSE])"

definition exits_once_connections_finish_closing :: "instant \<Rightarrow> u8 \<times> u8 \<times> u8 \<times> u8 \<Rightarrow> bool" where
  "exits_once_connections_finish_closing now rnd \<longleftrightarrow>
     ok_and (encode_mock_pkt CLIENT_FIN_ACK_COMPLETING_CLOSE) (\<lambda>bytes.
     let interrupt = mock_tick now rnd True (Inl Interrupted) no_read;
         run = run_test_server (after_handshake connections_default) ONE_YEAR_GRACE_PERIOD
     in fst (run [interrupt]) = Inr False \<and>
        (case run [interrupt, mock_tick now rnd True (Inr True) (Inr bytes)] of (r, s) \<Rightarrow>
           r = Inr True \<and>
           writes_decode_to s [SERVER_FIN_ACK_INITIATING_CLOSE, SERVER_FINAL_ACK_COMPLETING_CLOSE]))"

lemma interrupt_tests_pass:
  "interrupt_with_no_established_connections_exits_immediately now rnd \<and>
   interrupt_unrelated_to_shutdown_is_ignored now rnd \<and>
   read_interrupt_reaches_the_same_shutdown_handling_as_poll_interrupt now rnd"
  by (simp add: interrupt_with_no_established_connections_exits_immediately_def
      interrupt_unrelated_to_shutdown_is_ignored_def
      read_interrupt_reaches_the_same_shutdown_handling_as_poll_interrupt_def packet_run_eval)

lemma draining_tests_pass:
  assumes "now + ONE_YEAR_GRACE_PERIOD \<le> INSTANT_MAX"
  shows "first_interrupt_with_established_connection_sends_fin_ack_and_continues now rnd \<and>
    second_interrupt_while_draining_does_not_resend_or_exit now rnd \<and>
    exits_once_connections_finish_closing now rnd"
  using assms
  by (cases rnd) (simp add: first_interrupt_with_established_connection_sends_fin_ack_and_continues_def
      second_interrupt_while_draining_does_not_resend_or_exit_def exits_once_connections_finish_closing_def
      writes_decode_to_def one_year packet_run_eval)

lemma timeout_run_test_passes:
  assumes "now \<le> INSTANT_MAX"
  shows "poll_timeout_reflects_shutdown_deadline_across_a_real_run now rnd"
  using assms
  by (simp add: poll_timeout_reflects_shutdown_deadline_across_a_real_run_def expecting_timeout_def
      writes_decode_to_def packet_run_eval poll_timeout_def next_retransmit_deadline_def time_due_def
      saturating_duration_since_def)

section \<open>\<open>tests/retransmit.rs\<close>\<close>

definition retransmitting_run :: "u8 \<Rightarrow> nat \<Rightarrow> instant \<Rightarrow> u8 \<times> u8 \<times> u8 \<times> u8 \<Rightarrow> bool result \<times> server" where
  "retransmitting_run retries polls now rnd =
     run_test_server (with_syn_rcv now (connections_with_retries retries)) ONE_YEAR_GRACE_PERIOD
       (replicate polls (mock_tick now rnd True (Inr False) no_read) @ [mock_tick now rnd True (Inl Interrupted) no_read])"

definition due_retransmission_is_sent_as_real_io :: "instant \<Rightarrow> u8 \<times> u8 \<times> u8 \<times> u8 \<Rightarrow> bool" where
  "due_retransmission_is_sent_as_real_io now rnd \<longleftrightarrow>
     (case retransmitting_run 5 1 now rnd of (r, s) \<Rightarrow> r = Inr True \<and> writes_decode_to s [SERVER_SYN_ACK])"

definition retransmission_does_not_drop_the_connection :: "instant \<Rightarrow> u8 \<times> u8 \<times> u8 \<times> u8 \<Rightarrow> bool" where
  "retransmission_does_not_drop_the_connection now rnd \<longleftrightarrow>
     (case retransmitting_run 5 2 now rnd of (r, s) \<Rightarrow>
        r = Inr True \<and> writes_decode_to s [SERVER_SYN_ACK, SERVER_SYN_ACK])"

definition gives_up_and_drops_connection_after_max_retries :: "instant \<Rightarrow> u8 \<times> u8 \<times> u8 \<times> u8 \<Rightarrow> bool" where
  "gives_up_and_drops_connection_after_max_retries now rnd \<longleftrightarrow>
     (case retransmitting_run 2 3 now rnd of (r, s) \<Rightarrow>
        r = Inr True \<and> writes_decode_to s [SERVER_SYN_ACK, SERVER_SYN_ACK])"

lemma replicate_small: "replicate 1 x = [x]" "replicate 2 x = [x, x]" "replicate 3 x = [x, x, x]"
  by (simp_all add: eval_nat_numeral)

lemma retransmit_run_tests_pass:
  assumes "now \<le> INSTANT_MAX"
  shows "due_retransmission_is_sent_as_real_io now rnd \<and> retransmission_does_not_drop_the_connection now rnd \<and>
    gives_up_and_drops_connection_after_max_retries now rnd"
  using assms
  by (simp add: due_retransmission_is_sent_as_real_io_def retransmission_does_not_drop_the_connection_def
      gives_up_and_drops_connection_after_max_retries_def retransmitting_run_def replicate_small
      writes_decode_to_def packet_run_eval retransmit_eval)
     (simp add: word_le_nat_alt)

end
