(* ===== verification/Spec2Isabelle.thy ===== *)
theory Spec2Isabelle
  imports Program Server_Tests
begin

text \<open>
  \<^bold>\<open>A verification of typenet, a user-space IPv4 echo server.\<close>

  The program attaches to a TUN device and answers every IPv4 packet it reads from it: ICMP Echo
  Requests, UDP datagrams and TCP connections, the latter with its own implementation of the
  handshake, sequence numbers, flow control, retransmission and both kinds of close. It has one
  thread; its state is the server record with two packet buffers, the table of TCP connections and a
  shutdown deadline. One iteration of the loop in \<open>src/server.rs\<close> waits in \<open>poll\<close> until a packet
  arrives or a deadline passes, and then handles the packet, makes a round of retransmissions, or
  goes on with the shutdown that a SIGINT began.

  \<^bold>\<open>How the code is represented.\<close> Structs are records, enums are datatypes, \<open>u8\<close> to
  \<open>u128\<close> are words of that width, and \<open>usize\<close> is \<open>nat\<close> where the code uses checked or slice
  operations. \<open>Duration\<close> and \<open>Instant\<close> are numbers of nanoseconds with the bounds \<open>DURATION_MAX\<close> and
  \<open>INSTANT_MAX\<close> written out. \<open>Result\<close> is a sum whose left side is the datatype \<open>error\<close>; a method on
  \<open>&mut self\<close> is an \<open>action\<close>, a function from the state to a result and the new state, so that what an
  operation changed before it failed is visible. A panic is the error \<open>Panicked\<close>. The phantom type
  parameters that mark the endpoints (\<open>Local\<close>, \<open>Remote\<close>) are phantom type parameters here too.
  Loops are recursions over the data they run through; the recursions that are not structural, such as
  \<open>fold_and_flip\<close>, \<open>as_chunks\<close>, \<open>strip_front\<close> and \<open>thousands_separated\<close>, are proved to terminate. No
  definition takes fuel. The server's loop has no end of its own: \<open>run_loop\<close> runs over a list of ticks, where one tick
  holds everything the operating system answers during one iteration (results of system calls,
  readings of the clock, the shutdown flag). Theorems about runs quantify over all lists of ticks.

  \<^bold>\<open>The theories, in the order of their dependence.\<close>

  \<^item> \<open>Prelude\<close>: machine integers, byte strings, \<open>error\<close>, results and actions (\<open>src/lib.rs\<close>), and
    the two reasoning principles for actions: \<open>safely P m\<close> (keeps \<open>P\<close>, does not panic) and \<open>frames f m\<close>
    (leaves \<open>f\<close> alone), each with a collection of introduction rules.
  \<^item> \<open>Try_Ops\<close>: the checked operations of \<open>src/try_ops.rs\<close>.
  \<^item> \<open>Checksum\<close>: \<open>src/checksum.rs\<close>, the production checksum and the three benchmark
    implementations. The locale \<open>ones_accumulator\<close> states what an accumulation step must do to be
    correct; two of the benchmark implementations interpret it. All are proved equal to the
    one's-complement checksum of RFC 1071.
  \<^item> \<open>Addr\<close>, \<open>Protocol\<close>, \<open>Ipv4_Header\<close>: endpoints and address pairs (\<open>src/endpoint.rs\<close>,
    \<open>src/addr_pairs.rs\<close>), protocol numbers and the pseudo-header checksum (\<open>src/protocol.rs\<close>), and
    IPv4 headers (\<open>src/ipv4_header.rs\<close>): round trip, exact acceptance condition of the parser, and the
    rejection of valid headers with options.
  \<^item> \<open>Encode\<close>: the trait \<open>Encode\<close> of \<open>src/protocol/router.rs\<close> as the locale \<open>encoder\<close>, interpreted by
    \<open>Udp\<close> (\<open>src/protocol/udp.rs\<close>), \<open>Icmp_Echo\<close> (\<open>src/protocol/icmp_echo.rs\<close>), \<open>Tcp_Segment\<close>
    (\<open>src/protocol/tcp.rs\<close>) and by \<open>Router\<close> over the three.
  \<^item> \<open>Seq_Space\<close>, \<open>Tcp_Flags\<close>, \<open>Tcp_Payload\<close>, \<open>Pending_Segment\<close>, \<open>Tcp_State\<close>, \<open>Send_Info\<close>: the files
    of the same names under \<open>src/protocol/tcp/\<close>. Each handler of \<open>send_info.rs\<close> is one definition.
  \<^item> \<open>Send_Side\<close>, \<open>Handlers\<close>: the locale \<open>send_side\<close> states what an invariant on SND.UNA, SND.NXT and
    the retransmission queue must satisfy, the handlers are verified once for any such invariant, and
    two invariants interpret it: \<open>any_peer\<close>, which holds whatever arrives, and \<open>sane_peer\<close>, which says
    more but excludes the acknowledgment half the sequence space away.
  \<^item> \<open>Conn_Table\<close>, \<open>Connections\<close>, \<open>Tcp_Reply\<close>: the table of \<open>src/protocol/tcp/connections.rs\<close>. What the
    code relies on of \<open>HashMap\<close> is the locale \<open>table\<close>, interpreted by association lists with distinct
    keys; the order of the list stands for the unspecified order of iteration, and no theorem
    depends on it. \<open>tcp_reach\<close> is the inductive set of tables that segments, retransmissions and the
    active close can produce.
  \<^item> \<open>Echo_Stream\<close>, \<open>Retries\<close>, \<open>Drain\<close>: what a connection does to the streams of bytes accepted and sent,
    flow control, the bound on retransmissions, and how the send buffer empties over a sequence of
    segments, or no longer does.
  \<^item> \<open>Router\<close>, \<open>Display\<close>, \<open>Logger\<close>, \<open>Config\<close>, \<open>Sys\<close>, \<open>Tun\<close>: dispatch over the protocols
    (\<open>src/protocol/router.rs\<close>), the text of packets (\<open>src/protocol/display.rs\<close> and the \<open>Display\<close>
    implementations), the logger (\<open>src/logger.rs\<close>), the configuration (\<open>src/config.rs\<close>), \<open>poll\<close>, random numbers
    and the shutdown flag (\<open>src/sys.rs\<close>, \<open>src/sys/poll.rs\<close>, \<open>src/sys/shutdown_signal.rs\<close>) and attaching to the device
    (\<open>src/sys/tun.rs\<close>).
  \<^item> \<open>Server\<close>: \<open>src/server.rs\<close>, from \<open>Server::new\<close> to the loop. \<open>Server_Inv\<close> has its invariant \<open>server_ok\<close>
    and what every run promises; \<open>Shutdown\<close> how it waits and ends; \<open>Wire_Echo\<close> the TCP echo through the whole
    loop.
  \<^item> \<open>Program\<close>: \<open>src/main.rs\<close>.
  \<^item> \<open>Unit_Tests\<close>, \<open>Tcp_Tests\<close>, \<open>Server_Tests\<close>: the repository's own tests, the \<open>#[test]\<close> functions under \<open>src/\<close> with
    their fixtures and mocks, replayed on the model. Each is a bool-valued definition, and the lemmas
    \<open>\<dots>_tests_pass\<close> say that the model passes, for every reading of the clock and every random number a test does
    not fix. This is how the translation is validated.

  \<^bold>\<open>What is proved.\<close>

  \<^item> \<^emph>\<open>The echo.\<close> Every byte of TCP data on the wire, sent for the first time or retransmitted, is the
    byte of the accepted stream that its sequence number names (\<open>wire_echo\<close>); accepted bytes are sent bytes
    followed by buffered bytes (\<open>server_streams\<close>); what counts as sent was written
    (\<open>sent_stream_written\<close>). Histories are read off the ticks by executable functions. UDP and ICMP packets
    are echoed by exactly one packet (\<open>datagram_echoed\<close>).
    Buffered data is sent completely as the client acknowledges (\<open>buffer_drains\<close>).
  \<^item> \<^emph>\<open>TCP safety.\<close> The reply decision never fails in a reachable table (\<open>decide_reply_total\<close>), what is
    in flight is bounded and retransmittable, windows are respected, resets must be in the window,
    connections do not interfere, the handshake and the active close do what they should.
  \<^item> \<^emph>\<open>Wire formats.\<close> Round trips of headers and segments, well-formedness and verifying checksums of
    everything written (\<open>emitted_packets_well_formed\<close>), correctness of the checksum.
  \<^item> \<^emph>\<open>Robustness.\<close> No run panics (\<open>server_types\<close>), bad packets are skipped, and a packet stops a server
    whose device works only if its reply is oversized.
  \<^item> \<^emph>\<open>Time.\<close> Exponential backoff within its bounds and the bound on retries (\<open>server_backoff\<close>), what a round of
    retransmissions does, progress after it, the waiting of the loop.
  \<^item> \<^emph>\<open>Shutdown.\<close> What the first signal does, and that the program ends normally only on request.
  \<^item> \<^emph>\<open>Behaviour that is probably not intended.\<close> A reply of more than 1460 bytes of data ends the
    server (\<open>oversized_echo_stops_server\<close>), a FIN-ACK out of sequence that acknowledges the point half the
    sequence space ahead is accepted on an idle connection, until the next acknowledgment undoes it
    (\<open>antipodal_ack_recovers\<close>), an ACK outside the receive window can close the send window for
    good (\<open>stray_ack_silences_connection\<close>), buffered data is dropped when the client closes first
    (\<open>fin_truncates_echo\<close>), steady traffic suspends the grace period and the retransmissions
    (\<open>traffic_suspends_grace_period\<close>), IPv4 options are rejected (\<open>ipv4_options_rejected\<close>).

  \<^bold>\<open>Bounds.\<close> Slices are shorter than \<open>2\<^sup>6\<^sup>3\<close> bytes, as in every Rust program, where the checksum needs
  it. Both packet buffers have \<open>ETHERNET_MTU\<close> = 1500 bytes. A read returns at most the buffer's
  length when the kernel is correct; the model lets it return more and the code then fails with an
  error. Theorems on due times assume that the last transmission is two minutes or more from the end of \<open>Instant\<close>.

  \<^bold>\<open>What is a parameter.\<close> System calls (\<open>poll\<close>, \<open>read\<close>, \<open>write\<close>, \<open>open\<close>, \<open>ioctl\<close>, \<open>sigaction\<close>), the clock, the
  random source and the environment are arguments, with arbitrary results. \<open>escape_debug\<close> of the
  Rust library, which needs the Unicode tables, is an argument of the functions that print payloads.
  \<open>write_all\<close> writes a packet completely or fails; a TUN device takes whole packets.

  \<^bold>\<open>Not modelled.\<close> The two integration tests under \<open>tests/\<close>, which need real signals, and the benchmark
  harness; the texts of error messages, which are constructors of \<open>error\<close>; the panic of \<open>println!\<close> when standard output is closed; the unsafe code's memory
  layout in \<open>src/sys/\<close>, of which only the values passed to the system calls are represented.
\<close>

end
